theory Spec2Isabelle
  imports Complex_Main "HOL-Library.Word" "HOL-Library.Multiset"
begin

unbundle bit_operations_syntax

section \<open>Bundled ray handlers of the path tracer: data model\<close>

text \<open>
  The development embeds \<^verbatim>\<open>RayHandlers.cc\<close> and \<^verbatim>\<open>XPURayHandlers.cc\<close>.
  Conventions of the embedding:
  \<^item> \<^verbatim>\<open>float\<close> values are idealised as \<^typ>\<open>real\<close>: the theorems are about which formula
    each branch applies, not about rounding. The one sum whose rounding decides a branch,
    clear radius plus falloff distance in the occlusion resolvers, is rounded with the
    parameter \<^verbatim>\<open>roundToFloat\<close>;
  \<^item> every call on a collaborator that is not part of the two files (accelerator,
    integrator, scene, AOV accumulation, handle tables, shade queues) is a field of the
    environment record and, when it has an effect, an event appended to the thread's
    trace, in program order;
  \<^item> \<^verbatim>\<open>MNRY_ASSERT\<close> and \<^verbatim>\<open>MNRY_VERIFY\<close> that fail, a null pointer that is
    dereferenced, and array accesses outside the allocated capacity are error results;
  \<^item> memory obtained from the arena is not initialised: its initial contents are
    parameters;
  \<^item> a \<^verbatim>\<open>RayState *\<close> is the offset of the ray state from \<^verbatim>\<open>indexToRayState(0)\<close>, and
    the pool of ray states is a function from offsets to ray states.
\<close>

datatype error = AssertionFailed | OutOfBounds | NullDereference

datatype OcclTestType = STANDARD | FORCE_NOT_OCCLUDED

datatype LpePrefix = sLpePrefixNone | sLpePrefixUnoccluded

type_synonym Handle = "32 word"

type_synonym Vec3 = "real \<times> real \<times> real"

type_synonym Vec2 = "real \<times> real"

datatype Color = Color (colR: real) (colG: real) (colB: real)

definition sBlack :: Color where
  "sBlack = Color 0 0 0"

definition sWhite :: Color where
  "sWhite = Color 1 1 1"

definition cmul :: "Color \<Rightarrow> Color \<Rightarrow> Color" where
  \<comment> \<open>\<^verbatim>\<open>Color * Color\<close>, component by component\<close>
  "cmul a c = Color (colR a * colR c) (colG a * colG c) (colB a * colB c)"

definition cadd :: "Color \<Rightarrow> Color \<Rightarrow> Color" where
  "cadd a c = Color (colR a + colR c) (colG a + colG c) (colB a + colB c)"

definition cscale :: "real \<Rightarrow> Color \<Rightarrow> Color" where
  \<comment> \<open>\<^verbatim>\<open>float * Color\<close>\<close>
  "cscale s c = Color (s * colR c) (s * colG c) (s * colB c)"

definition cscaleR :: "Color \<Rightarrow> real \<Rightarrow> Color" where
  \<comment> \<open>\<^verbatim>\<open>Color * scalar\<close>\<close>
  "cscaleR c s = Color (colR c * s) (colG c * s) (colB c * s)"

datatype RenderColor = RenderColor (rcR: real) (rcG: real) (rcB: real) (rcA: real)

record Light =
  getRdlLight :: nat
  getClearRadius :: real
  getClearRadiusFalloffDistance :: real
  getIsOpaqueInAlpha :: bool

record BundledOcclRayData =
  mLight :: Light
  mRayEpsilon :: real

record BundledOcclRay =
  mOrigin :: Vec3
  mDir :: Vec3
  mMinT :: real
  mMaxT :: real
  mTime :: real
  mDepth :: int
  mRadiance :: Color
  mOcclTestType :: OcclTestType
  mDataPtrHandle :: Handle
  mDeepDataHandle :: Handle
  mCryptomatteDataHandle :: Handle
  mShadowReceiverId :: int

text \<open>
  The \<^verbatim>\<open>mcrt_common::Ray\<close> that \<^verbatim>\<open>areSingleRaysOccluded\<close> fills in for the accelerator:
  the fields it assigns (\<^verbatim>\<open>org\<close>, \<^verbatim>\<open>dir\<close>, \<^verbatim>\<open>tnear\<close>, \<^verbatim>\<open>tfar\<close>, \<^verbatim>\<open>time\<close>, \<^verbatim>\<open>mask\<close>,
  \<^verbatim>\<open>geomID\<close> and three fields of \<^verbatim>\<open>ext\<close>).
\<close>

record OcclusionTestRay =
  rtOrg :: Vec3
  rtDir :: Vec3
  rtTnear :: real
  rtTfar :: real
  rtTime :: real
  rtMask :: nat
  rtGeomID :: "32 word"
  rtInstance0OrLight :: nat
  rtShadowReceiverId :: int
  rtVolumeInstanceState :: nat

text \<open>The shadow ray built by the presence resolver: origin, direction, interval, time, depth.\<close>

type_synonym ShadowRay = "Vec3 \<times> Vec3 \<times> real \<times> real \<times> real \<times> int"

record BundledRadiance =
  brRadiance :: RenderColor
  brPathPixelWeight :: real
  brPixel :: "32 word"
  brSubPixelIndex :: int
  brDeepDataHandle :: Handle
  brCryptomatteDataHandle :: Handle
  brCryptoRefP :: Vec3
  brCryptoRefN :: Vec3
  brCryptoUV :: Vec2
  brTilePass :: nat

text \<open>A \<^verbatim>\<open>rt::GPURay\<close> is opaque to the handlers: it is passed on to the accelerator only.\<close>

datatype GPURay = GPURay nat

text \<open>The ray of a \<^verbatim>\<open>RayState\<close> after intersection: the members the handler reads.\<close>

record Ray =
  geomID :: "32 word"
  primID :: "32 word"
  getDepth :: int
  getOrigin :: Vec3
  getDirection :: Vec3
  getTime :: real
  extUserData :: nat

record PathVertex =
  pathThroughput :: Color
  pathPixelWeight :: real
  lpeStateId :: int
  lpeStateIdLight :: int
  nonMirrorDepth :: int
  lobeType :: int

record Subpixel =
  mPixel :: "32 word"
  mSubpixelIndex :: int

record VolumeTransmittance =
  mTransmittanceE :: Color
  mTransmittanceH :: Color
  mTransmittanceAlpha :: Color
  mTransmittanceMin :: Color

record RayState =
  mRay :: Ray
  mPathVertex :: PathVertex
  mSubpixel :: Subpixel
  mSequenceID :: nat
  mVolRad :: Color
  mVolTr :: Color
  mVolTh :: Color
  mVolTalpha :: Color
  mVolTm :: Color
  mVolHit :: bool
  mVolumeSurfaceT :: real
  rsDeepDataHandle :: Handle
  rsCryptomatteDataHandle :: Handle
  mCryptoRefP :: Vec3
  mCryptoRefN :: Vec3
  mCryptoUV :: Vec2
  mTilePass :: nat

text \<open>
  A \<^verbatim>\<open>shading::Material\<close> as the handler uses it: its bundled material id and its shade
  queue (\<open>None\<close> for a null pointer). An \<^verbatim>\<open>rdl2::Material\<close> and a primitive are opaque.
\<close>

record Material =
  getMaterialId :: "32 word"
  getShadeQueue :: "nat option"

type_synonym RdlMaterial = nat

type_synonym Primitive = nat

record SortedEntry =
  mSortKey :: "32 word"
  mRsIdx :: "32 word"
  mMaterial :: "Material option"

text \<open>\<^verbatim>\<open>shading::SortedRayState\<close>: ray state index and the geometry/primitive sort key.\<close>

record SortedRayState =
  srsRsIdx :: "32 word"
  srsSortKey :: "32 word"

datatype StatsCounter =
  STATS_OCCLUSION_RAYS | STATS_BUNDLED_OCCLUSION_RAYS | STATS_BUNDLED_GPU_OCCLUSION_RAYS
  | STATS_INTERSECTION_RAYS | STATS_BUNDLED_INTERSECTION_RAYS

text \<open>The places where \<^verbatim>\<open>rayBundleHandler\<close> polls for cancellation.\<close>

datatype CancelPoint = AfterVolumes | AfterMisses | AfterShadeSubmit nat

text \<open>
  The calls on collaborators that have an effect, as they appear in a thread's trace.
  Events that concern a ray state carry its pointer (its offset in the pool).
\<close>

datatype Event =
    AddToCounter StatsCounter nat
  | AccelOccluded OcclusionTestRay
  | GpuOccluded "GPURay list" "BundledOcclRay list"
  | ThreadsUsingGPUIncr
  | ThreadsUsingGPUDecr
  | AccumulateRayPresence Light ShadowRay
  | AccumLightAovs BundledOcclRay nat Color "Color option" LpePrefix
  | AccumVisibilityAovs BundledOcclRay nat real
  | AccumVisibilityAovsOccluded BundledOcclRay nat
  | FreeList Handle
  | ReleaseDeepData Handle
  | ReleaseCryptomatteData Handle
  | AddRadianceQueueEntries "BundledRadiance list"
  | AccelIntersect nat
  | ComputeRadianceVolume nat
  | HeatMapBundledUpdate "nat list"
  | AovAccumVisibilityAttemptsBundled "32 word" "32 word" Handle
  | AcquireDeepData Handle
  | AcquireCryptomatteData Handle
  | IntersectVisibleLight nat
  | LightEval Light nat
  | AovAccumBackgroundExtraAovsBundled nat
  | AovSetStateVarsVolumeOnly nat
  | AovAddToBundledQueueVolumeOnly nat
  | LightEventTransition int Light
  | AovAccumLightAovsBundled Color LpePrefix int "32 word" Handle
  | FreeRayStates "nat list"
  | ShadeQueueAddEntries nat "SortedRayState list"

text \<open>
  The collaborators. \<^verbatim>\<open>fillBundledRadiance\<close>, \<^verbatim>\<open>getTransmittance\<close>,
  \<^verbatim>\<open>calculateShadowFalloff\<close>, \<^verbatim>\<open>reduceTransparency\<close>, \<^verbatim>\<open>isEqual\<close>, \<^verbatim>\<open>nullHandle\<close>,
  \<^verbatim>\<open>sMaxValue\<close> and the constants \<^verbatim>\<open>SHADOW\<close> and \<^verbatim>\<open>RT_INVALID_RAY_ID\<close> are declared in
  headers outside the two files and are taken as parameters.
  \<^item> \<^verbatim>\<open>gpuOutputOcclusionBuf\<close> is the buffer the GPU accelerator hands back after its
    batch call;
  \<^item> \<^verbatim>\<open>intersect\<close> is the ray as \<^verbatim>\<open>accel->intersect\<close> leaves it;
  \<^item> \<^verbatim>\<open>computeRadianceVolume\<close> returns the integrator's result and the values it leaves
    in its three output arguments (volume radiance, volume transmittance, volume
    surface distance);
  \<^item> \<^verbatim>\<open>mPrimitive\<close> is the primitive of the ray's \<^verbatim>\<open>BVHUserData\<close> (\<open>None\<close> for a null
    pointer), \<^verbatim>\<open>getShadingMaterial\<close> is \<^verbatim>\<open>&rdl2Material->get<const shading::Material>()\<close>
    (\<open>None\<close> for a null pointer);
  \<^item> \<^verbatim>\<open>intersectVisibleLight\<close> returns the light hit (\<open>None\<close> for a null pointer), the
    light intersection and \<^verbatim>\<open>numHits\<close>; \<^verbatim>\<open>lightEval\<close> is \<^verbatim>\<open>hitLight->eval\<close>;
  \<^item> \<^verbatim>\<open>arenaRadiance i\<close>, \<^verbatim>\<open>arenaSortedEntry i\<close> and \<^verbatim>\<open>arenaRayStatePtr i\<close> are what slot
    \<open>i\<close> of a freshly allocated array of the arena holds;
  \<^item> \<^verbatim>\<open>getLightSampleCount\<close> and \<^verbatim>\<open>getLightCount\<close> are 32-bit values and their product,
    which the source stores in an \<^verbatim>\<open>int\<close>, is taken modulo \<open>2^32\<close>;
  \<^item> \<^verbatim>\<open>roundToFloat x\<close> is the \<^verbatim>\<open>float\<close> the machine stores for the exact value \<open>x\<close>, so
    that the \<^verbatim>\<open>float\<close> sum \<^verbatim>\<open>a + b\<close> is \<open>roundToFloat (a + b)\<close>.
\<close>

record Env =
  nullHandle :: Handle
  SHADOW :: nat
  RT_INVALID_RAY_ID :: "32 word"
  sMaxValue :: real
  isValid :: "BundledOcclRay \<Rightarrow> bool"
  getEnableShadowing :: bool
  occluded :: "OcclusionTestRay \<Rightarrow> bool"
  gpuOutputOcclusionBuf :: "GPURay list \<Rightarrow> BundledOcclRay list \<Rightarrow> 8 word list"
  getListItem :: "Handle \<Rightarrow> nat \<Rightarrow> BundledOcclRayData"
  getNumListItems :: "Handle \<Rightarrow> nat"
  getTransmittance :: "BundledOcclRay \<Rightarrow> Color"
  fillBundledRadiance :: "BundledOcclRay \<Rightarrow> BundledRadiance"
  calculateShadowFalloff :: "Light \<Rightarrow> real \<Rightarrow> Color \<Rightarrow> Color"
  reduceTransparency :: "Color \<Rightarrow> real"
  hasLpePrefixFlags :: "LpePrefix \<Rightarrow> bool"
  accumulateRayPresence :: "Light \<Rightarrow> ShadowRay \<Rightarrow> real \<Rightarrow> int \<Rightarrow> real \<Rightarrow> real"
  mMaxPresenceDepth :: int
  isEqual :: "real \<Rightarrow> real \<Rightarrow> bool"
  occlCanceled :: bool
  arenaRadiance :: "nat \<Rightarrow> BundledRadiance"
  isValidRayState :: "RayState \<Rightarrow> bool"
  intersect :: "Ray \<Rightarrow> Ray"
  computeRadianceVolume :: "RayState \<Rightarrow> int \<Rightarrow> bool \<times> Color \<times> VolumeTransmittance \<times> real"
  mRequiresHeatMap :: bool
  aovSchemaEmpty :: bool
  getLightSampleCount :: "32 word"
  getLightCount :: "32 word"
  mPrimitive :: "nat \<Rightarrow> Primitive option"
  getIntersectionMaterial :: "Primitive \<Rightarrow> Ray \<Rightarrow> RdlMaterial"
  getShadingMaterial :: "RdlMaterial \<Rightarrow> Material option"
  lobeTypeToRayType :: "int \<Rightarrow> int"
  raySwitch :: "RdlMaterial \<Rightarrow> int \<Rightarrow> RdlMaterial"
  acquireDeepData :: "Handle \<Rightarrow> Handle"
  acquireCryptomatteData :: "Handle \<Rightarrow> Handle"
  intersectVisibleLight :: "Ray \<Rightarrow> Subpixel \<Rightarrow> Light option \<times> nat \<times> int"
  lightEval :: "Light \<Rightarrow> Ray \<Rightarrow> nat \<Rightarrow> Color"
  lightEventTransition :: "int \<Rightarrow> Light \<Rightarrow> int"
  isCanceled :: "CancelPoint \<Rightarrow> bool"
  arenaSortedEntry :: "nat \<Rightarrow> SortedEntry"
  arenaRayStatePtr :: "nat \<Rightarrow> nat"
  roundToFloat :: "real \<Rightarrow> real"

text \<open>
  The state a resolver threads through its loop: the results array (the whole allocation),
  \<^verbatim>\<open>numRadiancesFilled\<close>, and the trace of collaborator calls.
\<close>

type_synonym OcclState = "BundledRadiance list \<times> nat \<times> Event list"

definition storeAt :: "'a list \<Rightarrow> nat \<Rightarrow> 'a \<Rightarrow> error + 'a list" where
  \<comment> \<open>\<^verbatim>\<open>a[i] = v\<close> on an array of fixed capacity\<close>
  "storeAt a i v = (if i < length a then Inr (a[i := v]) else Inl OutOfBounds)"

definition loadAt :: "'a list \<Rightarrow> nat \<Rightarrow> error + 'a" where
  \<comment> \<open>reading \<^verbatim>\<open>a[i]\<close> on an array of fixed capacity\<close>
  "loadAt a i = (if i < length a then Inr (a ! i) else Inl OutOfBounds)"

definition allocArray :: "(nat \<Rightarrow> 'a) \<Rightarrow> nat \<Rightarrow> 'a list" where
  \<comment> \<open>\<^verbatim>\<open>arena->allocArray<T>(n)\<close>: \<open>n\<close> slots holding whatever the arena held\<close>
  "allocArray content n = map content [0..<n]"

section \<open>Occlusion resolver on the CPU\<close>

text \<open>
  One iteration of the loop of \<^verbatim>\<open>areSingleRaysOccluded\<close>. \<open>base\<close> is the offset of the
  \<^verbatim>\<open>results\<close> pointer into the allocation. The ray is updated in place
  (\<^verbatim>\<open>occlRay.mRadiance = ...\<close>) before it is handed to \<^verbatim>\<open>fillBundledRadiance\<close> and the AOV
  calls, which therefore see the updated ray.
\<close>

definition areSingleRaysOccluded_body ::
  "Env \<Rightarrow> nat \<Rightarrow> BundledOcclRay \<Rightarrow> OcclState \<Rightarrow> error + OcclState" where
  "areSingleRaysOccluded_body env base occlRay st =
    (case st of (results, numRadiancesFilled, tls) \<Rightarrow>
      if \<not> isValid env occlRay then Inl AssertionFailed
      else
        let rtRay = \<lparr> rtOrg = mOrigin occlRay, rtDir = mDir occlRay, rtTnear = mMinT occlRay,
                      rtTfar = mMaxT occlRay, rtTime = mTime occlRay, rtMask = SHADOW env,
                      rtGeomID = RT_INVALID_RAY_ID env,
                      rtInstance0OrLight =
                        getRdlLight (mLight (getListItem env (mDataPtrHandle occlRay) 0)),
                      rtShadowReceiverId = mShadowReceiverId occlRay,
                      rtVolumeInstanceState = 0 \<rparr>
        in
        if mOcclTestType occlRay \<noteq> STANDARD then Inl AssertionFailed
        else
          let isOccluded = occluded env rtRay;
              tls1 = tls @ [AccelOccluded rtRay];
              branch =
                (if \<not> isOccluded \<or> \<not> getEnableShadowing env then
                   let tr = getTransmittance env occlRay;
                       occlRay1 = occlRay\<lparr>mRadiance := cmul (mRadiance occlRay) tr\<rparr>
                   in
                   (case storeAt results (base + numRadiancesFilled)
                           (fillBundledRadiance env occlRay1) of
                      Inl e \<Rightarrow> Inl e
                    | Inr results1 \<Rightarrow>
                        Inr (results1, numRadiancesFilled + 1,
                             if mDataPtrHandle occlRay1 \<noteq> nullHandle env then
                               let numItems = getNumListItems env (mDataPtrHandle occlRay1)
                               in tls1 @ [AccumLightAovs occlRay1 numItems sWhite (Some tr)
                                             sLpePrefixUnoccluded,
                                          AccumVisibilityAovs occlRay1 numItems
                                             (reduceTransparency env tr)]
                             else tls1))
                 else
                   if mDataPtrHandle occlRay \<noteq> nullHandle env then
                     let light = mLight (getListItem env (mDataPtrHandle occlRay) 0);
                         falloff =
                           (if getClearRadiusFalloffDistance light \<noteq> 0 \<and>
                               mMaxT occlRay
                                 < roundToFloat env
                                     (getClearRadius light + getClearRadiusFalloffDistance light)
                            then
                              let tr = getTransmittance env occlRay;
                                  occlRay1 = occlRay\<lparr>mRadiance :=
                                    calculateShadowFalloff env light (mMaxT occlRay)
                                      (cmul tr (mRadiance occlRay))\<rparr>
                              in
                              (case storeAt results (base + numRadiancesFilled)
                                      (fillBundledRadiance env occlRay1) of
                                 Inl e \<Rightarrow> Inl e
                               | Inr results1 \<Rightarrow>
                                   Inr (occlRay1, results1, numRadiancesFilled + 1))
                            else Inr (occlRay, results, numRadiancesFilled))
                     in
                     (case falloff of
                        Inl e \<Rightarrow> Inl e
                      | Inr (occlRay2, results2, numFilled2) \<Rightarrow>
                          let numItems = getNumListItems env (mDataPtrHandle occlRay2);
                              tls2 = tls1 @ [AccumVisibilityAovsOccluded occlRay2 numItems]
                          in
                          Inr (results2, numFilled2,
                               if hasLpePrefixFlags env sLpePrefixUnoccluded then
                                 tls2 @ [AccumLightAovs occlRay2 numItems sWhite None
                                           sLpePrefixUnoccluded]
                               else tls2))
                   else Inr (results, numRadiancesFilled, tls1))
          in
          (case branch of
             Inl e \<Rightarrow> Inl e
           | Inr (results3, numFilled3, tls3) \<Rightarrow>
               let tls4 = (if mDataPtrHandle occlRay \<noteq> nullHandle env
                           then tls3 @ [FreeList (mDataPtrHandle occlRay)] else tls3)
               in
               Inr (results3, numFilled3,
                    tls4 @ [ReleaseDeepData (mDeepDataHandle occlRay),
                            ReleaseCryptomatteData (mCryptomatteDataHandle occlRay)])))"

fun areSingleRaysOccluded_loop ::
  "Env \<Rightarrow> nat \<Rightarrow> BundledOcclRay list \<Rightarrow> OcclState \<Rightarrow> error + OcclState" where
  "areSingleRaysOccluded_loop env base [] st = Inr st"
| "areSingleRaysOccluded_loop env base (occlRay # entries) st =
    (case areSingleRaysOccluded_body env base occlRay st of
       Inl e \<Rightarrow> Inl e
     | Inr st1 \<Rightarrow> areSingleRaysOccluded_loop env base entries st1)"

text \<open>
  \<^verbatim>\<open>areSingleRaysOccluded\<close>: \<open>entries\<close> are the \<^verbatim>\<open>numEntries\<close> rays the pointer array
  refers to, \<open>results\<close> is the allocation and \<open>base\<close> the offset of the \<^verbatim>\<open>results\<close>
  pointer in it. Returns the number of results filled in, the array and the trace.
\<close>

definition areSingleRaysOccluded ::
  "Env \<Rightarrow> BundledOcclRay list \<Rightarrow> nat \<Rightarrow> BundledRadiance list \<Rightarrow> Event list
     \<Rightarrow> error + (nat \<times> BundledRadiance list \<times> Event list)" where
  "areSingleRaysOccluded env entries base results tls =
    (case areSingleRaysOccluded_loop env base entries (results, 0, tls) of
       Inl e \<Rightarrow> Inl e
     | Inr (results1, numRadiancesFilled, tls1) \<Rightarrow> Inr (numRadiancesFilled, results1, tls1))"

text \<open>One iteration of the loop of \<^verbatim>\<open>forceSingleRaysUnoccluded\<close>, at loop index \<open>i\<close>.\<close>

definition forceSingleRaysUnoccluded_body ::
  "Env \<Rightarrow> nat \<Rightarrow> nat \<Rightarrow> BundledOcclRay \<Rightarrow> BundledRadiance list \<times> Event list
     \<Rightarrow> error + (BundledRadiance list \<times> Event list)" where
  "forceSingleRaysUnoccluded_body env base i occlRay st =
    (case st of (results, tls) \<Rightarrow>
      if \<not> isValid env occlRay then Inl AssertionFailed
      else if mOcclTestType occlRay \<noteq> FORCE_NOT_OCCLUDED then Inl AssertionFailed
      else
        let tr = getTransmittance env occlRay;
            occlRay1 = occlRay\<lparr>mRadiance := cmul (mRadiance occlRay) tr\<rparr>
        in
        (case storeAt results (base + i) (fillBundledRadiance env occlRay1) of
           Inl e \<Rightarrow> Inl e
         | Inr results1 \<Rightarrow>
             let tls1 = (if mDataPtrHandle occlRay1 \<noteq> nullHandle env then
                           tls @ [AccumLightAovs occlRay1
                                    (getNumListItems env (mDataPtrHandle occlRay1)) tr None
                                    sLpePrefixNone]
                         else tls);
                 tls2 = (if mDataPtrHandle occlRay1 \<noteq> nullHandle env
                         then tls1 @ [FreeList (mDataPtrHandle occlRay1)] else tls1)
             in
             Inr (results1,
                  tls2 @ [ReleaseDeepData (mDeepDataHandle occlRay1),
                          ReleaseCryptomatteData (mCryptomatteDataHandle occlRay1)])))"

fun forceSingleRaysUnoccluded_loop ::
  "Env \<Rightarrow> nat \<Rightarrow> nat \<Rightarrow> BundledOcclRay list \<Rightarrow> BundledRadiance list \<times> Event list
     \<Rightarrow> error + (BundledRadiance list \<times> Event list)" where
  "forceSingleRaysUnoccluded_loop env base i [] st = Inr st"
| "forceSingleRaysUnoccluded_loop env base i (occlRay # entries) st =
    (case forceSingleRaysUnoccluded_body env base i occlRay st of
       Inl e \<Rightarrow> Inl e
     | Inr st1 \<Rightarrow> forceSingleRaysUnoccluded_loop env base (i + 1) entries st1)"

definition forceSingleRaysUnoccluded ::
  "Env \<Rightarrow> BundledOcclRay list \<Rightarrow> nat \<Rightarrow> BundledRadiance list \<Rightarrow> Event list
     \<Rightarrow> error + (nat \<times> BundledRadiance list \<times> Event list)" where
  "forceSingleRaysUnoccluded env entries base results tls =
    (case forceSingleRaysUnoccluded_loop env base 0 entries (results, tls) of
       Inl e \<Rightarrow> Inl e
     | Inr (results1, tls1) \<Rightarrow> Inr (length entries, results1, tls1))"

text \<open>
  \<^verbatim>\<open>std::partition\<close> on a range of pointers is the bidirectional algorithm of the C++
  standard library: scan forward over elements that satisfy the predicate, scan backward
  over elements that do not, swap the two that stopped the scans, repeat. The two inner
  loops are the two functions below; \<open>firstI\<close> and \<open>lastI\<close> are the offsets of the
  iterators \<^verbatim>\<open>first\<close> and \<^verbatim>\<open>last\<close> into the array. The loops exit on
  \<^verbatim>\<open>first == last\<close>; as \<open>firstI \<le> lastI\<close> holds whenever they are entered from
  \<open>std_partition\<close>, the test is written \<open>lastI \<le> firstI\<close>.
\<close>

function partition_forward :: "('a \<Rightarrow> bool) \<Rightarrow> 'a list \<Rightarrow> nat \<Rightarrow> nat \<Rightarrow> 'a list \<times> nat"
  and partition_backward :: "('a \<Rightarrow> bool) \<Rightarrow> 'a list \<Rightarrow> nat \<Rightarrow> nat \<Rightarrow> 'a list \<times> nat"
  where
  "partition_forward pred a firstI lastI =
    (if lastI \<le> firstI then (a, firstI)
     else if pred (a ! firstI) then partition_forward pred a (firstI + 1) lastI
     else partition_backward pred a firstI (lastI - 1))"
| "partition_backward pred a firstI lastI =
    (if lastI \<le> firstI then (a, firstI)
     else if \<not> pred (a ! lastI) then partition_backward pred a firstI (lastI - 1)
     else partition_forward pred (a[firstI := a ! lastI, lastI := a ! firstI]) (firstI + 1) lastI)"
  by pat_completeness auto
termination
  by (relation "measure (\<lambda>x. case x of Inl (p, a, f, l) \<Rightarrow> l - f | Inr (p, a, f, l) \<Rightarrow> l - f)")
    auto

definition std_partition :: "('a \<Rightarrow> bool) \<Rightarrow> 'a list \<Rightarrow> 'a list \<times> nat" where
  \<comment> \<open>the array after the call, and the offset of the returned iterator\<close>
  "std_partition pred a = partition_forward pred a 0 (length a)"

text \<open>
  \<^verbatim>\<open>computeOcclusionQueriesBundled\<close>. Besides the count, the results array and the
  trace, the model returns the entries array as the in-place partition left it.
\<close>

definition computeOcclusionQueriesBundled ::
  "Env \<Rightarrow> BundledOcclRay list \<Rightarrow> BundledRadiance list \<Rightarrow> Event list
     \<Rightarrow> error + (nat \<times> BundledRadiance list \<times> Event list \<times> BundledOcclRay list)" where
  "computeOcclusionQueriesBundled env entries0 results tls0 =
    (let numEntries0 = length entries0;
         tls = tls0 @ [AddToCounter STATS_OCCLUSION_RAYS numEntries0,
                       AddToCounter STATS_BUNDLED_OCCLUSION_RAYS numEntries0];
         (entries, noOpEntries) =
            std_partition (\<lambda>r. mOcclTestType r = STANDARD) entries0;
         numStandardEntries = noOpEntries;
         numNoOpEntries = numEntries0 - numStandardEntries;
         numEntries = numStandardEntries;
         standard =
           (if numEntries \<noteq> 0 then
              areSingleRaysOccluded env (take numEntries entries) 0 results tls
            else Inr (0, results, tls))
     in
     case standard of
       Inl e \<Rightarrow> Inl e
     | Inr (numRadiancesFilled, results1, tls1) \<Rightarrow>
         if numNoOpEntries \<noteq> 0 then
           (case forceSingleRaysUnoccluded env
                   (take numNoOpEntries (drop noOpEntries entries))
                   numRadiancesFilled results1 tls1 of
              Inl e \<Rightarrow> Inl e
            | Inr (n, results2, tls2) \<Rightarrow> Inr (numRadiancesFilled + n, results2, tls2, entries))
         else Inr (numRadiancesFilled, results1, tls1, entries))"

section \<open>Presence shadows resolver\<close>

definition scaleRGB :: "RenderColor \<Rightarrow> real \<Rightarrow> RenderColor" where
  \<comment> \<open>\<^verbatim>\<open>mRadiance[0] *= s; mRadiance[1] *= s; mRadiance[2] *= s\<close>\<close>
  "scaleRGB c s = RenderColor (rcR c * s) (rcG c * s) (rcB c * s) (rcA c)"

definition computePresenceShadowsQueriesBundled_body ::
  "Env \<Rightarrow> BundledOcclRay \<Rightarrow> OcclState \<Rightarrow> error + OcclState" where
  "computePresenceShadowsQueriesBundled_body env occlRay st =
    (case st of (results, numRadiancesFilled, tls) \<Rightarrow>
      if \<not> isValid env occlRay then Inl AssertionFailed
      else
        let b = getListItem env (mDataPtrHandle occlRay) 0;
            shadowRay = (mOrigin occlRay, mDir occlRay, mMinT occlRay, mMaxT occlRay,
                         mTime occlRay, mDepth occlRay);
            presence = accumulateRayPresence env (mLight b) shadowRay (mRayEpsilon b)
                         (mMaxPresenceDepth env) 0;
            tls1 = tls @ [AccumulateRayPresence (mLight b) shadowRay];
            tr = getTransmittance env occlRay;
            occlRay1 = occlRay\<lparr>mRadiance := cmul (mRadiance occlRay) tr\<rparr>;
            stored =
              (if isEqual env presence 0 \<or> \<not> getEnableShadowing env then
                 storeAt results numRadiancesFilled (fillBundledRadiance env occlRay1)
               else
                 storeAt results numRadiancesFilled
                   ((fillBundledRadiance env occlRay1)
                      \<lparr>brRadiance :=
                         scaleRGB (brRadiance (fillBundledRadiance env occlRay1))
                           (1 - presence)\<rparr>))
        in
        (case stored of
           Inl e \<Rightarrow> Inl e
         | Inr results1 \<Rightarrow>
             let numItems = getNumListItems env (mDataPtrHandle occlRay1);
                 occlusionValue = cscale (1 - presence) tr
             in
             Inr (results1, numRadiancesFilled + 1,
                  tls1 @ [AccumLightAovs occlRay1 numItems sWhite (Some occlusionValue)
                            sLpePrefixUnoccluded,
                          AccumVisibilityAovs occlRay1 numItems
                            (reduceTransparency env occlusionValue),
                          FreeList (mDataPtrHandle occlRay1),
                          ReleaseCryptomatteData (mCryptomatteDataHandle occlRay1)])))"

fun computePresenceShadowsQueriesBundled_loop ::
  "Env \<Rightarrow> BundledOcclRay list \<Rightarrow> OcclState \<Rightarrow> error + OcclState" where
  "computePresenceShadowsQueriesBundled_loop env [] st = Inr st"
| "computePresenceShadowsQueriesBundled_loop env (occlRay # entries) st =
    (case computePresenceShadowsQueriesBundled_body env occlRay st of
       Inl e \<Rightarrow> Inl e
     | Inr st1 \<Rightarrow> computePresenceShadowsQueriesBundled_loop env entries st1)"

definition computePresenceShadowsQueriesBundled ::
  "Env \<Rightarrow> BundledOcclRay list \<Rightarrow> BundledRadiance list \<Rightarrow> Event list
     \<Rightarrow> error + (nat \<times> BundledRadiance list \<times> Event list)" where
  "computePresenceShadowsQueriesBundled env entries results tls =
    (if length entries = 0 then Inr (0, results, tls)
     else
       case computePresenceShadowsQueriesBundled_loop env entries (results, 0, tls) of
         Inl e \<Rightarrow> Inl e
       | Inr (results1, numRadiancesFilled, tls1) \<Rightarrow> Inr (numRadiancesFilled, results1, tls1))"


text \<open>
  The bundle handlers: allocate the results array from the arena, run the resolver, check
  the assertion, poll for cancellation, hand the filled prefix to the radiance queue.
\<close>

definition occlusionQueryBundleHandler ::
  "Env \<Rightarrow> BundledOcclRay list \<Rightarrow> Event list \<Rightarrow> error + Event list" where
  "occlusionQueryBundleHandler env entries tls =
    (let numEntries = length entries;
         results = allocArray (arenaRadiance env) numEntries
     in
     case computeOcclusionQueriesBundled env entries results tls of
       Inl e \<Rightarrow> Inl e
     | Inr (numRadiancesFilled, results1, tls1, entries1) \<Rightarrow>
         if \<not> numRadiancesFilled \<le> numEntries then Inl AssertionFailed
         else if occlCanceled env then Inr tls1
         else Inr (tls1 @ [AddRadianceQueueEntries (take numRadiancesFilled results1)]))"

definition presenceShadowsQueryBundleHandler ::
  "Env \<Rightarrow> BundledOcclRay list \<Rightarrow> Event list \<Rightarrow> error + Event list" where
  "presenceShadowsQueryBundleHandler env entries tls =
    (let numEntries = length entries;
         results = allocArray (arenaRadiance env) numEntries
     in
     case computePresenceShadowsQueriesBundled env entries results tls of
       Inl e \<Rightarrow> Inl e
     | Inr (numRadiancesFilled, results1, tls1) \<Rightarrow>
         if \<not> numRadiancesFilled \<le> numEntries then Inl AssertionFailed
         else if occlCanceled env then Inr tls1
         else Inr (tls1 @ [AddRadianceQueueEntries (take numRadiancesFilled results1)]))"

section \<open>Occlusion resolver on the GPU\<close>

text \<open>
  One iteration of the second loop of \<^verbatim>\<open>computeXPUOcclusionQueriesOnGPU\<close>, at index
  \<open>i\<close>; \<open>isOccludedBuf\<close> is the accelerator's output buffer, read at \<open>i\<close> for every
  ray that is not \<^verbatim>\<open>FORCE_NOT_OCCLUDED\<close>.
\<close>

definition computeXPUOcclusionQueriesOnGPU_body ::
  "Env \<Rightarrow> 8 word list \<Rightarrow> nat \<Rightarrow> BundledOcclRay \<Rightarrow> OcclState \<Rightarrow> error + OcclState" where
  "computeXPUOcclusionQueriesOnGPU_body env isOccludedBuf i occlRay st =
    (case st of (results, numRadiancesFilled, tls) \<Rightarrow>
      let branch =
        (if mOcclTestType occlRay = FORCE_NOT_OCCLUDED then
           let tr = getTransmittance env occlRay;
               occlRay1 = occlRay\<lparr>mRadiance := cmul (mRadiance occlRay) tr\<rparr>
           in
           (case storeAt results numRadiancesFilled (fillBundledRadiance env occlRay1) of
              Inl e \<Rightarrow> Inl e
            | Inr results1 \<Rightarrow>
                Inr (results1, numRadiancesFilled + 1,
                     if mDataPtrHandle occlRay1 \<noteq> nullHandle env then
                       tls @ [AccumLightAovs occlRay1
                                (getNumListItems env (mDataPtrHandle occlRay1)) tr None
                                sLpePrefixNone]
                     else tls))
         else
           (case loadAt isOccludedBuf i of
              Inl e \<Rightarrow> Inl e
            | Inr isOccluded \<Rightarrow>
                if isOccluded = 0 \<or> \<not> getEnableShadowing env then
                  let tr = getTransmittance env occlRay;
                      occlRay1 = occlRay\<lparr>mRadiance := cmul (mRadiance occlRay) tr\<rparr>
                  in
                  (case storeAt results numRadiancesFilled
                          (fillBundledRadiance env occlRay1) of
                     Inl e \<Rightarrow> Inl e
                   | Inr results1 \<Rightarrow>
                       Inr (results1, numRadiancesFilled + 1,
                            if mDataPtrHandle occlRay1 \<noteq> nullHandle env then
                              let numItems = getNumListItems env (mDataPtrHandle occlRay1)
                              in tls @ [AccumLightAovs occlRay1 numItems sWhite (Some tr)
                                          sLpePrefixUnoccluded,
                                        AccumVisibilityAovs occlRay1 numItems
                                          (reduceTransparency env tr)]
                            else tls))
                else
                  if mDataPtrHandle occlRay \<noteq> nullHandle env then
                    let light = mLight (getListItem env (mDataPtrHandle occlRay) 0);
                        falloff =
                          (if getClearRadiusFalloffDistance light \<noteq> 0 \<and>
                              mMaxT occlRay
                                < roundToFloat env
                                    (getClearRadius light + getClearRadiusFalloffDistance light)
                           then
                             let tr = getTransmittance env occlRay;
                                 occlRay1 = occlRay\<lparr>mRadiance :=
                                   calculateShadowFalloff env light (mMaxT occlRay)
                                     (cmul tr (mRadiance occlRay))\<rparr>
                             in
                             (case storeAt results numRadiancesFilled
                                     (fillBundledRadiance env occlRay1) of
                                Inl e \<Rightarrow> Inl e
                              | Inr results1 \<Rightarrow>
                                  Inr (occlRay1, results1, numRadiancesFilled + 1))
                           else Inr (occlRay, results, numRadiancesFilled))
                    in
                    (case falloff of
                       Inl e \<Rightarrow> Inl e
                     | Inr (occlRay2, results2, numFilled2) \<Rightarrow>
                         let numItems = getNumListItems env (mDataPtrHandle occlRay2);
                             tls2 = tls @ [AccumVisibilityAovsOccluded occlRay2 numItems]
                         in
                         Inr (results2, numFilled2,
                              if hasLpePrefixFlags env sLpePrefixUnoccluded then
                                tls2 @ [AccumLightAovs occlRay2 numItems sWhite None
                                          sLpePrefixUnoccluded]
                              else tls2))
                  else Inr (results, numRadiancesFilled, tls)))
      in
      (case branch of
         Inl e \<Rightarrow> Inl e
       | Inr (results3, numFilled3, tls3) \<Rightarrow>
           let tls4 = (if mDataPtrHandle occlRay \<noteq> nullHandle env
                       then tls3 @ [FreeList (mDataPtrHandle occlRay)] else tls3)
           in
           Inr (results3, numFilled3, tls4 @ [ReleaseDeepData (mDeepDataHandle occlRay)])))"

fun computeXPUOcclusionQueriesOnGPU_loop ::
  "Env \<Rightarrow> 8 word list \<Rightarrow> nat \<Rightarrow> BundledOcclRay list \<Rightarrow> OcclState \<Rightarrow> error + OcclState" where
  "computeXPUOcclusionQueriesOnGPU_loop env isOccludedBuf i [] st = Inr st"
| "computeXPUOcclusionQueriesOnGPU_loop env isOccludedBuf i (occlRay # rays) st =
    (case computeXPUOcclusionQueriesOnGPU_body env isOccludedBuf i occlRay st of
       Inl e \<Rightarrow> Inl e
     | Inr st1 \<Rightarrow> computeXPUOcclusionQueriesOnGPU_loop env isOccludedBuf (i + 1) rays st1)"

definition computeXPUOcclusionQueriesOnGPU ::
  "Env \<Rightarrow> BundledOcclRay list \<Rightarrow> GPURay list \<Rightarrow> BundledRadiance list \<Rightarrow> Event list
     \<Rightarrow> error + (nat \<times> BundledRadiance list \<times> Event list)" where
  "computeXPUOcclusionQueriesOnGPU env rays gpuRays results tls0 =
    (let numRays = length rays;
         tls = tls0 @ [AddToCounter STATS_OCCLUSION_RAYS numRays,
                       AddToCounter STATS_BUNDLED_OCCLUSION_RAYS numRays,
                       AddToCounter STATS_BUNDLED_GPU_OCCLUSION_RAYS numRays,
                       ThreadsUsingGPUIncr, GpuOccluded gpuRays rays, ThreadsUsingGPUDecr];
         isOccludedBuf = gpuOutputOcclusionBuf env gpuRays rays
     in
     case computeXPUOcclusionQueriesOnGPU_loop env isOccludedBuf 0 rays (results, 0, tls) of
       Inl e \<Rightarrow> Inl e
     | Inr (results1, numRadiancesFilled, tls1) \<Rightarrow> Inr (numRadiancesFilled, results1, tls1))"

definition xpuOcclusionQueryBundleHandler ::
  "Env \<Rightarrow> BundledOcclRay list \<Rightarrow> GPURay list \<Rightarrow> Event list \<Rightarrow> error + Event list" where
  "xpuOcclusionQueryBundleHandler env rays gpuRays tls =
    (let numRays = length rays;
         results = allocArray (arenaRadiance env) numRays
     in
     case computeXPUOcclusionQueriesOnGPU env rays gpuRays results tls of
       Inl e \<Rightarrow> Inl e
     | Inr (numRadiancesFilled, results1, tls1) \<Rightarrow>
         if \<not> numRadiancesFilled \<le> numRays then Inl AssertionFailed
         else if occlCanceled env then Inr tls1
         else Inr (tls1 @ [AddRadianceQueueEntries (take numRadiancesFilled results1)]))"

section \<open>The ray bundle handler\<close>

definition RAY_HANDLER_STD_SORT_CUTOFF :: nat where
  "RAY_HANDLER_STD_SORT_CUTOFF = 200"

text \<open>
  Modelled from the spec: \<^verbatim>\<open>scene_rdl2::util::smartSort32\<close> is not among the source files.
  The spec describes it as a bucket sort over the keys \<open>0 .. maxSortKey\<close> when the number
  of entries is below the cutoff, and a comparison sort otherwise, both ascending by key.
  The bucket sort collects, for each key in turn, the entries that carry it; the
  comparison sort is insertion sort on the key.
\<close>

definition bucketSort32 :: "nat \<Rightarrow> SortedEntry list \<Rightarrow> SortedEntry list" where
  "bucketSort32 maxKey entries =
     concat (map (\<lambda>k. filter (\<lambda>e. unat (mSortKey e) = k) entries) [0..<Suc maxKey])"

definition comparisonSort32 :: "SortedEntry list \<Rightarrow> SortedEntry list" where
  "comparisonSort32 entries = sort_key mSortKey entries"

definition smartSort32 :: "nat \<Rightarrow> SortedEntry list \<Rightarrow> 32 word \<Rightarrow> SortedEntry list" where
  "smartSort32 cutoff entries maxSortKey =
     (if length entries < cutoff then bucketSort32 (unat maxSortKey) entries
      else comparisonSort32 entries)"

text \<open>
  The state of \<^verbatim>\<open>rayBundleHandler\<close> after the volume pass: the two arrays taken from the
  arena with their fill counts, the largest sort key seen, the array of radiances of the
  miss run, and the trace.
\<close>

record HandlerState =
  sortedEntries :: "SortedEntry list"
  numSortedEntries :: nat
  maxSortKey :: "32 word"
  rayStatesToFree :: "nat list"
  numRayStatesToFree :: nat
  radiances :: "BundledRadiance list"
  hTls :: "Event list"

type_synonym Pool = "nat \<Rightarrow> RayState"

text \<open>The intersection loop and the volume loop; both update the ray states in the pool.\<close>

fun intersect_loop :: "Env \<Rightarrow> nat list \<Rightarrow> Pool \<times> Event list \<Rightarrow> error + (Pool \<times> Event list)" where
  "intersect_loop env [] st = Inr st"
| "intersect_loop env (rs # rayStates) st =
    (case st of (pool, tls) \<Rightarrow>
      if \<not> isValidRayState env (pool rs) then Inl AssertionFailed
      else intersect_loop env rayStates
             (pool(rs := (pool rs)\<lparr>mRay := intersect env (mRay (pool rs))\<rparr>),
              tls @ [AccelIntersect rs]))"

definition volume_body :: "Env \<Rightarrow> nat \<Rightarrow> Pool \<times> Event list \<Rightarrow> Pool \<times> Event list" where
  "volume_body env p st =
    (case st of (pool, tls) \<Rightarrow>
      let rs = pool p;
          pv = mPathVertex rs;
          lobeType1 = (if nonMirrorDepth pv = 0 then 0 else lobeType pv);
          rs1 = rs\<lparr>mVolRad := sBlack\<rparr>;
          (volHit, volRad, vt, volumeSurfaceT) = computeRadianceVolume env rs1 lobeType1;
          rs2 = rs1\<lparr>mVolRad := volRad, mVolTr := mTransmittanceE vt,
                    mVolTh := mTransmittanceH vt, mVolTalpha := mTransmittanceAlpha vt,
                    mVolTm := mTransmittanceMin vt, mVolHit := volHit,
                    mVolumeSurfaceT := volumeSurfaceT\<rparr>
      in (pool(p := rs2), tls @ [ComputeRadianceVolume p]))"

fun volume_loop :: "Env \<Rightarrow> nat list \<Rightarrow> Pool \<times> Event list \<Rightarrow> Pool \<times> Event list" where
  "volume_loop env [] st = st"
| "volume_loop env (rs # rayStates) st = volume_loop env rayStates (volume_body env rs st)"

text \<open>
  One iteration of the loop that builds the sort entries (\<open>p\<close> is \<^verbatim>\<open>rayStates[i]\<close>). The
  index stored in an entry is the pointer difference truncated to 32 bits.
\<close>

definition gather_body :: "Env \<Rightarrow> Pool \<Rightarrow> nat \<Rightarrow> HandlerState \<Rightarrow> error + HandlerState" where
  "gather_body env pool p st =
    (let rs = pool p; ray = mRay rs; pv = mPathVertex rs in
     if geomID ray = - 1 then
       (case storeAt (sortedEntries st) (numSortedEntries st)
               \<lparr>mSortKey = 0, mRsIdx = of_nat p, mMaterial = None\<rparr> of
          Inl e \<Rightarrow> Inl e
        | Inr sorted1 \<Rightarrow>
            Inr (st\<lparr>sortedEntries := sorted1,
                    numSortedEntries := numSortedEntries st + 1,
                    hTls := (if getDepth ray = 0 \<and> \<not> aovSchemaEmpty env then
                               hTls st @ [AovAccumVisibilityAttemptsBundled
                                            (getLightSampleCount env * getLightCount env)
                                            (mPixel (mSubpixel rs)) (rsDeepDataHandle rs)]
                             else hTls st)\<rparr>))
     else
       (case mPrimitive env (extUserData ray) of
          None \<Rightarrow> Inl AssertionFailed
        | Some prim \<Rightarrow>
            let rdl2Material = getIntersectionMaterial env prim ray in
            (case getShadingMaterial env rdl2Material of
               Some material0 \<Rightarrow>
                 let rdl2Material1 =
                       raySwitch env rdl2Material (lobeTypeToRayType env (lobeType pv))
                 in
                 (case getShadingMaterial env rdl2Material1 of
                    None \<Rightarrow> Inl NullDereference
                  | Some material \<Rightarrow>
                      if getMaterialId material = 0 then Inl AssertionFailed
                      else
                        (case storeAt (sortedEntries st) (numSortedEntries st)
                                \<lparr>mSortKey = getMaterialId material, mRsIdx = of_nat p,
                                 mMaterial = Some material\<rparr> of
                           Inl e \<Rightarrow> Inl e
                         | Inr sorted1 \<Rightarrow>
                             Inr (st\<lparr>sortedEntries := sorted1,
                                     maxSortKey := max (maxSortKey st) (getMaterialId material),
                                     numSortedEntries := numSortedEntries st + 1\<rparr>)))
             | None \<Rightarrow>
                 (case storeAt (rayStatesToFree st) (numRayStatesToFree st) p of
                    Inl e \<Rightarrow> Inl e
                  | Inr toFree1 \<Rightarrow>
                      let st1 = st\<lparr>rayStatesToFree := toFree1,
                                    numRayStatesToFree := numRayStatesToFree st + 1\<rparr>
                      in
                      if mVolHit rs then
                        let alpha = (if getDepth ray = 0 then
                                       pathPixelWeight (mPathVertex rs)
                                         * (1 - reduceTransparency env (mVolTalpha rs))
                                     else 0);
                            rad = \<lparr>brRadiance = RenderColor (colR (mVolRad rs))
                                     (colG (mVolRad rs)) (colB (mVolRad rs)) alpha,
                                   brPathPixelWeight = pathPixelWeight (mPathVertex rs),
                                   brPixel = mPixel (mSubpixel rs),
                                   brSubPixelIndex = mSubpixelIndex (mSubpixel rs),
                                   brDeepDataHandle = acquireDeepData env (rsDeepDataHandle rs),
                                   brCryptomatteDataHandle =
                                     acquireCryptomatteData env (rsCryptomatteDataHandle rs),
                                   brCryptoRefP = mCryptoRefP rs, brCryptoRefN = mCryptoRefN rs,
                                   brCryptoUV = mCryptoUV rs, brTilePass = mTilePass rs\<rparr>
                        in
                        Inr (st1\<lparr>hTls := hTls st @ [AcquireDeepData (rsDeepDataHandle rs),
                                     AcquireCryptomatteData (rsCryptomatteDataHandle rs),
                                     AddRadianceQueueEntries [rad]]\<rparr>)
                      else Inr st1))))"

fun gather_loop :: "Env \<Rightarrow> Pool \<Rightarrow> nat list \<Rightarrow> HandlerState \<Rightarrow> error + HandlerState" where
  "gather_loop env pool [] st = Inr st"
| "gather_loop env pool (rs # rayStates) st =
    (case gather_body env pool rs st of
       Inl e \<Rightarrow> Inl e
     | Inr st1 \<Rightarrow> gather_loop env pool rayStates st1)"

text \<open>
  \<^verbatim>\<open>while (spanEnd != endEntry && spanEnd->mSortKey == key) ++spanEnd;\<close> on offsets into
  the sorted array.
\<close>

function spanEndFrom :: "SortedEntry list \<Rightarrow> nat \<Rightarrow> 32 word \<Rightarrow> nat \<Rightarrow> error + nat" where
  "spanEndFrom a endEntry key spanEnd =
    (if spanEnd = endEntry then Inr spanEnd
     else if \<not> spanEnd < length a then Inl OutOfBounds
     else if mSortKey (a ! spanEnd) = key then spanEndFrom a endEntry key (spanEnd + 1)
     else Inr spanEnd)"
  by pat_completeness auto
termination
  by (relation "measure (\<lambda>(a, endEntry, key, spanEnd). length a - spanEnd)") auto

text \<open>
  One iteration of the loop over the miss run, at index \<open>i\<close> of the sorted array. The
  source declares \<^verbatim>\<open>hitLight\<close> twice: once before the \<^verbatim>\<open>if (depth == 0)\<close> block,
  initialised to \<^verbatim>\<open>nullptr\<close> and never assigned, and once inside the block, where the
  result of \<^verbatim>\<open>intersectVisibleLight\<close> is stored. The AOV part after the block reads the
  outer variable. In the same way \<^verbatim>\<open>lpeStateId\<close> is declared before the AOV branches
  (initialised to \<open>-1\<close>) and again inside the \<^verbatim>\<open>if (hitLight)\<close> branch, which assigns
  the inner one. The model keeps the four variables apart: \<open>hitLight\<close>, \<open>hitLightInner\<close>,
  \<open>lpeStateIdOuter\<close>, \<open>lpeStateIdInner\<close>.
\<close>

definition miss_body :: "Env \<Rightarrow> Pool \<Rightarrow> SortedEntry list \<Rightarrow> nat \<Rightarrow> HandlerState
    \<Rightarrow> error + HandlerState" where
  "miss_body env pool a i st =
    (case loadAt a i of
       Inl e \<Rightarrow> Inl e
     | Inr entry \<Rightarrow>
        let p = unat (mRsIdx entry);
            rs = pool p;
            ray = mRay rs;
            pv = mPathVertex rs;
            hitLight = (None :: Light option);
            (radiance1, alpha, tls1) =
              (if getDepth ray = 0 then
                 let (hitLightInner, hitLightIsect, numHits) =
                       intersectVisibleLight env ray (mSubpixel rs);
                     tlsA = hTls st @ [IntersectVisibleLight p]
                 in
                 (case hitLightInner of
                    Some light \<Rightarrow>
                      let radianceA = cscaleR (cmul (pathThroughput pv)
                                                 (lightEval env light ray hitLightIsect))
                                        (real_of_int numHits);
                          radianceB = (if mVolHit rs
                                       then cmul radianceA (cmul (mVolTr rs) (mVolTh rs))
                                       else radianceA)
                      in
                      (radianceB,
                       if getIsOpaqueInAlpha light then pathPixelWeight pv
                       else if mVolHit rs then
                         pathPixelWeight pv * (1 - reduceTransparency env (mVolTalpha rs))
                       else 0,
                       tlsA @ [LightEval light p])
                  | None \<Rightarrow>
                      if mVolHit rs then
                        (sBlack,
                         pathPixelWeight pv * (1 - reduceTransparency env (mVolTalpha rs)),
                         tlsA)
                      else (sBlack, 0, tlsA))
               else (sBlack, 0, hTls st));
            radiance = cadd radiance1 (mVolRad rs);
            rad = \<lparr>brRadiance = RenderColor (colR radiance) (colG radiance) (colB radiance) alpha,
                   brPathPixelWeight = pathPixelWeight pv,
                   brPixel = mPixel (mSubpixel rs),
                   brSubPixelIndex = mSubpixelIndex (mSubpixel rs),
                   brDeepDataHandle = acquireDeepData env (rsDeepDataHandle rs),
                   brCryptomatteDataHandle =
                     acquireCryptomatteData env (rsCryptomatteDataHandle rs),
                   brCryptoRefP = mCryptoRefP rs, brCryptoRefN = mCryptoRefN rs,
                   brCryptoUV = mCryptoUV rs, brTilePass = mTilePass rs\<rparr>;
            tls2 = tls1 @ [AcquireDeepData (rsDeepDataHandle rs),
                           AcquireCryptomatteData (rsCryptomatteDataHandle rs)];
            tls3 =
              (if \<not> aovSchemaEmpty env then
                 let tlsB = tls2 @ [AovAccumBackgroundExtraAovsBundled p];
                     tlsC = (if getDepth ray = 0 \<and> mVolHit rs
                                \<and> mVolumeSurfaceT rs < sMaxValue env
                             then tlsB @ [AovSetStateVarsVolumeOnly p,
                                          AovAddToBundledQueueVolumeOnly p]
                             else tlsB);
                     lpeStateIdOuter = (- 1 :: int);
                     (lpeStateId1, tlsD) =
                       (if getDepth ray = 0 then
                          (case hitLight of
                             Some light \<Rightarrow>
                               let lpeStateIdInner = lpeStateId pv in
                               if lpeStateIdInner \<ge> 0 then
                                 (lpeStateIdOuter,
                                  tlsC @ [LightEventTransition lpeStateIdInner light])
                               else (lpeStateIdOuter, tlsC)
                           | None \<Rightarrow> (lpeStateIdOuter, tlsC))
                        else (lpeStateIdLight pv, tlsC))
                 in
                 if lpeStateId1 \<ge> 0 then
                   tlsD @ [AovAccumLightAovsBundled radiance sLpePrefixNone lpeStateId1
                             (brPixel rad) (brDeepDataHandle rad)]
                 else tlsD
               else tls2)
        in
        (case storeAt (radiances st) i rad of
           Inl e \<Rightarrow> Inl e
         | Inr radiances1 \<Rightarrow>
             (case storeAt (rayStatesToFree st) (numRayStatesToFree st) p of
                Inl e \<Rightarrow> Inl e
              | Inr toFree1 \<Rightarrow>
                  Inr (st\<lparr>radiances := radiances1, rayStatesToFree := toFree1,
                          numRayStatesToFree := numRayStatesToFree st + 1,
                          hTls := tls3\<rparr>))))"

fun miss_loop :: "Env \<Rightarrow> Pool \<Rightarrow> SortedEntry list \<Rightarrow> nat list \<Rightarrow> HandlerState
    \<Rightarrow> error + HandlerState" where
  "miss_loop env pool a [] st = Inr st"
| "miss_loop env pool a (i # is) st =
    (case miss_body env pool a i st of
       Inl e \<Rightarrow> Inl e
     | Inr st1 \<Rightarrow> miss_loop env pool a is st1)"

text \<open>The entries of one shade queue submission, for the offsets \<open>is\<close> of the sorted array.\<close>

fun shadeEntries :: "Pool \<Rightarrow> SortedEntry list \<Rightarrow> nat list \<Rightarrow> error + SortedRayState list" where
  "shadeEntries pool a [] = Inr []"
| "shadeEntries pool a (i # is) =
    (case loadAt a i of
       Inl e \<Rightarrow> Inl e
     | Inr entry \<Rightarrow>
         (case shadeEntries pool a is of
            Inl e \<Rightarrow> Inl e
          | Inr rest \<Rightarrow>
              let rsIdx = mRsIdx entry;
                  ray = mRay (pool (unat rsIdx))
              in
              Inr (\<lparr>srsRsIdx = rsIdx,
                    srsSortKey = push_bit 20 (geomID ray AND 0xfff) OR (primID ray AND 0xfffff)\<rparr>
                   # rest)))"

text \<open>
  The loop that routes the remaining entries to the shade queues; \<open>currEntry\<close> and
  \<open>endEntry\<close> are offsets into the sorted array.
\<close>

function shade_loop :: "Env \<Rightarrow> Pool \<Rightarrow> SortedEntry list \<Rightarrow> nat \<Rightarrow> nat \<Rightarrow> Event list
    \<Rightarrow> error + Event list" where
  "shade_loop env pool a endEntry currEntry tls =
    (if currEntry = endEntry then Inr tls
     else
       (case loadAt a currEntry of
          Inl e \<Rightarrow> Inl e
        | Inr cur \<Rightarrow>
            if mSortKey cur = 0 then Inl AssertionFailed
            else
              (case spanEndFrom a endEntry (mSortKey cur) (currEntry + 1) of
                 Inl e \<Rightarrow> Inl e
               | Inr spanEnd \<Rightarrow>
                   if spanEnd - currEntry = 0 then Inl AssertionFailed
                   else
                     (case shadeEntries pool a [currEntry..<currEntry + (spanEnd - currEntry)] of
                        Inl e \<Rightarrow> Inl e
                      | Inr entries \<Rightarrow>
                          (case mMaterial cur of
                             None \<Rightarrow> Inl NullDereference
                           | Some material \<Rightarrow>
                               (case getShadeQueue material of
                                  None \<Rightarrow> Inl AssertionFailed
                                | Some shadeQueue \<Rightarrow>
                                    if isCanceled env (AfterShadeSubmit currEntry)
                                    then Inr (tls @ [ShadeQueueAddEntries shadeQueue entries])
                                    else shade_loop env pool a endEntry spanEnd
                                           (tls @ [ShadeQueueAddEntries shadeQueue entries])))))))"
  by pat_completeness auto
termination
  by (relation "measure (\<lambda>(env, pool, a, endEntry, currEntry, tls). length a - currEntry)")
    (auto simp: loadAt_def split: if_splits)

text \<open>
  \<^verbatim>\<open>rayBundleHandler\<close>: \<open>rayStates\<close> is the array of ray state pointers, \<open>pool0\<close> the
  ray states, \<open>tls0\<close> the trace so far. The result is the pool and the trace when the
  handler returns. The array \<^verbatim>\<open>aovs\<close>, which the source takes from the arena as packing
  space for the two volume AOV calls of the miss run, is not part of the model: the two calls
  appear in the trace with the ray state they are made for.
\<close>

definition rayBundleHandler ::
  "Env \<Rightarrow> nat list \<Rightarrow> Pool \<Rightarrow> Event list \<Rightarrow> error + (Pool \<times> Event list)" where
  "rayBundleHandler env rayStates pool0 tls0 =
    (let numEntries = length rayStates in
     if numEntries = 0 then Inl AssertionFailed
     else
       (case intersect_loop env rayStates
               (pool0, tls0 @ [AddToCounter STATS_INTERSECTION_RAYS numEntries,
                               AddToCounter STATS_BUNDLED_INTERSECTION_RAYS numEntries]) of
          Inl e \<Rightarrow> Inl e
        | Inr st1 \<Rightarrow>
           (case volume_loop env rayStates st1 of (pool, tls2) \<Rightarrow>
            if isCanceled env AfterVolumes then Inr (pool, tls2)
            else
              let tls3 = (if mRequiresHeatMap env then tls2 @ [HeatMapBundledUpdate rayStates]
                          else tls2)
              in
              (case gather_loop env pool rayStates
                      \<lparr>sortedEntries = allocArray (arenaSortedEntry env) numEntries,
                       numSortedEntries = 0, maxSortKey = 0,
                       rayStatesToFree = allocArray (arenaRayStatePtr env) numEntries,
                       numRayStatesToFree = 0, radiances = [], hTls = tls3\<rparr> of
                 Inl e \<Rightarrow> Inl e
               | Inr g \<Rightarrow>
                  let n = numSortedEntries g;
                      a = smartSort32 RAY_HANDLER_STD_SORT_CUTOFF (take n (sortedEntries g))
                            (maxSortKey g)
                          @ drop n (sortedEntries g);
                      endEntry = n
                  in
                  (case loadAt a 0 of
                     Inl e \<Rightarrow> Inl e
                   | Inr entry0 \<Rightarrow>
                      let missRun =
                        (if mSortKey entry0 = 0 then
                           (case spanEndFrom a endEntry 0 1 of
                              Inl e \<Rightarrow> Inl e
                            | Inr spanEnd \<Rightarrow>
                                let numMisses = spanEnd in
                                if numMisses \<noteq> 0 then
                                  (case miss_loop env pool a [0..<numMisses]
                                          (g\<lparr>radiances :=
                                               allocArray (arenaRadiance env) numMisses\<rparr>) of
                                     Inl e \<Rightarrow> Inl e
                                   | Inr m \<Rightarrow>
                                       Inr (numMisses,
                                            m\<lparr>hTls := hTls m @
                                                 [AddRadianceQueueEntries
                                                    (take numMisses (radiances m))]\<rparr>,
                                            isCanceled env AfterMisses))
                                else Inr (numMisses, g, False))
                         else Inr (0, g, False))
                      in
                      (case missRun of
                         Inl e \<Rightarrow> Inl e
                       | Inr (numMisses, m, canceled) \<Rightarrow>
                           if canceled then Inr (pool, hTls m)
                           else if \<not> numRayStatesToFree m \<le> numEntries then Inl AssertionFailed
                           else
                             (case shade_loop env pool a endEntry numMisses
                                     (hTls m @ [FreeRayStates
                                        (take (numRayStatesToFree m) (rayStatesToFree m))]) of
                                Inl e \<Rightarrow> Inl e
                              | Inr tls5 \<Rightarrow> Inr (pool, tls5))))))))"

section \<open>What each resolver does with one ray\<close>

text \<open>
  The functions of this section are not part of the program. They name, for one ray, the
  radiance a resolver stores and the calls it makes, so that the loops of the resolvers
  can be described as a whole: \<open>writeSeq a k vs\<close> is the array \<open>a\<close> after the values
  \<open>vs\<close> have been stored from offset \<open>k\<close> on, and \<open>partitioned pred a k\<close> says that exactly
  the first \<open>k\<close> elements of \<open>a\<close> satisfy \<open>pred\<close>.
\<close>

definition presenceOf :: "Env \<Rightarrow> BundledOcclRay \<Rightarrow> real" where
  "presenceOf env r =
     accumulateRayPresence env (mLight (getListItem env (mDataPtrHandle r) 0))
       (mOrigin r, mDir r, mMinT r, mMaxT r, mTime r, mDepth r)
       (mRayEpsilon (getListItem env (mDataPtrHandle r) 0)) (mMaxPresenceDepth env) 0"

definition attenuate :: "Env \<Rightarrow> BundledOcclRay \<Rightarrow> BundledOcclRay" where
  "attenuate env r = r\<lparr>mRadiance := cmul (mRadiance r) (getTransmittance env r)\<rparr>"

definition presenceRadiance :: "Env \<Rightarrow> BundledOcclRay \<Rightarrow> BundledRadiance" where
  "presenceRadiance env r =
     (if isEqual env (presenceOf env r) 0 \<or> \<not> getEnableShadowing env
      then fillBundledRadiance env (attenuate env r)
      else (fillBundledRadiance env (attenuate env r))
             \<lparr>brRadiance := scaleRGB (brRadiance (fillBundledRadiance env (attenuate env r)))
                              (1 - presenceOf env r)\<rparr>)"

definition presenceEvents :: "Env \<Rightarrow> BundledOcclRay \<Rightarrow> Event list" where
  "presenceEvents env r =
     [AccumulateRayPresence (mLight (getListItem env (mDataPtrHandle r) 0))
        (mOrigin r, mDir r, mMinT r, mMaxT r, mTime r, mDepth r),
      AccumLightAovs (attenuate env r) (getNumListItems env (mDataPtrHandle r)) sWhite
        (Some (cscale (1 - presenceOf env r) (getTransmittance env r))) sLpePrefixUnoccluded,
      AccumVisibilityAovs (attenuate env r) (getNumListItems env (mDataPtrHandle r))
        (reduceTransparency env (cscale (1 - presenceOf env r) (getTransmittance env r))),
      FreeList (mDataPtrHandle r),
      ReleaseCryptomatteData (mCryptomatteDataHandle r)]"

definition writeSeq :: "'a list \<Rightarrow> nat \<Rightarrow> 'a list \<Rightarrow> 'a list" where
  "writeSeq a k vs = take k a @ vs @ drop (k + length vs) a"

definition rtRayOf :: "Env \<Rightarrow> BundledOcclRay \<Rightarrow> OcclusionTestRay" where
  "rtRayOf env r =
     \<lparr>rtOrg = mOrigin r, rtDir = mDir r, rtTnear = mMinT r, rtTfar = mMaxT r, rtTime = mTime r,
      rtMask = SHADOW env, rtGeomID = RT_INVALID_RAY_ID env,
      rtInstance0OrLight = getRdlLight (mLight (getListItem env (mDataPtrHandle r) 0)),
      rtShadowReceiverId = mShadowReceiverId r, rtVolumeInstanceState = 0\<rparr>"

definition lightOf :: "Env \<Rightarrow> BundledOcclRay \<Rightarrow> Light" where
  "lightOf env r = mLight (getListItem env (mDataPtrHandle r) 0)"

definition falloffApplies :: "Env \<Rightarrow> BundledOcclRay \<Rightarrow> bool" where
  "falloffApplies env r =
     (getClearRadiusFalloffDistance (lightOf env r) \<noteq> 0 \<and>
      mMaxT r < roundToFloat env
                  (getClearRadius (lightOf env r) + getClearRadiusFalloffDistance (lightOf env r)))"

definition falloffRay :: "Env \<Rightarrow> BundledOcclRay \<Rightarrow> BundledOcclRay" where
  "falloffRay env r =
     r\<lparr>mRadiance := calculateShadowFalloff env (lightOf env r) (mMaxT r)
                       (cmul (getTransmittance env r) (mRadiance r))\<rparr>"

definition standardRadiance :: "Env \<Rightarrow> bool \<Rightarrow> BundledOcclRay \<Rightarrow> BundledRadiance list" where
  "standardRadiance env isOccluded r =
     (if \<not> isOccluded \<or> \<not> getEnableShadowing env then [fillBundledRadiance env (attenuate env r)]
      else if mDataPtrHandle r \<noteq> nullHandle env \<and> falloffApplies env r
      then [fillBundledRadiance env (falloffRay env r)]
      else [])"

definition standardAovEvents :: "Env \<Rightarrow> bool \<Rightarrow> BundledOcclRay \<Rightarrow> Event list" where
  "standardAovEvents env isOccluded r =
     (if mDataPtrHandle r = nullHandle env then []
      else if \<not> isOccluded \<or> \<not> getEnableShadowing env then
        [AccumLightAovs (attenuate env r) (getNumListItems env (mDataPtrHandle r)) sWhite
           (Some (getTransmittance env r)) sLpePrefixUnoccluded,
         AccumVisibilityAovs (attenuate env r) (getNumListItems env (mDataPtrHandle r))
           (reduceTransparency env (getTransmittance env r))]
      else
        AccumVisibilityAovsOccluded (if falloffApplies env r then falloffRay env r else r)
          (getNumListItems env (mDataPtrHandle r))
        # (if hasLpePrefixFlags env sLpePrefixUnoccluded then
             [AccumLightAovs (if falloffApplies env r then falloffRay env r else r)
                (getNumListItems env (mDataPtrHandle r)) sWhite None sLpePrefixUnoccluded]
           else []))"

definition forcedAovEvents :: "Env \<Rightarrow> BundledOcclRay \<Rightarrow> Event list" where
  "forcedAovEvents env r =
     (if mDataPtrHandle r = nullHandle env then []
      else [AccumLightAovs (attenuate env r) (getNumListItems env (mDataPtrHandle r))
              (getTransmittance env r) None sLpePrefixNone])"

definition freeListEvents :: "Env \<Rightarrow> BundledOcclRay \<Rightarrow> Event list" where
  "freeListEvents env r =
     (if mDataPtrHandle r = nullHandle env then [] else [FreeList (mDataPtrHandle r)])"

definition cpuStandardEvents :: "Env \<Rightarrow> BundledOcclRay \<Rightarrow> Event list" where
  "cpuStandardEvents env r =
     AccelOccluded (rtRayOf env r)
     # standardAovEvents env (occluded env (rtRayOf env r)) r
     @ freeListEvents env r
     @ [ReleaseDeepData (mDeepDataHandle r), ReleaseCryptomatteData (mCryptomatteDataHandle r)]"

definition cpuForcedEvents :: "Env \<Rightarrow> BundledOcclRay \<Rightarrow> Event list" where
  "cpuForcedEvents env r =
     forcedAovEvents env r @ freeListEvents env r
     @ [ReleaseDeepData (mDeepDataHandle r), ReleaseCryptomatteData (mCryptomatteDataHandle r)]"

definition gpuRadiance :: "Env \<Rightarrow> bool \<Rightarrow> BundledOcclRay \<Rightarrow> BundledRadiance list" where
  "gpuRadiance env isOccluded r =
     (if mOcclTestType r = FORCE_NOT_OCCLUDED then [fillBundledRadiance env (attenuate env r)]
      else standardRadiance env isOccluded r)"

definition gpuEvents :: "Env \<Rightarrow> bool \<Rightarrow> BundledOcclRay \<Rightarrow> Event list" where
  "gpuEvents env isOccluded r =
     (if mOcclTestType r = FORCE_NOT_OCCLUDED then forcedAovEvents env r
      else standardAovEvents env isOccluded r)
     @ freeListEvents env r @ [ReleaseDeepData (mDeepDataHandle r)]"

definition cpuRadiance :: "Env \<Rightarrow> BundledOcclRay \<Rightarrow> BundledRadiance list" where
  "cpuRadiance env r = standardRadiance env (occluded env (rtRayOf env r)) r"

definition partitioned :: "('a \<Rightarrow> bool) \<Rightarrow> 'a list \<Rightarrow> nat \<Rightarrow> bool" where
  "partitioned pred a k =
     (k \<le> length a \<and> list_all pred (take k a) \<and> list_all (\<lambda>x. \<not> pred x) (drop k a))"

definition gpuAnswers :: "Env \<Rightarrow> GPURay list \<Rightarrow> BundledOcclRay list \<Rightarrow> (bool \<times> BundledOcclRay) list" where
  "gpuAnswers env gpuRays rays =
     map (\<lambda>(j, r). (gpuOutputOcclusionBuf env gpuRays rays ! j \<noteq> 0, r)) (enumerate 0 rays)"

section \<open>Concrete inputs\<close>

text \<open>
  A small scene used for the concrete evaluations below: one light with a clear radius of
  \<open>1\<close> and a falloff distance of \<open>2\<close>, an accelerator that reports every shadow ray
  occluded, unit transmittance, a presence of \<open>2/5\<close>, and a \<^verbatim>\<open>fillBundledRadiance\<close> that
  copies the ray's radiance and handles. A primitive \<open>u\<close> carries the material with id
  \<open>u\<close>; primitive \<open>0\<close> has no material assigned. Fresh arena memory is zero-filled,
  and every sum is stored exactly.
\<close>

definition exLight :: Light where
  "exLight = \<lparr>getRdlLight = 7, getClearRadius = 1, getClearRadiusFalloffDistance = 2,
              getIsOpaqueInAlpha = False\<rparr>"

definition exRadiance :: BundledRadiance where
  "exRadiance = \<lparr>brRadiance = RenderColor 0 0 0 0, brPathPixelWeight = 0, brPixel = 0,
                 brSubPixelIndex = 0, brDeepDataHandle = 0, brCryptomatteDataHandle = 0,
                 brCryptoRefP = (0, 0, 0), brCryptoRefN = (0, 0, 0), brCryptoUV = (0, 0),
                 brTilePass = 0\<rparr>"

definition exEnv :: Env where
  "exEnv = \<lparr>nullHandle = - 1, SHADOW = 1, RT_INVALID_RAY_ID = - 1, sMaxValue = 1000000,
     isValid = (\<lambda>r. True), getEnableShadowing = True, occluded = (\<lambda>r. True),
     gpuOutputOcclusionBuf = (\<lambda>g rays. map (\<lambda>r. 1) rays),
     getListItem = (\<lambda>h i. \<lparr>mLight = exLight, mRayEpsilon = 0\<rparr>),
     getNumListItems = (\<lambda>h. 1), getTransmittance = (\<lambda>r. sWhite),
     fillBundledRadiance = (\<lambda>r. exRadiance\<lparr>brRadiance :=
        RenderColor (colR (mRadiance r)) (colG (mRadiance r)) (colB (mRadiance r)) 0,
        brDeepDataHandle := mDeepDataHandle r,
        brCryptomatteDataHandle := mCryptomatteDataHandle r\<rparr>),
     calculateShadowFalloff = (\<lambda>l d c. cscale (1 / 2) c),
     reduceTransparency = (\<lambda>c. (colR c + colG c + colB c) / 3),
     hasLpePrefixFlags = (\<lambda>f. False),
     accumulateRayPresence = (\<lambda>l s eps d p. 2 / 5), mMaxPresenceDepth = 8,
     isEqual = (\<lambda>a b. a = b), occlCanceled = False, arenaRadiance = (\<lambda>i. exRadiance),
     isValidRayState = (\<lambda>rs. True), intersect = (\<lambda>r. r),
     computeRadianceVolume = (\<lambda>rs l. (False, sBlack,
        \<lparr>mTransmittanceE = sWhite, mTransmittanceH = sWhite, mTransmittanceAlpha = sWhite,
         mTransmittanceMin = sWhite\<rparr>, 1000000)),
     mRequiresHeatMap = False, aovSchemaEmpty = False, getLightSampleCount = 1,
     getLightCount = 1, mPrimitive = (\<lambda>u. Some u), getIntersectionMaterial = (\<lambda>p r. p),
     getShadingMaterial = (\<lambda>m. if m = 0 then None
        else Some \<lparr>getMaterialId = of_nat m, getShadeQueue = Some m\<rparr>),
     lobeTypeToRayType = (\<lambda>t. t), raySwitch = (\<lambda>m t. m), acquireDeepData = (\<lambda>h. h),
     acquireCryptomatteData = (\<lambda>h. h),
     intersectVisibleLight = (\<lambda>r sp. (Some exLight, 0, 1)), lightEval = (\<lambda>l r i. sWhite),
     lightEventTransition = (\<lambda>s l. s + 1), isCanceled = (\<lambda>c. False),
     arenaSortedEntry = (\<lambda>i. \<lparr>mSortKey = 0, mRsIdx = 0, mMaterial = None\<rparr>),
     arenaRayStatePtr = (\<lambda>i. 0), roundToFloat = (\<lambda>x. x)\<rparr>"

definition exOcclRay :: BundledOcclRay where
  "exOcclRay = \<lparr>mOrigin = (0, 0, 0), mDir = (0, 0, 1), mMinT = 0, mMaxT = 10, mTime = 0,
     mDepth = 1, mRadiance = Color 1 2 3, mOcclTestType = STANDARD, mDataPtrHandle = 5,
     mDeepDataHandle = 6, mCryptomatteDataHandle = 7, mShadowReceiverId = 0\<rparr>"

text \<open>
  A primary ray (depth \<open>0\<close>) that hit nothing, with light path state \<open>0\<close>; \<open>exHit u\<close> is
  the same ray state after it hit geometry \<open>4\<close> on primitive \<open>u\<close>.
\<close>

definition exRayState :: RayState where
  "exRayState = \<lparr>mRay = \<lparr>geomID = - 1, primID = 0, getDepth = 0, getOrigin = (0, 0, 0),
        getDirection = (0, 0, 1), getTime = 0, extUserData = 0\<rparr>,
     mPathVertex = \<lparr>pathThroughput = sWhite, pathPixelWeight = 1, lpeStateId = 0,
        lpeStateIdLight = 0, nonMirrorDepth = 0, lobeType = 0\<rparr>,
     mSubpixel = \<lparr>mPixel = 0, mSubpixelIndex = 0\<rparr>, mSequenceID = 0, mVolRad = sBlack,
     mVolTr = sWhite, mVolTh = sWhite, mVolTalpha = sWhite, mVolTm = sWhite, mVolHit = False,
     mVolumeSurfaceT = 0, rsDeepDataHandle = 0, rsCryptomatteDataHandle = 0,
     mCryptoRefP = (0, 0, 0), mCryptoRefN = (0, 0, 0), mCryptoUV = (0, 0), mTilePass = 0\<rparr>"

definition exHit :: "nat \<Rightarrow> RayState" where
  "exHit u = exRayState\<lparr>mRay := (mRay exRayState)\<lparr>geomID := 4, extUserData := u\<rparr>\<rparr>"

definition traceOf :: "error + (Pool \<times> Event list) \<Rightarrow> error + Event list" where
  \<comment> \<open>the trace of a run of \<open>rayBundleHandler\<close>\<close>
  "traceOf r = map_sum id snd r"

definition rgbOf :: "RenderColor \<Rightarrow> Color" where
  "rgbOf c = Color (rcR c) (rcG c) (rcB c)"

definition isAccelOccluded :: "Event \<Rightarrow> bool" where
  "isAccelOccluded e = (case e of AccelOccluded ray \<Rightarrow> True | _ \<Rightarrow> False)"

definition isOccludedVisibilityEvent :: "Event \<Rightarrow> bool" where
  "isOccludedVisibilityEvent e = (case e of AccumVisibilityAovsOccluded r n \<Rightarrow> True | _ \<Rightarrow> False)"

definition isAovEvent :: "Event \<Rightarrow> bool" where
  "isAovEvent e =
     (case e of AccumLightAovs r n c d f \<Rightarrow> True | AccumVisibilityAovs r n v \<Rightarrow> True
      | AccumVisibilityAovsOccluded r n \<Rightarrow> True | _ \<Rightarrow> False)"

definition isReleaseEvent :: "Event \<Rightarrow> bool" where
  "isReleaseEvent e =
     (case e of FreeList h \<Rightarrow> True | ReleaseDeepData h \<Rightarrow> True
      | ReleaseCryptomatteData h \<Rightarrow> True | _ \<Rightarrow> False)"

definition exForced :: "int \<Rightarrow> BundledOcclRay" where
  "exForced d = exOcclRay\<lparr>mOcclTestType := FORCE_NOT_OCCLUDED, mDepth := d\<rparr>"

definition isCryptomatteRelease :: "Event \<Rightarrow> bool" where
  "isCryptomatteRelease e = (case e of ReleaseCryptomatteData h \<Rightarrow> True | _ \<Rightarrow> False)"

definition missLightRadiance :: "Env \<Rightarrow> RayState \<Rightarrow> Color" where
  "missLightRadiance env rs =
     (case intersectVisibleLight env (mRay rs) (mSubpixel rs) of
        (Some light, hitLightIsect, numHits) \<Rightarrow>
          let radiance = cscaleR (cmul (pathThroughput (mPathVertex rs))
                                    (lightEval env light (mRay rs) hitLightIsect))
                           (real_of_int numHits)
          in if mVolHit rs then cmul radiance (cmul (mVolTr rs) (mVolTh rs)) else radiance
      | (None, hitLightIsect, numHits) \<Rightarrow> sBlack)"

definition missLight :: "Env \<Rightarrow> RayState \<Rightarrow> Light option" where
  "missLight env rs = fst (intersectVisibleLight env (mRay rs) (mSubpixel rs))"

definition volumeAlpha :: "Env \<Rightarrow> RayState \<Rightarrow> real" where
  "volumeAlpha env rs =
     pathPixelWeight (mPathVertex rs) * (1 - reduceTransparency env (mVolTalpha rs))"

definition emittedRadiances :: "Event list \<Rightarrow> BundledRadiance list" where
  "emittedRadiances t =
     concat (map (\<lambda>e. case e of AddRadianceQueueEntries rads \<Rightarrow> rads | _ \<Rightarrow> []) t)"

definition exMissEntry :: SortedEntry where
  "exMissEntry = \<lparr>mSortKey = 0, mRsIdx = 3, mMaterial = None\<rparr>"

definition exHandlerState :: HandlerState where
  "exHandlerState = \<lparr>sortedEntries = [exMissEntry], numSortedEntries = 1, maxSortKey = 0,
     rayStatesToFree = [0], numRayStatesToFree = 0, radiances = [exRadiance], hTls = []\<rparr>"

definition exVolumeEnv :: Env where
  "exVolumeEnv = exEnv\<lparr>computeRadianceVolume := (\<lambda>rs l. (True, Color 1 1 1,
      \<lparr>mTransmittanceE = sWhite, mTransmittanceH = sWhite, mTransmittanceAlpha = sBlack,
       mTransmittanceMin = sWhite\<rparr>, 5))\<rparr>"

definition entryOfRays :: "Pool \<Rightarrow> nat list \<Rightarrow> SortedEntry \<Rightarrow> bool" where
  "entryOfRays pool ps e =
     (\<exists>p\<in>set ps. mRsIdx e = of_nat p \<and>
        (if geomID (mRay (pool p)) = - 1 then mSortKey e = 0 \<and> mMaterial e = None
         else 1 \<le> mSortKey e \<and> mMaterial e \<noteq> None))"

definition gathered :: "Pool \<Rightarrow> nat list \<Rightarrow> HandlerState \<Rightarrow> bool" where
  "gathered pool ps st =
     (numSortedEntries st \<le> length (sortedEntries st) \<and>
      (\<forall>e\<in>set (take (numSortedEntries st) (sortedEntries st)).
         mSortKey e \<le> maxSortKey st \<and> entryOfRays pool ps e))"

definition exPool :: Pool where
  "exPool p = (if p = 4 then exRayState else exHit p)"

definition isDeepDataRelease :: "Event \<Rightarrow> bool" where
  "isDeepDataRelease e = (case e of ReleaseDeepData h \<Rightarrow> True | _ \<Rightarrow> False)"

definition isLightPathEvent :: "Event \<Rightarrow> bool" where
  "isLightPathEvent e =
     (case e of LightEventTransition s l \<Rightarrow> True
      | AovAccumLightAovsBundled c f s px h \<Rightarrow> True | _ \<Rightarrow> False)"

definition freedOf :: "Event list \<Rightarrow> nat list" where
  \<comment> \<open>the ray state pointers handed to \<^verbatim>\<open>freeRayStates\<close> in a trace, in order\<close>
  "freedOf t = concat (map (\<lambda>e. case e of FreeRayStates ps \<Rightarrow> ps | _ \<Rightarrow> []) t)"

definition forwardedOf :: "Event list \<Rightarrow> 32 word list" where
  \<comment> \<open>the ray state indices handed to the shade queues in a trace, in order\<close>
  "forwardedOf t =
     concat (map (\<lambda>e. case e of ShadeQueueAddEntries q es \<Rightarrow> map srsRsIdx es | _ \<Rightarrow> []) t)"

definition writesSortEntry :: "Env \<Rightarrow> RayState \<Rightarrow> bool" where
  \<comment> \<open>the ray missed, or it hit geometry that has a shading material: the gather loop
      writes a sort entry for it\<close>
  "writesSortEntry env rs =
     (geomID (mRay rs) = - 1 \<or>
      (case mPrimitive env (extUserData (mRay rs)) of
         None \<Rightarrow> False
       | Some prim \<Rightarrow>
           getShadingMaterial env (getIntersectionMaterial env prim (mRay rs)) \<noteq> None))"

text \<open>
  Further inputs: a machine on which \<open>2^24 + 1\<close> is stored as \<open>2^24\<close> (a \<^verbatim>\<open>float\<close> has 24
  bits of significand) with a light of clear radius \<open>2^24\<close> and falloff distance \<open>1\<close>; a
  scene whose visible light is opaque in alpha; a primary ray that traversed a volume
  (volume radiance \<open>(1,0,0)\<close>, alpha transmittance \<open>1/2\<close>) and the same ray at depth \<open>1\<close>;
  and a pool in which the ray state at \<open>p\<close> missed when \<open>p\<close> is a multiple of \<open>10\<close> and
  otherwise hit the primitive \<open>p mod 10\<close>.
\<close>

definition exRoundingEnv :: Env where
  "exRoundingEnv = exEnv\<lparr>
     getListItem := (\<lambda>h i. \<lparr>mLight = exLight\<lparr>getClearRadius := 16777216,
                                  getClearRadiusFalloffDistance := 1\<rparr>, mRayEpsilon = 0\<rparr>),
     roundToFloat := (\<lambda>x. if x = 16777217 then 16777216 else x)\<rparr>"

definition exOpaqueEnv :: Env where
  "exOpaqueEnv = exEnv\<lparr>intersectVisibleLight :=
     (\<lambda>r sp. (Some (exLight\<lparr>getIsOpaqueInAlpha := True\<rparr>), 0, 1))\<rparr>"

definition exVolumeRayState :: RayState where
  "exVolumeRayState = exRayState\<lparr>mVolRad := Color 1 0 0,
     mVolTalpha := Color (1 / 2) (1 / 2) (1 / 2), mVolHit := True\<rparr>"

definition exSecondaryRayState :: RayState where
  "exSecondaryRayState = exVolumeRayState\<lparr>mRay := (mRay exRayState)\<lparr>getDepth := 1\<rparr>\<rparr>"



text \<open>
  \<open>isLightLookup\<close> singles out the two calls that look up and evaluate a visible light;
  \<open>entryOfRay pool e p\<close> says that \<open>e\<close> is the sort entry of the ray state at \<open>p\<close>: it
  carries its index, key \<open>0\<close> and no material when the ray missed, and otherwise a
  material and that material's id, which is at least \<open>1\<close>.
\<close>

definition isLightLookup :: "Event \<Rightarrow> bool" where
  "isLightLookup e =
     (case e of IntersectVisibleLight p \<Rightarrow> True | LightEval l p \<Rightarrow> True | _ \<Rightarrow> False)"


section \<open>The resolvers, loop by loop\<close>

lemma writeSeq_Nil: "writeSeq a k [] = a"
  by (simp add: writeSeq_def)

lemma writeSeq_Cons: "k < length a \<Longrightarrow> writeSeq (a[k := v]) (Suc k) vs = writeSeq a k (v # vs)"
  by (simp add: writeSeq_def take_Suc_conv_app_nth)

lemma length_writeSeq: "k + length vs \<le> length a \<Longrightarrow> length (writeSeq a k vs) = length a"
  by (simp add: writeSeq_def)

lemma nth_writeSeq: "k + length vs \<le> length a \<Longrightarrow> i < length vs \<Longrightarrow> writeSeq a k vs ! (k + i) = vs ! i"
  by (simp add: writeSeq_def nth_append)

lemma take_writeSeq: "k + length vs \<le> length a \<Longrightarrow> take (k + length vs) (writeSeq a k vs) = take k a @ vs"
  by (simp add: writeSeq_def)

lemma presence_body_ok:
  assumes "isValid env r" "n < length results"
  shows "computePresenceShadowsQueriesBundled_body env r (results, n, tls) =
           Inr (results[n := presenceRadiance env r], Suc n, tls @ presenceEvents env r)"
  using assms
  by (simp add: computePresenceShadowsQueriesBundled_body_def storeAt_def Let_def
      presenceRadiance_def presenceEvents_def presenceOf_def attenuate_def)

lemma presence_loop_ok:
  assumes "\<forall>r\<in>set entries. isValid env r" "n + length entries \<le> length results"
  shows "computePresenceShadowsQueriesBundled_loop env entries (results, n, tls) =
           Inr (writeSeq results n (map (presenceRadiance env) entries), n + length entries,
                tls @ concat (map (presenceEvents env) entries))"
  using assms
proof (induction entries arbitrary: results n tls)
  case Nil
  then show ?case by (simp add: writeSeq_Nil)
next
  case (Cons r entries)
  have n: "n < length results" using Cons.prems by simp
  have v: "isValid env r" using Cons.prems by simp
  have ih: "computePresenceShadowsQueriesBundled_loop env entries
              (results[n := presenceRadiance env r], Suc n, tls @ presenceEvents env r) =
            Inr (writeSeq (results[n := presenceRadiance env r]) (Suc n)
                   (map (presenceRadiance env) entries), Suc n + length entries,
                 (tls @ presenceEvents env r) @ concat (map (presenceEvents env) entries))"
    using Cons.prems by (intro Cons.IH) auto
  show ?case
    by (simp add: presence_body_ok [OF v n] ih writeSeq_Cons [OF n])
qed

lemma writeSeq_one: "k < length a \<Longrightarrow> writeSeq a k [v] = a[k := v]"
  by (simp add: writeSeq_def upd_conv_take_nth_drop)

lemma cpu_standard_body_ok:
  assumes "isValid env r" "mOcclTestType r = STANDARD" "base + n < length results"
  shows "areSingleRaysOccluded_body env base r (results, n, tls) =
           Inr (writeSeq results (base + n) (standardRadiance env (occluded env (rtRayOf env r)) r),
                n + length (standardRadiance env (occluded env (rtRayOf env r)) r),
                tls @ cpuStandardEvents env r)"
  using assms
  by (simp add: areSingleRaysOccluded_body_def storeAt_def Let_def standardRadiance_def
      cpuStandardEvents_def standardAovEvents_def freeListEvents_def rtRayOf_def
      falloffApplies_def falloffRay_def lightOf_def attenuate_def writeSeq_one writeSeq_Nil)

lemma cpu_forced_body_ok:
  assumes "isValid env r" "mOcclTestType r = FORCE_NOT_OCCLUDED" "base + i < length results"
  shows "forceSingleRaysUnoccluded_body env base i r (results, tls) =
           Inr (results[base + i := fillBundledRadiance env (attenuate env r)],
                tls @ cpuForcedEvents env r)"
  using assms
  by (simp add: forceSingleRaysUnoccluded_body_def storeAt_def Let_def
      cpuForcedEvents_def forcedAovEvents_def freeListEvents_def attenuate_def)

lemma gpu_body_ok:
  assumes "i < length buf" "n < length results"
  shows "computeXPUOcclusionQueriesOnGPU_body env buf i r (results, n, tls) =
           Inr (writeSeq results n (gpuRadiance env (buf ! i \<noteq> 0) r),
                n + length (gpuRadiance env (buf ! i \<noteq> 0) r),
                tls @ gpuEvents env (buf ! i \<noteq> 0) r)"
  using assms
  by (cases "mOcclTestType r")
    (simp_all add: computeXPUOcclusionQueriesOnGPU_body_def storeAt_def loadAt_def Let_def
      standardRadiance_def gpuRadiance_def gpuEvents_def forcedAovEvents_def
      standardAovEvents_def freeListEvents_def
      falloffApplies_def falloffRay_def lightOf_def attenuate_def writeSeq_one writeSeq_Nil)

lemma length_standardRadiance: "length (standardRadiance env occ r) \<le> Suc 0"
  by (simp add: standardRadiance_def)

lemma length_gpuRadiance: "length (gpuRadiance env occ r) \<le> Suc 0"
  using length_standardRadiance [of env occ r] by (simp add: gpuRadiance_def)

lemma length_concat_le:
  assumes "\<And>x. x \<in> set xs \<Longrightarrow> length (f x) \<le> Suc 0"
  shows "length (concat (map f xs)) \<le> length xs"
  using assms
proof (induction xs)
  case Nil
  then show ?case by simp
next
  case (Cons x xs)
  have "length (f x) \<le> Suc 0" using Cons.prems by simp
  moreover have "length (concat (map f xs)) \<le> length xs" using Cons by simp
  ultimately show ?case by simp
qed

lemma writeSeq_append:
  assumes "k + length vs + length ws \<le> length a"
  shows "writeSeq (writeSeq a k vs) (k + length vs) ws = writeSeq a k (vs @ ws)"
proof -
  have t: "take (k + length vs) (take k a @ vs @ drop (k + length vs) a) = take k a @ vs"
    using assms by simp
  have d: "drop (k + length vs + length ws) (take k a @ vs @ drop (k + length vs) a)
             = drop (k + length vs + length ws) a"
    using assms by (simp add: ac_simps)
  show ?thesis
    unfolding writeSeq_def t d by (simp add: add.assoc)
qed

lemma cpu_standard_loop_ok:
  assumes "\<forall>r\<in>set entries. isValid env r \<and> mOcclTestType r = STANDARD"
    and "base + n + length entries \<le> length results"
  shows "areSingleRaysOccluded_loop env base entries (results, n, tls) =
           Inr (writeSeq results (base + n) (concat (map (cpuRadiance env) entries)),
                n + length (concat (map (cpuRadiance env) entries)),
                tls @ concat (map (cpuStandardEvents env) entries))"
  using assms
proof (induction entries arbitrary: results n tls)
  case Nil
  then show ?case by (simp add: writeSeq_Nil)
next
  case (Cons r entries)
  let ?vs = "cpuRadiance env r"
  let ?ws = "concat (map (cpuRadiance env) entries)"
  have v: "isValid env r" "mOcclTestType r = STANDARD" using Cons.prems by simp_all
  have n: "base + n < length results" using Cons.prems by simp
  have lv: "length ?vs \<le> Suc 0" by (simp add: cpuRadiance_def length_standardRadiance)
  have lw: "length ?ws \<le> length entries"
    by (rule length_concat_le) (simp add: cpuRadiance_def length_standardRadiance)
  have cap: "base + n + length ?vs + length ?ws \<le> length results"
    using Cons.prems(2) lv lw by simp
  have len: "length (writeSeq results (base + n) ?vs) = length results"
    using cap by (simp add: length_writeSeq)
  have body: "areSingleRaysOccluded_body env base r (results, n, tls) =
      Inr (writeSeq results (base + n) ?vs, n + length ?vs, tls @ cpuStandardEvents env r)"
    using cpu_standard_body_ok [OF v n] by (simp add: cpuRadiance_def)
  have ih: "areSingleRaysOccluded_loop env base entries
              (writeSeq results (base + n) ?vs, n + length ?vs, tls @ cpuStandardEvents env r) =
            Inr (writeSeq (writeSeq results (base + n) ?vs) (base + (n + length ?vs)) ?ws,
                 n + length ?vs + length ?ws,
                 (tls @ cpuStandardEvents env r) @ concat (map (cpuStandardEvents env) entries))"
    using Cons.prems lv len by (intro Cons.IH) auto
  have ws: "writeSeq (writeSeq results (base + n) ?vs) (base + (n + length ?vs)) ?ws
              = writeSeq results (base + n) (?vs @ ?ws)"
    using writeSeq_append [OF cap] by (simp add: add.assoc)
  show ?case
    by (simp add: body ih ws add.assoc)
qed

lemma cpu_forced_loop_ok:
  assumes "\<forall>r\<in>set entries. isValid env r \<and> mOcclTestType r = FORCE_NOT_OCCLUDED"
    and "base + i + length entries \<le> length results"
  shows "forceSingleRaysUnoccluded_loop env base i entries (results, tls) =
           Inr (writeSeq results (base + i)
                  (map (\<lambda>r. fillBundledRadiance env (attenuate env r)) entries),
                tls @ concat (map (cpuForcedEvents env) entries))"
  using assms
proof (induction entries arbitrary: results i tls)
  case Nil
  then show ?case by (simp add: writeSeq_Nil)
next
  case (Cons r entries)
  have v: "isValid env r" "mOcclTestType r = FORCE_NOT_OCCLUDED" using Cons.prems by simp_all
  have n: "base + i < length results" using Cons.prems by simp
  have ih: "forceSingleRaysUnoccluded_loop env base (Suc i) entries
              (results[base + i := fillBundledRadiance env (attenuate env r)],
               tls @ cpuForcedEvents env r) =
            Inr (writeSeq (results[base + i := fillBundledRadiance env (attenuate env r)])
                   (base + Suc i)
                   (map (\<lambda>r. fillBundledRadiance env (attenuate env r)) entries),
                 (tls @ cpuForcedEvents env r) @ concat (map (cpuForcedEvents env) entries))"
    using Cons.prems by (intro Cons.IH) auto
  show ?case
    by (simp add: cpu_forced_body_ok [OF v n] ih writeSeq_Cons [OF n])
qed

lemma gpu_loop_ok:
  assumes "i + length rays \<le> length buf" and "n + length rays \<le> length results"
  shows "computeXPUOcclusionQueriesOnGPU_loop env buf i rays (results, n, tls) =
           Inr (writeSeq results n
                  (concat (map (\<lambda>(j, r). gpuRadiance env (buf ! j \<noteq> 0) r) (enumerate i rays))),
                n + length (concat (map (\<lambda>(j, r). gpuRadiance env (buf ! j \<noteq> 0) r)
                                      (enumerate i rays))),
                tls @ concat (map (\<lambda>(j, r). gpuEvents env (buf ! j \<noteq> 0) r) (enumerate i rays)))"
  using assms
proof (induction rays arbitrary: results n tls i)
  case Nil
  then show ?case by (simp add: writeSeq_Nil)
next
  case (Cons r rays)
  let ?vs = "gpuRadiance env (buf ! i \<noteq> 0) r"
  let ?ws = "concat (map (\<lambda>(j, r). gpuRadiance env (buf ! j \<noteq> 0) r) (enumerate (Suc i) rays))"
  have i: "i < length buf" and n: "n < length results" using Cons.prems by simp_all
  have lv: "length ?vs \<le> Suc 0" by (rule length_gpuRadiance)
  have "length ?ws \<le> length (enumerate (Suc i) rays)"
    by (rule length_concat_le) (auto simp: length_gpuRadiance)
  then have lw: "length ?ws \<le> length rays" by simp
  have cap: "n + length ?vs + length ?ws \<le> length results"
    using Cons.prems(2) lv lw by simp
  have len: "length (writeSeq results n ?vs) = length results"
    using cap by (simp add: length_writeSeq)
  have ih: "computeXPUOcclusionQueriesOnGPU_loop env buf (Suc i) rays
              (writeSeq results n ?vs, n + length ?vs, tls @ gpuEvents env (buf ! i \<noteq> 0) r) =
            Inr (writeSeq (writeSeq results n ?vs) (n + length ?vs) ?ws,
                 n + length ?vs + length ?ws,
                 (tls @ gpuEvents env (buf ! i \<noteq> 0) r)
                 @ concat (map (\<lambda>(j, r). gpuEvents env (buf ! j \<noteq> 0) r) (enumerate (Suc i) rays)))"
    using Cons.prems lv len by (intro Cons.IH) auto
  show ?case
    by (simp add: gpu_body_ok [OF i n] ih writeSeq_append [OF cap] add.assoc)
qed

declare partition_forward.simps [simp del] partition_backward.simps [simp del]

lemma partitioned_iff:
  "partitioned pred a k \<longleftrightarrow>
     k \<le> length a \<and> (\<forall>i<k. pred (a ! i)) \<and> (\<forall>i. k \<le> i \<and> i < length a \<longrightarrow> \<not> pred (a ! i))"
proof -
  have t: "k \<le> length a \<Longrightarrow> list_all pred (take k a) \<longleftrightarrow> (\<forall>i<k. pred (a ! i))"
    by (auto simp: list_all_length)
  have d: "k \<le> length a \<Longrightarrow>
            list_all (\<lambda>x. \<not> pred x) (drop k a) \<longleftrightarrow> (\<forall>i. k \<le> i \<and> i < length a \<longrightarrow> \<not> pred (a ! i))"
  proof
    assume k: "k \<le> length a" and l: "list_all (\<lambda>x. \<not> pred x) (drop k a)"
    show "\<forall>i. k \<le> i \<and> i < length a \<longrightarrow> \<not> pred (a ! i)"
    proof (intro allI impI)
      fix i assume i: "k \<le> i \<and> i < length a"
      then have "i - k < length (drop k a)" by auto
      with l have "\<not> pred (drop k a ! (i - k))" by (simp add: list_all_length)
      with i k show "\<not> pred (a ! i)" by simp
    qed
  next
    assume k: "k \<le> length a" and l: "\<forall>i. k \<le> i \<and> i < length a \<longrightarrow> \<not> pred (a ! i)"
    show "list_all (\<lambda>x. \<not> pred x) (drop k a)"
      using k l by (auto simp: list_all_length)
  qed
  show ?thesis
    unfolding partitioned_def using t d by blast
qed

lemma partition_loops_correct:
  shows "firstI \<le> lastI \<Longrightarrow> lastI \<le> length a \<Longrightarrow> (\<forall>i<firstI. pred (a ! i)) \<Longrightarrow>
         (\<forall>i. lastI \<le> i \<and> i < length a \<longrightarrow> \<not> pred (a ! i)) \<Longrightarrow>
         mset (fst (partition_forward pred a firstI lastI)) = mset a \<and>
         partitioned pred (fst (partition_forward pred a firstI lastI))
           (snd (partition_forward pred a firstI lastI))"
    and "firstI \<le> lastI \<Longrightarrow> lastI < length a \<Longrightarrow> (\<forall>i<firstI. pred (a ! i)) \<Longrightarrow>
         \<not> pred (a ! firstI) \<Longrightarrow>
         (\<forall>i. lastI < i \<and> i < length a \<longrightarrow> \<not> pred (a ! i)) \<Longrightarrow>
         mset (fst (partition_backward pred a firstI lastI)) = mset a \<and>
         partitioned pred (fst (partition_backward pred a firstI lastI))
           (snd (partition_backward pred a firstI lastI))"
proof (induction pred a firstI lastI and pred a firstI lastI
    rule: partition_forward_partition_backward.induct)
  case (1 pred a firstI lastI)
  show ?case
  proof (cases "lastI \<le> firstI")
    case True
    then have eq: "firstI = lastI" using "1.prems" by simp
    have "partitioned pred a firstI"
      unfolding partitioned_iff using "1.prems" eq by auto
    then show ?thesis
      using True by (simp add: partition_forward.simps [of pred a firstI lastI])
  next
    case False
    show ?thesis
    proof (cases "pred (a ! firstI)")
      case True
      have "\<forall>i<firstI + 1. pred (a ! i)"
        using "1.prems"(3) True by (auto simp: less_Suc_eq)
      then have "mset (fst (partition_forward pred a (firstI + 1) lastI)) = mset a \<and>
         partitioned pred (fst (partition_forward pred a (firstI + 1) lastI))
           (snd (partition_forward pred a (firstI + 1) lastI))"
        using "1.IH"(1) [OF False True] False "1.prems" by simp
      then show ?thesis
        using False True by (simp add: partition_forward.simps [of pred a firstI lastI])
    next
      case np: False
      have "\<forall>i. lastI - 1 < i \<and> i < length a \<longrightarrow> \<not> pred (a ! i)"
        using "1.prems"(4) by auto
      then have "mset (fst (partition_backward pred a firstI (lastI - 1))) = mset a \<and>
         partitioned pred (fst (partition_backward pred a firstI (lastI - 1)))
           (snd (partition_backward pred a firstI (lastI - 1)))"
        using "1.IH"(2) [OF False np] False np "1.prems" by simp
      then show ?thesis
        using False np by (simp add: partition_forward.simps [of pred a firstI lastI])
    qed
  qed
next
  case (2 pred a firstI lastI)
  show ?case
  proof (cases "lastI \<le> firstI")
    case True
    then have eq: "firstI = lastI" using "2.prems" by simp
    have "partitioned pred a firstI"
      unfolding partitioned_iff
    proof (intro conjI allI impI)
      show "firstI \<le> length a" using "2.prems" by simp
    next
      fix i assume "i < firstI" then show "pred (a ! i)" using "2.prems" by simp
    next
      fix i assume i: "firstI \<le> i \<and> i < length a"
      show "\<not> pred (a ! i)"
      proof (cases "i = firstI")
        case True
        then show ?thesis using "2.prems"(4) by simp
      next
        case False
        then have "lastI < i" using i eq by simp
        then show ?thesis using "2.prems"(5) i by simp
      qed
    qed
    then show ?thesis
      using True by (simp add: partition_backward.simps [of pred a firstI lastI])
  next
    case False
    then have lt: "firstI < lastI" by simp
    show ?thesis
    proof (cases "pred (a ! lastI)")
      case np: False
      have "\<forall>i. lastI - 1 < i \<and> i < length a \<longrightarrow> \<not> pred (a ! i)"
      proof (intro allI impI)
        fix i assume i: "lastI - 1 < i \<and> i < length a"
        show "\<not> pred (a ! i)"
        proof (cases "i = lastI")
          case True
          then show ?thesis using np by simp
        next
          case False
          then have "lastI < i" using i by auto
          then show ?thesis using "2.prems"(5) i by simp
        qed
      qed
      then have "mset (fst (partition_backward pred a firstI (lastI - 1))) = mset a \<and>
         partitioned pred (fst (partition_backward pred a firstI (lastI - 1)))
           (snd (partition_backward pred a firstI (lastI - 1)))"
        using "2.IH"(1) False np lt "2.prems" by simp
      then show ?thesis
        using False np by (simp add: partition_backward.simps [of pred a firstI lastI])
    next
      case p: True
      let ?a = "a[firstI := a ! lastI, lastI := a ! firstI]"
      have len: "length ?a = length a" by simp
      have ms: "mset ?a = mset a"
        using mset_swap [of lastI a firstI] lt "2.prems"(2) by simp
      have pre: "\<forall>i<firstI + 1. pred (?a ! i)"
      proof (intro allI impI)
        fix i assume i: "i < firstI + 1"
        show "pred (?a ! i)"
        proof (cases "i = firstI")
          case True
          then show ?thesis using p lt "2.prems"(2) by simp
        next
          case False
          then have "i < firstI" using i by simp
          then show ?thesis using "2.prems"(3) lt by simp
        qed
      qed
      have post: "\<forall>i. lastI \<le> i \<and> i < length ?a \<longrightarrow> \<not> pred (?a ! i)"
      proof (intro allI impI)
        fix i assume i: "lastI \<le> i \<and> i < length ?a"
        show "\<not> pred (?a ! i)"
        proof (cases "i = lastI")
          case True
          then show ?thesis using "2.prems"(2,4) lt by simp
        next
          case False
          then have "lastI < i" using i by simp
          then show ?thesis using "2.prems"(5) i lt by simp
        qed
      qed
      have "mset (fst (partition_forward pred ?a (firstI + 1) lastI)) = mset ?a \<and>
         partitioned pred (fst (partition_forward pred ?a (firstI + 1) lastI))
           (snd (partition_forward pred ?a (firstI + 1) lastI))"
        using "2.IH"(2) False p lt "2.prems"(2) pre post by simp
      then show ?thesis
        using False p ms by (simp add: partition_backward.simps [of pred a firstI lastI])
    qed
  qed
qed

lemma std_partition_correct:
  "mset (fst (std_partition pred a)) = mset a \<and>
   partitioned pred (fst (std_partition pred a)) (snd (std_partition pred a))"
  unfolding std_partition_def
  by (rule partition_loops_correct(1)) auto

lemma areSingleRaysOccluded_ok:
  assumes "\<forall>r\<in>set entries. isValid env r \<and> mOcclTestType r = STANDARD"
    and "base + length entries \<le> length results"
  shows "areSingleRaysOccluded env entries base results tls =
           Inr (length (concat (map (cpuRadiance env) entries)),
                writeSeq results base (concat (map (cpuRadiance env) entries)),
                tls @ concat (map (cpuStandardEvents env) entries))"
  using cpu_standard_loop_ok [OF assms(1), of base 0 results tls] assms(2)
  by (simp add: areSingleRaysOccluded_def)

lemma forceSingleRaysUnoccluded_ok:
  assumes "\<forall>r\<in>set entries. isValid env r \<and> mOcclTestType r = FORCE_NOT_OCCLUDED"
    and "base + length entries \<le> length results"
  shows "forceSingleRaysUnoccluded env entries base results tls =
           Inr (length entries,
                writeSeq results base (map (\<lambda>r. fillBundledRadiance env (attenuate env r)) entries),
                tls @ concat (map (cpuForcedEvents env) entries))"
  using cpu_forced_loop_ok [OF assms(1), of base 0 results tls] assms(2)
  by (simp add: forceSingleRaysUnoccluded_def)

lemma computeOcclusionQueriesBundled_ok:
  fixes env entries results tls
  defines "es \<equiv> fst (std_partition (\<lambda>r. mOcclTestType r = STANDARD) entries)"
    and "k \<equiv> snd (std_partition (\<lambda>r. mOcclTestType r = STANDARD) entries)"
  defines "ws \<equiv> concat (map (cpuRadiance env) (take k es))"
    and "fs \<equiv> map (\<lambda>r. fillBundledRadiance env (attenuate env r)) (drop k es)"
  assumes valid: "\<forall>r\<in>set entries. isValid env r"
    and cap: "length entries \<le> length results"
  shows "computeOcclusionQueriesBundled env entries results tls =
           Inr (length ws + length fs,
                writeSeq results 0 (ws @ fs),
                tls @ [AddToCounter STATS_OCCLUSION_RAYS (length entries),
                       AddToCounter STATS_BUNDLED_OCCLUSION_RAYS (length entries)]
                  @ concat (map (cpuStandardEvents env) (take k es))
                  @ concat (map (cpuForcedEvents env) (drop k es)),
                es)"
proof -
  let ?tls = "tls @ [AddToCounter STATS_OCCLUSION_RAYS (length entries),
                     AddToCounter STATS_BUNDLED_OCCLUSION_RAYS (length entries)]"
  have sp: "std_partition (\<lambda>r. mOcclTestType r = STANDARD) entries = (es, k)"
    by (simp add: es_def k_def)
  have ms: "mset es = mset entries"
    and part: "partitioned (\<lambda>r. mOcclTestType r = STANDARD) es k"
    using std_partition_correct [of "\<lambda>r. mOcclTestType r = STANDARD" entries]
    by (simp_all add: es_def k_def)
  have len: "length es = length entries"
    using ms by (metis size_mset)
  have sets: "set es = set entries"
    using ms by (metis set_mset_mset)
  have k: "k \<le> length es"
    using part by (simp add: partitioned_def)
  have std: "\<forall>r\<in>set (take k es). isValid env r \<and> mOcclTestType r = STANDARD"
  proof
    fix r assume r: "r \<in> set (take k es)"
    then have "r \<in> set entries" using sets by (auto dest: in_set_takeD)
    moreover have "mOcclTestType r = STANDARD"
      using part r by (simp add: partitioned_def list_all_iff)
    ultimately show "isValid env r \<and> mOcclTestType r = STANDARD" using valid by simp
  qed
  have frc: "\<forall>r\<in>set (drop k es). isValid env r \<and> mOcclTestType r = FORCE_NOT_OCCLUDED"
  proof
    fix r assume r: "r \<in> set (drop k es)"
    then have "r \<in> set entries" using sets by (auto dest: in_set_dropD)
    moreover have "mOcclTestType r \<noteq> STANDARD"
      using part r by (simp add: partitioned_def list_all_iff)
    then have "mOcclTestType r = FORCE_NOT_OCCLUDED" by (cases "mOcclTestType r") simp_all
    ultimately show "isValid env r \<and> mOcclTestType r = FORCE_NOT_OCCLUDED" using valid by simp
  qed
  have lws: "length ws \<le> k"
  proof -
    have "length ws \<le> length (take k es)"
      unfolding ws_def by (rule length_concat_le) (simp add: cpuRadiance_def length_standardRadiance)
    then show ?thesis using k by simp
  qed
  have lfs: "length fs = length es - k" by (simp add: fs_def)
  have cap1: "0 + length (take k es) \<le> length results" using k len cap by simp
  have a1: "areSingleRaysOccluded env (take k es) 0 results ?tls =
      Inr (length ws, writeSeq results 0 ws,
           ?tls @ concat (map (cpuStandardEvents env) (take k es)))"
    using areSingleRaysOccluded_ok [OF std cap1] by (simp add: ws_def)
  have standard: "(if k \<noteq> 0 then areSingleRaysOccluded env (take k es) 0 results ?tls
                   else Inr (0, results, ?tls)) =
      Inr (length ws, writeSeq results 0 ws,
           ?tls @ concat (map (cpuStandardEvents env) (take k es)))"
  proof (cases "k = 0")
    case True
    then show ?thesis by (simp add: ws_def writeSeq_Nil)
  next
    case False
    then show ?thesis using a1 by simp
  qed
  have lenw: "length (writeSeq results 0 ws) = length results"
    using lws k len cap by (simp add: length_writeSeq)
  have cap2: "length ws + length (drop k es) \<le> length (writeSeq results 0 ws)"
    using lenw lws k len cap by simp
  have capw: "0 + length ws + length fs \<le> length results"
    using lws lfs k len cap by simp
  have wapp: "writeSeq (writeSeq results 0 ws) (length ws) fs = writeSeq results 0 (ws @ fs)"
    using writeSeq_append [OF capw] by simp
  have a2: "forceSingleRaysUnoccluded env (drop k es) (length ws) (writeSeq results 0 ws)
              (?tls @ concat (map (cpuStandardEvents env) (take k es))) =
      Inr (length fs, writeSeq results 0 (ws @ fs),
           (?tls @ concat (map (cpuStandardEvents env) (take k es)))
             @ concat (map (cpuForcedEvents env) (drop k es)))"
    using forceSingleRaysUnoccluded_ok [OF frc cap2] wapp by (simp add: fs_def)
  have tk: "take (length entries - k) (drop k es) = drop k es"
    using len by simp
  show ?thesis
  proof (cases "length entries - k = 0")
    case True
    then have "drop k es = []" using len by simp
    then have "fs = []" by (simp add: fs_def)
    then show ?thesis
      using True standard \<open>drop k es = []\<close>
      by (simp add: computeOcclusionQueriesBundled_def sp Let_def)
  next
    case False
    then show ?thesis
      using standard a2 tk
      by (simp add: computeOcclusionQueriesBundled_def sp Let_def)
  qed
qed

lemma computePresenceShadowsQueriesBundled_ok:
  assumes "\<forall>r\<in>set entries. isValid env r" "length entries \<le> length results"
  shows "computePresenceShadowsQueriesBundled env entries results tls =
           Inr (length entries, writeSeq results 0 (map (presenceRadiance env) entries),
                tls @ concat (map (presenceEvents env) entries))"
proof (cases "entries = []")
  case True
  then show ?thesis by (simp add: computePresenceShadowsQueriesBundled_def writeSeq_Nil)
next
  case False
  then show ?thesis
    using presence_loop_ok [OF assms(1), of 0 results tls] assms(2)
    by (simp add: computePresenceShadowsQueriesBundled_def)
qed

lemma computeXPUOcclusionQueriesOnGPU_ok:
  assumes "length rays \<le> length (gpuOutputOcclusionBuf env gpuRays rays)"
    and "length rays \<le> length results"
  shows "computeXPUOcclusionQueriesOnGPU env rays gpuRays results tls =
           Inr (length (concat (map (\<lambda>(occ, r). gpuRadiance env occ r) (gpuAnswers env gpuRays rays))),
                writeSeq results 0
                  (concat (map (\<lambda>(occ, r). gpuRadiance env occ r) (gpuAnswers env gpuRays rays))),
                tls @ [AddToCounter STATS_OCCLUSION_RAYS (length rays),
                       AddToCounter STATS_BUNDLED_OCCLUSION_RAYS (length rays),
                       AddToCounter STATS_BUNDLED_GPU_OCCLUSION_RAYS (length rays),
                       ThreadsUsingGPUIncr, GpuOccluded gpuRays rays, ThreadsUsingGPUDecr]
                  @ concat (map (\<lambda>(occ, r). gpuEvents env occ r) (gpuAnswers env gpuRays rays)))"
proof -
  have a: "0 + length rays \<le> length (gpuOutputOcclusionBuf env gpuRays rays)"
    and b: "0 + length rays \<le> length results"
    using assms by simp_all
  show ?thesis
    using gpu_loop_ok [OF a b]
    by (simp add: computeXPUOcclusionQueriesOnGPU_def Let_def gpuAnswers_def
        comp_def split_def)
qed

section \<open>The light path state of a primary ray that leaves the scene\<close>

text \<open>
  C9. A batch of one primary ray (depth \<open>0\<close>) that misses all geometry, finds a visible
  light (\<^verbatim>\<open>LightEval\<close> is in the trace) and has \<open>lpeStateId = 0\<close>, with a non-empty AOV
  schema. The claim expects a transition of the light path state by the hit-light event
  and a light AOV accumulation with the new state before the ray state is released. The
  handler does neither: its trace goes from the background AOV call straight to the
  radiance queue and \<^verbatim>\<open>freeRayStates\<close>, because the AOV part reads the outer
  \<^verbatim>\<open>hitLight\<close>, which is always null.
\<close>

theorem primary_miss_light_aov_never_accumulated:
  "traceOf (rayBundleHandler exEnv [3] (\<lambda>p. exRayState) []) =
     Inr [AddToCounter STATS_INTERSECTION_RAYS 1,
          AddToCounter STATS_BUNDLED_INTERSECTION_RAYS 1, AccelIntersect 3,
          ComputeRadianceVolume 3, AovAccumVisibilityAttemptsBundled 1 0 0,
          IntersectVisibleLight 3, LightEval exLight 3,
          AcquireDeepData 0, AcquireCryptomatteData 0,
          AovAccumBackgroundExtraAovsBundled 3,
          AddRadianceQueueEntries
            [\<lparr>brRadiance = RenderColor 1 1 1 0, brPathPixelWeight = 1,
              brPixel = 0, brSubPixelIndex = 0, brDeepDataHandle = 0,
              brCryptomatteDataHandle = 0, brCryptoRefP = (0, 0, 0),
              brCryptoRefN = (0, 0, 0), brCryptoUV = (0, 0), brTilePass = 0\<rparr>],
          FreeRayStates [3]]"
  by code_simp

lemma length_allocArray: "length (allocArray c n) = n"
  by (simp add: allocArray_def)

section \<open>Results filled per input ray\<close>

text \<open>
  C10. For every batch whose rays are valid, with a results array of at least as many
  slots as there are rays (and, on the GPU, an occlusion buffer of at least as many
  bytes), each of \<^verbatim>\<open>computeOcclusionQueriesBundled\<close>,
  \<^verbatim>\<open>computePresenceShadowsQueriesBundled\<close> and \<^verbatim>\<open>computeXPUOcclusionQueriesOnGPU\<close> returns
  (no store falls outside the array) with a count that does not exceed the number of
  rays, and each of the three bundle handlers, which allocate the array with one slot per
  ray, runs to its end: its assertion \<^verbatim>\<open>numRadiancesFilled <= numEntries\<close> holds.
\<close>

theorem radiances_filled_at_most_one_per_ray:
  assumes valid: "\<forall>r\<in>set entries. isValid env r"
    and cap: "length entries \<le> length results"
    and buf: "length entries \<le> length (gpuOutputOcclusionBuf env gpuRays entries)"
  shows "(\<exists>n res t es. computeOcclusionQueriesBundled env entries results tls = Inr (n, res, t, es)
            \<and> n \<le> length entries \<and> length res = length results)
       \<and> (\<exists>n res t. computePresenceShadowsQueriesBundled env entries results tls = Inr (n, res, t)
            \<and> n \<le> length entries \<and> length res = length results)
       \<and> (\<exists>n res t. computeXPUOcclusionQueriesOnGPU env entries gpuRays results tls = Inr (n, res, t)
            \<and> n \<le> length entries \<and> length res = length results)
       \<and> (\<exists>t. occlusionQueryBundleHandler env entries tls = Inr t)
       \<and> (\<exists>t. presenceShadowsQueryBundleHandler env entries tls = Inr t)
       \<and> (\<exists>t. xpuOcclusionQueryBundleHandler env entries gpuRays tls = Inr t)"
proof -
  define es where "es = fst (std_partition (\<lambda>r. mOcclTestType r = STANDARD) entries)"
  define k where "k = snd (std_partition (\<lambda>r. mOcclTestType r = STANDARD) entries)"
  define ws where "ws = concat (map (cpuRadiance env) (take k es))"
  define fs where "fs = map (\<lambda>r. fillBundledRadiance env (attenuate env r)) (drop k es)"
  define gs where "gs = concat (map (\<lambda>(occ, r). gpuRadiance env occ r) (gpuAnswers env gpuRays entries))"
  have "mset es = mset entries"
    using std_partition_correct [of "\<lambda>r. mOcclTestType r = STANDARD" entries] by (simp add: es_def)
  then have len: "length es = length entries" by (metis size_mset)
  have "length ws \<le> length (take k es)"
    unfolding ws_def by (rule length_concat_le) (simp add: cpuRadiance_def length_standardRadiance)
  then have lws: "length ws \<le> min k (length es)" by simp
  have lfs: "length fs = length es - k" by (simp add: fs_def)
  have lwf: "length ws + length fs \<le> length entries" using lws lfs len by auto
  have "length gs \<le> length (gpuAnswers env gpuRays entries)"
    unfolding gs_def by (rule length_concat_le) (auto simp: length_gpuRadiance)
  then have lgs: "length gs \<le> length entries" by (simp add: gpuAnswers_def)
  have cpu: "\<And>results. length entries \<le> length results \<Longrightarrow>
      computeOcclusionQueriesBundled env entries results tls =
        Inr (length ws + length fs, writeSeq results 0 (ws @ fs),
             tls @ [AddToCounter STATS_OCCLUSION_RAYS (length entries),
                    AddToCounter STATS_BUNDLED_OCCLUSION_RAYS (length entries)]
               @ concat (map (cpuStandardEvents env) (take k es))
               @ concat (map (cpuForcedEvents env) (drop k es)), es)"
    using computeOcclusionQueriesBundled_ok [OF valid] by (simp add: es_def k_def ws_def fs_def)
  have pres: "\<And>results. length entries \<le> length results \<Longrightarrow>
      computePresenceShadowsQueriesBundled env entries results tls =
        Inr (length entries, writeSeq results 0 (map (presenceRadiance env) entries),
             tls @ concat (map (presenceEvents env) entries))"
    using computePresenceShadowsQueriesBundled_ok [OF valid] by simp
  have gpu: "\<And>results. length entries \<le> length results \<Longrightarrow>
      computeXPUOcclusionQueriesOnGPU env entries gpuRays results tls =
        Inr (length gs, writeSeq results 0 gs,
             tls @ [AddToCounter STATS_OCCLUSION_RAYS (length entries),
                    AddToCounter STATS_BUNDLED_OCCLUSION_RAYS (length entries),
                    AddToCounter STATS_BUNDLED_GPU_OCCLUSION_RAYS (length entries),
                    ThreadsUsingGPUIncr, GpuOccluded gpuRays entries, ThreadsUsingGPUDecr]
               @ concat (map (\<lambda>(occ, r). gpuEvents env occ r) (gpuAnswers env gpuRays entries)))"
    using computeXPUOcclusionQueriesOnGPU_ok [OF buf] by (simp add: gs_def)
  have c1: "\<exists>n res t es. computeOcclusionQueriesBundled env entries results tls = Inr (n, res, t, es)
            \<and> n \<le> length entries \<and> length res = length results"
    using cpu [OF cap] lwf cap by (simp add: length_writeSeq)
  have c2: "\<exists>n res t. computePresenceShadowsQueriesBundled env entries results tls = Inr (n, res, t)
            \<and> n \<le> length entries \<and> length res = length results"
    using pres [OF cap] cap by (simp add: length_writeSeq)
  have c3: "\<exists>n res t. computeXPUOcclusionQueriesOnGPU env entries gpuRays results tls = Inr (n, res, t)
            \<and> n \<le> length entries \<and> length res = length results"
    using gpu [OF cap] lgs cap by (simp add: length_writeSeq)
  have la: "length entries \<le> length (allocArray (arenaRadiance env) (length entries))"
    by (simp add: length_allocArray)
  have c4: "\<exists>t. occlusionQueryBundleHandler env entries tls = Inr t"
    using cpu [OF la] lwf by (simp add: occlusionQueryBundleHandler_def Let_def)
  have c5: "\<exists>t. presenceShadowsQueryBundleHandler env entries tls = Inr t"
    using pres [OF la] by (simp add: presenceShadowsQueryBundleHandler_def Let_def)
  have c6: "\<exists>t. xpuOcclusionQueryBundleHandler env entries gpuRays tls = Inr t"
    using gpu [OF la] lgs by (simp add: xpuOcclusionQueryBundleHandler_def Let_def)
  show ?thesis using c1 c2 c3 c4 c5 c6 by blast
qed

text \<open>The same on the batch of one standard ray of the example scene.\<close>

lemma exEnv_isValid: "isValid exEnv r"
  by (simp add: exEnv_def)

theorem radiances_filled_at_most_one_per_ray_witness:
  "(\<exists>n res t es. computeOcclusionQueriesBundled exEnv [exOcclRay] [exRadiance] [] = Inr (n, res, t, es)
            \<and> n \<le> 1 \<and> length res = 1)
       \<and> (\<exists>n res t. computePresenceShadowsQueriesBundled exEnv [exOcclRay] [exRadiance] [] = Inr (n, res, t)
            \<and> n \<le> 1 \<and> length res = 1)
       \<and> (\<exists>n res t. computeXPUOcclusionQueriesOnGPU exEnv [exOcclRay] [GPURay 0] [exRadiance] [] = Inr (n, res, t)
            \<and> n \<le> 1 \<and> length res = 1)
       \<and> (\<exists>t. occlusionQueryBundleHandler exEnv [exOcclRay] [] = Inr t)
       \<and> (\<exists>t. presenceShadowsQueryBundleHandler exEnv [exOcclRay] [] = Inr t)
       \<and> (\<exists>t. xpuOcclusionQueryBundleHandler exEnv [exOcclRay] [GPURay 0] [] = Inr t)"
proof -
  have v: "\<forall>r\<in>set [exOcclRay]. isValid exEnv r" by (simp add: exEnv_isValid)
  have c: "length [exOcclRay] \<le> length [exRadiance]" by simp
  have b: "length [exOcclRay] \<le> length (gpuOutputOcclusionBuf exEnv [GPURay 0] [exOcclRay])"
    by (simp add: exEnv_def)
  show ?thesis
    using radiances_filled_at_most_one_per_ray [OF v c b, of "[]"] by simp
qed

section \<open>Presence shadows\<close>

text \<open>
  C6. For a batch of valid rays and a results array with a slot per ray,
  \<^verbatim>\<open>computePresenceShadowsQueriesBundled\<close> fills exactly one result per ray, the result of
  ray \<open>i\<close> in slot \<open>i\<close>. The ray's radiance is first multiplied by the volume
  transmittance (\<open>attenuate\<close>); the result is \<^verbatim>\<open>fillBundledRadiance\<close> of that ray, and when
  the presence is not equal to zero (\<^verbatim>\<open>isEqual(presence, 0.0f)\<close> is false) and shadowing is
  enabled its red, green and blue are in addition multiplied by \<open>1 - presence\<close>. The
  value handed to \<^verbatim>\<open>accumLightAovs\<close> as the unoccluded contribution is
  \<open>(1 - presence) * transmittance\<close> on either branch. In the scenario of the spec
  (transmittance \<open>(1,1,1)\<close>, presence \<open>0.4\<close>, shadowing enabled, a
  \<^verbatim>\<open>fillBundledRadiance\<close> that copies the ray's radiance) the emitted radiance is \<open>0.6\<close>
  times the ray's radiance and the AOV value is \<open>0.6\<close> times the transmittance.
\<close>

theorem presence_radiance_scaled_by_one_minus_presence:
  assumes valid: "\<forall>r\<in>set entries. isValid env r"
    and cap: "length entries \<le> length results"
  shows "\<exists>res t. computePresenceShadowsQueriesBundled env entries results tls
                   = Inr (length entries, res, t) \<and>
          (\<forall>i<length entries.
             res ! i =
               (if isEqual env (presenceOf env (entries ! i)) 0 \<or> \<not> getEnableShadowing env
                then fillBundledRadiance env (attenuate env (entries ! i))
                else (fillBundledRadiance env (attenuate env (entries ! i)))
                       \<lparr>brRadiance :=
                          scaleRGB (brRadiance (fillBundledRadiance env (attenuate env (entries ! i))))
                            (1 - presenceOf env (entries ! i))\<rparr>)
             \<and> AccumLightAovs (attenuate env (entries ! i))
                 (getNumListItems env (mDataPtrHandle (entries ! i))) sWhite
                 (Some (cscale (1 - presenceOf env (entries ! i))
                          (getTransmittance env (entries ! i))))
                 sLpePrefixUnoccluded \<in> set t
             \<and> (getTransmittance env (entries ! i) = sWhite
                  \<and> presenceOf env (entries ! i) = 2 / 5
                  \<and> getEnableShadowing env \<and> \<not> isEqual env (2 / 5) 0
                  \<and> rgbOf (brRadiance (fillBundledRadiance env (attenuate env (entries ! i))))
                      = mRadiance (attenuate env (entries ! i))
                \<longrightarrow> rgbOf (brRadiance (res ! i)) = cscale (3 / 5) (mRadiance (entries ! i))
                    \<and> cscale (1 - presenceOf env (entries ! i))
                          (getTransmittance env (entries ! i)) = cscale (3 / 5) sWhite))"
proof -
  let ?res = "writeSeq results 0 (map (presenceRadiance env) entries)"
  let ?t = "tls @ concat (map (presenceEvents env) entries)"
  have run: "computePresenceShadowsQueriesBundled env entries results tls
               = Inr (length entries, ?res, ?t)"
    by (rule computePresenceShadowsQueriesBundled_ok [OF valid cap])
  have "\<forall>i<length entries. ?res ! i = presenceRadiance env (entries ! i)"
  proof (intro allI impI)
    fix i assume i: "i < length entries"
    have "writeSeq results 0 (map (presenceRadiance env) entries) ! (0 + i)
            = map (presenceRadiance env) entries ! i"
      by (rule nth_writeSeq) (use cap i in simp_all)
    then show "?res ! i = presenceRadiance env (entries ! i)" using i by simp
  qed
  then have nth: "\<And>i. i < length entries \<Longrightarrow> ?res ! i = presenceRadiance env (entries ! i)"
    by simp
  have ev: "\<And>i. i < length entries \<Longrightarrow>
      AccumLightAovs (attenuate env (entries ! i))
         (getNumListItems env (mDataPtrHandle (entries ! i))) sWhite
         (Some (cscale (1 - presenceOf env (entries ! i)) (getTransmittance env (entries ! i))))
         sLpePrefixUnoccluded \<in> set ?t"
  proof -
    fix i assume i: "i < length entries"
    have "entries ! i \<in> set entries" using i by simp
    moreover have "AccumLightAovs (attenuate env (entries ! i))
         (getNumListItems env (mDataPtrHandle (entries ! i))) sWhite
         (Some (cscale (1 - presenceOf env (entries ! i)) (getTransmittance env (entries ! i))))
         sLpePrefixUnoccluded \<in> set (presenceEvents env (entries ! i))"
      by (simp add: presenceEvents_def)
    ultimately show "AccumLightAovs (attenuate env (entries ! i))
         (getNumListItems env (mDataPtrHandle (entries ! i))) sWhite
         (Some (cscale (1 - presenceOf env (entries ! i)) (getTransmittance env (entries ! i))))
         sLpePrefixUnoccluded \<in> set ?t"
      by auto
  qed
  have sc: "\<And>r. getTransmittance env r = sWhite \<Longrightarrow> presenceOf env r = 2 / 5 \<Longrightarrow>
      getEnableShadowing env \<Longrightarrow> \<not> isEqual env (2 / 5) 0 \<Longrightarrow>
      rgbOf (brRadiance (fillBundledRadiance env (attenuate env r))) = mRadiance (attenuate env r) \<Longrightarrow>
      rgbOf (brRadiance (presenceRadiance env r)) = cscale (3 / 5) (mRadiance r)
      \<and> cscale (1 - presenceOf env r) (getTransmittance env r) = cscale (3 / 5) sWhite"
  proof -
    fix r
    assume tr: "getTransmittance env r = sWhite" and p: "presenceOf env r = 2 / 5"
      and sh: "getEnableShadowing env" and ne: "\<not> isEqual env (2 / 5) 0"
      and fill: "rgbOf (brRadiance (fillBundledRadiance env (attenuate env r)))
                   = mRadiance (attenuate env r)"
    have "presenceRadiance env r =
            (fillBundledRadiance env (attenuate env r))
              \<lparr>brRadiance := scaleRGB (brRadiance (fillBundledRadiance env (attenuate env r)))
                               (1 - 2 / 5)\<rparr>"
      unfolding presenceRadiance_def p using sh ne by simp
    then have "rgbOf (brRadiance (presenceRadiance env r))
            = cscaleR (rgbOf (brRadiance (fillBundledRadiance env (attenuate env r)))) (1 - 2 / 5)"
      by (simp add: rgbOf_def scaleRGB_def cscaleR_def)
    also have "\<dots> = cscaleR (cmul (mRadiance r) sWhite) (3 / 5)"
      using fill tr by (simp add: attenuate_def)
    also have "\<dots> = cscale (3 / 5) (mRadiance r)"
      by (simp add: cscaleR_def cscale_def cmul_def sWhite_def)
    finally have a: "rgbOf (brRadiance (presenceRadiance env r)) = cscale (3 / 5) (mRadiance r)" .
    have b: "cscale (1 - presenceOf env r) (getTransmittance env r) = cscale (3 / 5) sWhite"
      using p tr by (simp add: cscale_def)
    show "rgbOf (brRadiance (presenceRadiance env r)) = cscale (3 / 5) (mRadiance r)
      \<and> cscale (1 - presenceOf env r) (getTransmittance env r) = cscale (3 / 5) sWhite"
      using a b by simp
  qed
  have all: "\<forall>i<length entries.
             ?res ! i =
               (if isEqual env (presenceOf env (entries ! i)) 0 \<or> \<not> getEnableShadowing env
                then fillBundledRadiance env (attenuate env (entries ! i))
                else (fillBundledRadiance env (attenuate env (entries ! i)))
                       \<lparr>brRadiance :=
                          scaleRGB (brRadiance (fillBundledRadiance env (attenuate env (entries ! i))))
                            (1 - presenceOf env (entries ! i))\<rparr>)
             \<and> AccumLightAovs (attenuate env (entries ! i))
                 (getNumListItems env (mDataPtrHandle (entries ! i))) sWhite
                 (Some (cscale (1 - presenceOf env (entries ! i))
                          (getTransmittance env (entries ! i))))
                 sLpePrefixUnoccluded \<in> set ?t
             \<and> (getTransmittance env (entries ! i) = sWhite
                  \<and> presenceOf env (entries ! i) = 2 / 5
                  \<and> getEnableShadowing env \<and> \<not> isEqual env (2 / 5) 0
                  \<and> rgbOf (brRadiance (fillBundledRadiance env (attenuate env (entries ! i))))
                      = mRadiance (attenuate env (entries ! i))
                \<longrightarrow> rgbOf (brRadiance (?res ! i)) = cscale (3 / 5) (mRadiance (entries ! i))
                    \<and> cscale (1 - presenceOf env (entries ! i))
                          (getTransmittance env (entries ! i)) = cscale (3 / 5) sWhite)"
  proof (intro allI impI conjI)
    fix i assume i: "i < length entries"
    show "?res ! i =
               (if isEqual env (presenceOf env (entries ! i)) 0 \<or> \<not> getEnableShadowing env
                then fillBundledRadiance env (attenuate env (entries ! i))
                else (fillBundledRadiance env (attenuate env (entries ! i)))
                       \<lparr>brRadiance :=
                          scaleRGB (brRadiance (fillBundledRadiance env (attenuate env (entries ! i))))
                            (1 - presenceOf env (entries ! i))\<rparr>)"
      using nth [OF i] by (simp add: presenceRadiance_def)
    show "AccumLightAovs (attenuate env (entries ! i))
                 (getNumListItems env (mDataPtrHandle (entries ! i))) sWhite
                 (Some (cscale (1 - presenceOf env (entries ! i))
                          (getTransmittance env (entries ! i))))
                 sLpePrefixUnoccluded \<in> set ?t"
      by (rule ev [OF i])
  next
    fix i assume i: "i < length entries"
      and h: "getTransmittance env (entries ! i) = sWhite
                  \<and> presenceOf env (entries ! i) = 2 / 5
                  \<and> getEnableShadowing env \<and> \<not> isEqual env (2 / 5) 0
                  \<and> rgbOf (brRadiance (fillBundledRadiance env (attenuate env (entries ! i))))
                      = mRadiance (attenuate env (entries ! i))"
    show "rgbOf (brRadiance (?res ! i)) = cscale (3 / 5) (mRadiance (entries ! i))"
      unfolding nth [OF i] using sc [of "entries ! i"] h by blast
    show "cscale (1 - presenceOf env (entries ! i))
                          (getTransmittance env (entries ! i)) = cscale (3 / 5) sWhite"
      using sc [of "entries ! i"] h by blast
  qed
  show ?thesis
    using run all by blast
qed

text \<open>
  The example ray has radiance \<open>(1,2,3)\<close>; the scene has unit transmittance and a presence
  of \<open>2/5\<close>.
\<close>

theorem presence_radiance_scaled_by_one_minus_presence_witness:
  "\<exists>res t. computePresenceShadowsQueriesBundled exEnv [exOcclRay] [exRadiance] [] = Inr (1, res, t)
     \<and> rgbOf (brRadiance (res ! 0)) = Color (3 / 5) (6 / 5) (9 / 5)
     \<and> AccumLightAovs exOcclRay 1 sWhite (Some (Color (3 / 5) (3 / 5) (3 / 5)))
          sLpePrefixUnoccluded \<in> set t"
proof -
  have v: "\<forall>r\<in>set [exOcclRay]. isValid exEnv r" by (simp add: exEnv_isValid)
  have c: "length [exOcclRay] \<le> length [exRadiance]" by simp
  have tr: "getTransmittance exEnv exOcclRay = sWhite" by (simp add: exEnv_def)
  have p: "presenceOf exEnv exOcclRay = 2 / 5" by (simp add: presenceOf_def exEnv_def)
  have sh: "getEnableShadowing exEnv" by (simp add: exEnv_def)
  have ne: "\<not> isEqual exEnv (2 / 5) 0" by (simp add: exEnv_def)
  have att: "attenuate exEnv exOcclRay = exOcclRay"
    unfolding attenuate_def tr by (simp add: exOcclRay_def cmul_def sWhite_def)
  have fill: "rgbOf (brRadiance (fillBundledRadiance exEnv (attenuate exEnv exOcclRay)))
                = mRadiance (attenuate exEnv exOcclRay)"
    by (simp add: att) (simp add: exEnv_def rgbOf_def exOcclRay_def exRadiance_def)
  have n: "getNumListItems exEnv (mDataPtrHandle exOcclRay) = 1" by (simp add: exEnv_def)
  have r: "cscale (3 / 5) (mRadiance exOcclRay) = Color (3 / 5) (6 / 5) (9 / 5)"
    by (simp add: exOcclRay_def cscale_def)
  have w: "cscale (3 / 5) sWhite = Color (3 / 5) (3 / 5) (3 / 5)"
    by (simp add: cscale_def sWhite_def)
  show ?thesis
    using presence_radiance_scaled_by_one_minus_presence [OF v c, of "[]"]
    by (simp add: tr p sh ne att fill n r w) (metis fill att r)
qed

section \<open>Occluded standard rays and the clear radius falloff\<close>

text \<open>
  C7, as amended. Take a \<^verbatim>\<open>STANDARD\<close> ray that the accelerator reports occluded (on the
  CPU: \<^verbatim>\<open>occluded\<close> returns true for a valid ray; on the GPU: its byte of the output
  buffer is not zero), with room for one more result. The falloff applies
  (\<open>falloffApplies\<close>) when the light's falloff distance is not zero and the ray's
  \<^verbatim>\<open>mMaxT\<close> is below the \<^verbatim>\<open>float\<close> sum of clear radius and falloff distance.
  \<^item> Shadowing enabled, side-data handle not null, falloff applies: one result is stored
    in the next free slot, \<^verbatim>\<open>fillBundledRadiance\<close> of the ray whose radiance is
    \<^verbatim>\<open>calculateShadowFalloff(light, mMaxT, tr * mRadiance)\<close> (\<open>falloffRay\<close>), and
    \<^verbatim>\<open>accumVisibilityAovsOccluded\<close> is called for that ray.
  \<^item> Shadowing enabled, handle not null, falloff does not apply: the results array and the
    count are unchanged, and \<^verbatim>\<open>accumVisibilityAovsOccluded\<close> is called for the ray.
  \<^item> Shadowing disabled: the ray is treated as an unoccluded one. Its radiance times the
    transmittance is stored, and for a handle that is not null \<^verbatim>\<open>accumLightAovs\<close> and
    \<^verbatim>\<open>accumVisibilityAovs\<close> are called; \<^verbatim>\<open>accumVisibilityAovsOccluded\<close> is not.
  \<^item> Shadowing enabled, handle null: nothing is stored and no AOV call is made.

  The theorem gives the whole outcome of the iteration: the array, the count, and the
  calls appended to the trace (the accelerator call on the CPU, the AOV calls, \<^verbatim>\<open>freeList\<close>
  for a handle that is not null, and the releases).
\<close>

theorem occluded_ray_emits_only_within_falloff:
  fixes env r results base n tls buf i
  defines "k \<equiv> getNumListItems env (mDataPtrHandle r)"
  defines "emitted \<equiv>
     (if \<not> getEnableShadowing env then Some (attenuate env r)
      else if mDataPtrHandle r \<noteq> nullHandle env \<and> falloffApplies env r
      then Some (falloffRay env r)
      else None)"
  defines "stored \<equiv>
     (case emitted of
        Some x \<Rightarrow> results[base + n := fillBundledRadiance env x]
      | None \<Rightarrow> results)"
  defines "filled \<equiv> (case emitted of Some x \<Rightarrow> 1 | None \<Rightarrow> 0)"
  defines "seen \<equiv> (if falloffApplies env r then falloffRay env r else r)"
  defines "aovs \<equiv>
     (if mDataPtrHandle r = nullHandle env then []
      else if \<not> getEnableShadowing env then
        [AccumLightAovs (attenuate env r) k sWhite (Some (getTransmittance env r))
           sLpePrefixUnoccluded,
         AccumVisibilityAovs (attenuate env r) k
           (reduceTransparency env (getTransmittance env r))]
      else
        AccumVisibilityAovsOccluded seen k
        # (if hasLpePrefixFlags env sLpePrefixUnoccluded
           then [AccumLightAovs seen k sWhite None sLpePrefixUnoccluded] else []))"
  defines "freed \<equiv>
     (if mDataPtrHandle r = nullHandle env then [] else [FreeList (mDataPtrHandle r)])"
  assumes std: "mOcclTestType r = STANDARD"
    and n: "base + n < length results"
  shows "(isValid env r \<and> occluded env (rtRayOf env r) \<longrightarrow>
            areSingleRaysOccluded_body env base r (results, n, tls) =
              Inr (stored, n + filled,
                   tls @ [AccelOccluded (rtRayOf env r)] @ aovs @ freed
                     @ [ReleaseDeepData (mDeepDataHandle r),
                        ReleaseCryptomatteData (mCryptomatteDataHandle r)]))
       \<and> (i < length buf \<and> buf ! i \<noteq> 0 \<longrightarrow>
            computeXPUOcclusionQueriesOnGPU_body env buf i r (results, base + n, tls) =
              Inr (stored, base + n + filled,
                   tls @ aovs @ freed @ [ReleaseDeepData (mDeepDataHandle r)]))"
proof (intro conjI impI)
  assume a: "isValid env r \<and> occluded env (rtRayOf env r)"
  then have v: "isValid env r" and o: "occluded env (rtRayOf env r)" by simp_all
  show "areSingleRaysOccluded_body env base r (results, n, tls) =
              Inr (stored, n + filled,
                   tls @ [AccelOccluded (rtRayOf env r)] @ aovs @ freed
                     @ [ReleaseDeepData (mDeepDataHandle r),
                        ReleaseCryptomatteData (mCryptomatteDataHandle r)])"
    using cpu_standard_body_ok [OF v std n, of tls] o n
    unfolding stored_def filled_def emitted_def aovs_def freed_def seen_def k_def
    by (simp add: standardRadiance_def cpuStandardEvents_def standardAovEvents_def
        freeListEvents_def writeSeq_one writeSeq_Nil)
next
  assume a: "i < length buf \<and> buf ! i \<noteq> 0"
  then have i: "i < length buf" and o: "buf ! i \<noteq> 0" by simp_all
  show "computeXPUOcclusionQueriesOnGPU_body env buf i r (results, base + n, tls) =
              Inr (stored, base + n + filled,
                   tls @ aovs @ freed @ [ReleaseDeepData (mDeepDataHandle r)])"
    using gpu_body_ok [OF i n, of env r tls] o n std
    unfolding stored_def filled_def emitted_def aovs_def freed_def seen_def k_def
    by (simp add: gpuRadiance_def gpuEvents_def standardRadiance_def standardAovEvents_def
        freeListEvents_def writeSeq_one writeSeq_Nil)
qed

text \<open>
  Five rays of the example scene, all reported occluded. The example ray ends at distance
  \<open>10\<close>, outside clear radius plus falloff distance (\<open>3\<close>): nothing is stored and the
  occluded visibility is recorded. The same ray ending at distance \<open>2\<close> is inside: one
  result is stored, with half the radiance (the example's falloff). With shadowing
  disabled the example ray is stored with its full radiance and recorded as visible. With a
  null handle nothing is stored and no AOV call is made. On the machine that stores
  \<open>2^24 + 1\<close> as \<open>2^24\<close>, a ray that ends at \<open>2^24\<close> is outside the falloff range of the
  light with clear radius \<open>2^24\<close> and falloff distance \<open>1\<close>: nothing is stored.
\<close>

theorem occluded_ray_emits_only_within_falloff_witness:
  "areSingleRaysOccluded_body exEnv 0 exOcclRay ([exRadiance], 0, []) =
     Inr ([exRadiance], 0,
          [AccelOccluded (rtRayOf exEnv exOcclRay), AccumVisibilityAovsOccluded exOcclRay 1,
           FreeList 5, ReleaseDeepData 6, ReleaseCryptomatteData 7])
   \<and> computeXPUOcclusionQueriesOnGPU_body exEnv [1] 0 (exOcclRay\<lparr>mMaxT := 2\<rparr>)
        ([exRadiance], 0, []) =
     Inr ([exRadiance\<lparr>brRadiance := RenderColor (1 / 2) 1 (3 / 2) 0,
             brDeepDataHandle := 6, brCryptomatteDataHandle := 7\<rparr>], 1,
          [AccumVisibilityAovsOccluded
             (exOcclRay\<lparr>mMaxT := 2, mRadiance := Color (1 / 2) 1 (3 / 2)\<rparr>) 1,
           FreeList 5, ReleaseDeepData 6])
   \<and> areSingleRaysOccluded_body (exEnv\<lparr>getEnableShadowing := False\<rparr>) 0 exOcclRay
        ([exRadiance], 0, []) =
     Inr ([exRadiance\<lparr>brRadiance := RenderColor 1 2 3 0,
             brDeepDataHandle := 6, brCryptomatteDataHandle := 7\<rparr>], 1,
          [AccelOccluded (rtRayOf exEnv exOcclRay),
           AccumLightAovs exOcclRay 1 sWhite (Some sWhite) sLpePrefixUnoccluded,
           AccumVisibilityAovs exOcclRay 1 1,
           FreeList 5, ReleaseDeepData 6, ReleaseCryptomatteData 7])
   \<and> computeXPUOcclusionQueriesOnGPU_body exEnv [1] 0 (exOcclRay\<lparr>mDataPtrHandle := - 1\<rparr>)
        ([exRadiance], 0, []) =
     Inr ([exRadiance], 0, [ReleaseDeepData 6])
   \<and> areSingleRaysOccluded_body exRoundingEnv 0 (exOcclRay\<lparr>mMaxT := 16777216\<rparr>)
        ([exRadiance], 0, []) =
     Inr ([exRadiance], 0,
          [AccelOccluded (rtRayOf exRoundingEnv (exOcclRay\<lparr>mMaxT := 16777216\<rparr>)),
           AccumVisibilityAovsOccluded (exOcclRay\<lparr>mMaxT := 16777216\<rparr>) 1,
           FreeList 5, ReleaseDeepData 6, ReleaseCryptomatteData 7])"
proof -
  have n: "0 + 0 < length [exRadiance]" by simp
  have s: "mOcclTestType (exOcclRay\<lparr>mMaxT := d\<rparr>) = STANDARD"
    "mOcclTestType (exOcclRay\<lparr>mDataPtrHandle := h\<rparr>) = STANDARD"
    "mOcclTestType exOcclRay = STANDARD" for d h
    by (simp_all add: exOcclRay_def)
  have a: "areSingleRaysOccluded_body exEnv 0 exOcclRay ([exRadiance], 0, []) =
     Inr ([exRadiance], 0,
          [AccelOccluded (rtRayOf exEnv exOcclRay), AccumVisibilityAovsOccluded exOcclRay 1,
           FreeList 5, ReleaseDeepData 6, ReleaseCryptomatteData 7])"
    using occluded_ray_emits_only_within_falloff [OF s(3) n, where env = exEnv and tls = "[]" and buf = "[1]" and i = 0]
    by (simp add: exEnv_def exOcclRay_def exLight_def falloffApplies_def lightOf_def
        rtRayOf_def)
  have b: "computeXPUOcclusionQueriesOnGPU_body exEnv [1] 0 (exOcclRay\<lparr>mMaxT := 2\<rparr>)
        ([exRadiance], 0, []) =
     Inr ([exRadiance\<lparr>brRadiance := RenderColor (1 / 2) 1 (3 / 2) 0,
             brDeepDataHandle := 6, brCryptomatteDataHandle := 7\<rparr>], 1,
          [AccumVisibilityAovsOccluded
             (exOcclRay\<lparr>mMaxT := 2, mRadiance := Color (1 / 2) 1 (3 / 2)\<rparr>) 1,
           FreeList 5, ReleaseDeepData 6])"
    using occluded_ray_emits_only_within_falloff [OF s(1) [of 2] n, where env = exEnv and tls = "[]" and buf = "[1]" and i = 0]
    by (simp add: exEnv_def exOcclRay_def exLight_def falloffApplies_def falloffRay_def
        lightOf_def cscale_def cmul_def sWhite_def)
  have c: "areSingleRaysOccluded_body (exEnv\<lparr>getEnableShadowing := False\<rparr>) 0 exOcclRay
        ([exRadiance], 0, []) =
     Inr ([exRadiance\<lparr>brRadiance := RenderColor 1 2 3 0,
             brDeepDataHandle := 6, brCryptomatteDataHandle := 7\<rparr>], 1,
          [AccelOccluded (rtRayOf exEnv exOcclRay),
           AccumLightAovs exOcclRay 1 sWhite (Some sWhite) sLpePrefixUnoccluded,
           AccumVisibilityAovs exOcclRay 1 1,
           FreeList 5, ReleaseDeepData 6, ReleaseCryptomatteData 7])"
    using occluded_ray_emits_only_within_falloff
            [OF s(3) n, where env = "exEnv\<lparr>getEnableShadowing := False\<rparr>" and tls = "[]"
               and buf = "[1]" and i = 0]
    by (simp add: exEnv_def exOcclRay_def attenuate_def rtRayOf_def cmul_def sWhite_def)
  have d: "computeXPUOcclusionQueriesOnGPU_body exEnv [1] 0 (exOcclRay\<lparr>mDataPtrHandle := - 1\<rparr>)
        ([exRadiance], 0, []) =
     Inr ([exRadiance], 0, [ReleaseDeepData 6])"
    using occluded_ray_emits_only_within_falloff [OF s(2) [of "- 1"] n, where env = exEnv and tls = "[]" and buf = "[1]" and i = 0]
    by (simp add: exEnv_def exOcclRay_def)
  have e: "areSingleRaysOccluded_body exRoundingEnv 0 (exOcclRay\<lparr>mMaxT := 16777216\<rparr>)
        ([exRadiance], 0, []) =
     Inr ([exRadiance], 0,
          [AccelOccluded (rtRayOf exRoundingEnv (exOcclRay\<lparr>mMaxT := 16777216\<rparr>)),
           AccumVisibilityAovsOccluded (exOcclRay\<lparr>mMaxT := 16777216\<rparr>) 1,
           FreeList 5, ReleaseDeepData 6, ReleaseCryptomatteData 7])"
    using occluded_ray_emits_only_within_falloff
            [OF s(1) [of 16777216] n, where env = exRoundingEnv and tls = "[]" and buf = "[1]"
               and i = 0]
    by (simp add: exRoundingEnv_def exEnv_def exOcclRay_def exLight_def falloffApplies_def
        lightOf_def rtRayOf_def)
  show ?thesis using a b c d e by blast
qed

text \<open>
  C7 as stated fails in three ways. With shadowing disabled, an occluded ray outside the
  falloff range still emits its radiance (count \<open>1\<close>) and no occluded-visibility
  accounting is made. With a null side-data handle (here on the GPU path, shadowing
  enabled, ray occluded) no occluded-visibility accounting is made either. And a ray
  inside the falloff range that carries no radiance emits a radiance of zero.
\<close>

theorem occluded_ray_claim_counterexample:
  "map_sum id (\<lambda>(n, res, t). (n, filter isOccludedVisibilityEvent t))
      (areSingleRaysOccluded (exEnv\<lparr>getEnableShadowing := False\<rparr>) [exOcclRay] 0
         [exRadiance] []) = Inr (1, [])
   \<and> map_sum id (\<lambda>(n, res, t). (n, filter isOccludedVisibilityEvent t))
      (computeXPUOcclusionQueriesOnGPU exEnv [exOcclRay\<lparr>mDataPtrHandle := - 1\<rparr>] [GPURay 0]
         [exRadiance] []) = Inr (0, [])
   \<and> map_sum id (\<lambda>(n, res, t). (n, map brRadiance (take n res)))
      (areSingleRaysOccluded exEnv [exOcclRay\<lparr>mMaxT := 2, mRadiance := sBlack\<rparr>] 0
         [exRadiance] []) = Inr (1, [RenderColor 0 0 0 0])"
  by code_simp

section \<open>Partition into standard and forced rays\<close>

lemma filter_accel_standard:
  "filter isAccelOccluded (concat (map (cpuStandardEvents env) rs))
     = map (\<lambda>r. AccelOccluded (rtRayOf env r)) rs"
  by (induction rs)
    (simp_all add: cpuStandardEvents_def standardAovEvents_def freeListEvents_def
      isAccelOccluded_def)

lemma filter_accel_forced:
  "filter isAccelOccluded (concat (map (cpuForcedEvents env) rs)) = []"
  by (induction rs)
    (simp_all add: cpuForcedEvents_def forcedAovEvents_def freeListEvents_def
      isAccelOccluded_def)

text \<open>
  C8, as amended. For a batch of valid rays and a results array with a slot per ray,
  \<^verbatim>\<open>computeOcclusionQueriesBundled\<close> leaves the entries array a permutation of the input
  in which all \<^verbatim>\<open>STANDARD\<close> rays (the first \<open>k\<close>) precede all \<^verbatim>\<open>FORCE_NOT_OCCLUDED\<close> rays,
  and the occlusion tests it issues to the accelerator are exactly one for each of the
  \<open>k\<close> standard rays, in the order of the array: none is issued for a forced ray.
\<close>

theorem partition_standard_before_forced:
  assumes valid: "\<forall>r\<in>set entries. isValid env r"
    and cap: "length entries \<le> length results"
  shows "\<exists>n res t es k.
           computeOcclusionQueriesBundled env entries results tls = Inr (n, res, t, es)
           \<and> mset es = mset entries \<and> k \<le> length es
           \<and> list_all (\<lambda>r. mOcclTestType r = STANDARD) (take k es)
           \<and> list_all (\<lambda>r. mOcclTestType r = FORCE_NOT_OCCLUDED) (drop k es)
           \<and> filter isAccelOccluded t
               = filter isAccelOccluded tls @ map (\<lambda>r. AccelOccluded (rtRayOf env r)) (take k es)"
proof -
  define es where "es = fst (std_partition (\<lambda>r. mOcclTestType r = STANDARD) entries)"
  define k where "k = snd (std_partition (\<lambda>r. mOcclTestType r = STANDARD) entries)"
  let ?t = "tls @ [AddToCounter STATS_OCCLUSION_RAYS (length entries),
                   AddToCounter STATS_BUNDLED_OCCLUSION_RAYS (length entries)]
              @ concat (map (cpuStandardEvents env) (take k es))
              @ concat (map (cpuForcedEvents env) (drop k es))"
  have ms: "mset es = mset entries"
    and part: "partitioned (\<lambda>r. mOcclTestType r = STANDARD) es k"
    using std_partition_correct [of "\<lambda>r. mOcclTestType r = STANDARD" entries]
    by (simp_all add: es_def k_def)
  have k: "k \<le> length es" and st: "list_all (\<lambda>r. mOcclTestType r = STANDARD) (take k es)"
    and ns: "list_all (\<lambda>r. mOcclTestType r \<noteq> STANDARD) (drop k es)"
    using part by (simp_all add: partitioned_def)
  have "mOcclTestType r \<noteq> STANDARD \<longleftrightarrow> mOcclTestType r = FORCE_NOT_OCCLUDED"
    for r :: BundledOcclRay
    by (cases "mOcclTestType r") simp_all
  then have fo: "list_all (\<lambda>r. mOcclTestType r = FORCE_NOT_OCCLUDED) (drop k es)"
    using ns by simp
  have run: "\<exists>n res. computeOcclusionQueriesBundled env entries results tls = Inr (n, res, ?t, es)"
    using computeOcclusionQueriesBundled_ok [OF valid cap, of tls] by (simp add: es_def k_def)
  have fl: "filter isAccelOccluded ?t
              = filter isAccelOccluded tls @ map (\<lambda>r. AccelOccluded (rtRayOf env r)) (take k es)"
    by (simp add: filter_accel_standard filter_accel_forced isAccelOccluded_def)
  show ?thesis
    using run ms k st fo fl by blast
qed

text \<open>
  Four rays of the example scene, forced and standard in turn, told apart by their depth
  \<open>1, 2, 3, 4\<close>.
\<close>

theorem partition_standard_before_forced_witness:
  "\<exists>n res t es k.
     computeOcclusionQueriesBundled exEnv
       [exForced 1, exOcclRay\<lparr>mDepth := 2\<rparr>, exForced 3, exOcclRay\<lparr>mDepth := 4\<rparr>]
       (replicate 4 exRadiance) [] = Inr (n, res, t, es)
     \<and> mset es = mset [exForced 1, exOcclRay\<lparr>mDepth := 2\<rparr>, exForced 3, exOcclRay\<lparr>mDepth := 4\<rparr>]
     \<and> k \<le> length es
     \<and> list_all (\<lambda>r. mOcclTestType r = STANDARD) (take k es)
     \<and> list_all (\<lambda>r. mOcclTestType r = FORCE_NOT_OCCLUDED) (drop k es)
     \<and> filter isAccelOccluded t = map (\<lambda>r. AccelOccluded (rtRayOf exEnv r)) (take k es)"
proof -
  have v: "\<forall>r\<in>set [exForced 1, exOcclRay\<lparr>mDepth := 2\<rparr>, exForced 3, exOcclRay\<lparr>mDepth := 4\<rparr>].
             isValid exEnv r"
    by (simp add: exEnv_isValid)
  have c: "length [exForced 1, exOcclRay\<lparr>mDepth := 2\<rparr>, exForced 3, exOcclRay\<lparr>mDepth := 4\<rparr>]
             \<le> length (replicate 4 exRadiance)"
    by simp
  show ?thesis
    using partition_standard_before_forced [OF v c, of "[]"] by simp
qed

text \<open>
  C8 as stated fails: the partition is \<^verbatim>\<open>std::partition\<close>, which does not keep the
  relative order within a class. On the four rays above the standard rays \<open>2, 4\<close> come out
  as \<open>4, 2\<close> and the forced rays \<open>1, 3\<close> as \<open>3, 1\<close>.
\<close>

theorem partition_not_stable_counterexample:
  "map_sum id (\<lambda>(n, res, t, es). map mDepth es)
     (computeOcclusionQueriesBundled exEnv
        [exForced 1, exOcclRay\<lparr>mDepth := 2\<rparr>, exForced 3, exOcclRay\<lparr>mDepth := 4\<rparr>]
        (replicate 4 exRadiance) []) = Inr [4, 2, 3, 1]"
  by code_simp

section \<open>Release of the handles of an occlusion ray\<close>

text \<open>
  C2. The example ray carries the side-data handle \<open>5\<close>, the deep-data handle \<open>6\<close> and
  the cryptomatte handle \<open>7\<close>. The CPU occlusion handler frees and releases all three.
  The presence handler frees the list and releases the cryptomatte handle, but never calls
  \<^verbatim>\<open>releaseDeepData\<close>; the GPU handler frees the list and releases the deep-data handle,
  but never calls \<^verbatim>\<open>releaseCryptomatteData\<close>.
\<close>

theorem handles_released_per_resolver:
  "map_sum id (filter isReleaseEvent) (occlusionQueryBundleHandler exEnv [exOcclRay] [])
     = Inr [FreeList 5, ReleaseDeepData 6, ReleaseCryptomatteData 7]
   \<and> map_sum id (filter isReleaseEvent) (presenceShadowsQueryBundleHandler exEnv [exOcclRay] [])
     = Inr [FreeList 5, ReleaseCryptomatteData 7]
   \<and> map_sum id (filter isReleaseEvent)
        (xpuOcclusionQueryBundleHandler exEnv [exOcclRay] [GPURay 0] [])
     = Inr [FreeList 5, ReleaseDeepData 6]"
  by code_simp

section \<open>GPU and CPU occlusion resolvers side by side\<close>

lemma filter_aov_standard:
  "filter isAovEvent (standardAovEvents env occ r) = standardAovEvents env occ r"
  by (simp add: standardAovEvents_def isAovEvent_def)

lemma filter_aov_cpu:
  "filter isAovEvent (cpuStandardEvents env r)
     = standardAovEvents env (occluded env (rtRayOf env r)) r"
  by (simp add: cpuStandardEvents_def filter_aov_standard)
    (simp add: isAovEvent_def freeListEvents_def)

lemma filter_aov_gpu:
  "mOcclTestType r = STANDARD \<Longrightarrow>
   filter isAovEvent (gpuEvents env occ r) = standardAovEvents env occ r"
  by (simp add: gpuEvents_def filter_aov_standard)
    (simp add: isAovEvent_def freeListEvents_def)

lemma filter_release_standard:
  "filter isReleaseEvent (standardAovEvents env occ r) = []"
  by (simp add: standardAovEvents_def isReleaseEvent_def)

lemma filter_release_cpu:
  "filter (\<lambda>e. isReleaseEvent e \<and> \<not> isCryptomatteRelease e) (cpuStandardEvents env r)
     = freeListEvents env r @ [ReleaseDeepData (mDeepDataHandle r)]"
  by (simp add: cpuStandardEvents_def standardAovEvents_def isReleaseEvent_def
      isCryptomatteRelease_def freeListEvents_def)

lemma filter_release_gpu:
  "mOcclTestType r = STANDARD \<Longrightarrow>
   filter isReleaseEvent (gpuEvents env occ r)
     = freeListEvents env r @ [ReleaseDeepData (mDeepDataHandle r)]"
  by (simp add: gpuEvents_def filter_release_standard)
    (simp add: isReleaseEvent_def freeListEvents_def)

lemma gpuAnswers_agree:
  assumes "\<forall>j<length rays. (gpuOutputOcclusionBuf env gpuRays rays ! j \<noteq> 0)
                              = occluded env (rtRayOf env (rays ! j))"
  shows "gpuAnswers env gpuRays rays = map (\<lambda>r. (occluded env (rtRayOf env r), r)) rays"
proof (rule nth_equalityI)
  show "length (gpuAnswers env gpuRays rays)
          = length (map (\<lambda>r. (occluded env (rtRayOf env r), r)) rays)"
    by (simp add: gpuAnswers_def)
next
  fix j assume "j < length (gpuAnswers env gpuRays rays)"
  then have j: "j < length rays" by (simp add: gpuAnswers_def)
  then show "gpuAnswers env gpuRays rays ! j
               = map (\<lambda>r. (occluded env (rtRayOf env r), r)) rays ! j"
    using assms by (simp add: gpuAnswers_def nth_enumerate_eq)
qed

text \<open>
  What does hold of C3: on a batch of valid \<^verbatim>\<open>STANDARD\<close> rays, with an occlusion buffer
  that agrees ray by ray with the CPU accelerator, the GPU resolver and
  \<^verbatim>\<open>areSingleRaysOccluded\<close> return the same count and the same results array, make the
  same AOV calls in the same order, and free the same lists and release the same
  deep-data handles; the release events of the GPU resolver are those of the CPU resolver
  without the cryptomatte releases.
\<close>

lemma gpu_cpu_agree_except_cryptomatte_release:
  assumes valid: "\<forall>r\<in>set rays. isValid env r \<and> mOcclTestType r = STANDARD"
    and cap: "length rays \<le> length results"
    and buf: "length rays \<le> length (gpuOutputOcclusionBuf env gpuRays rays)"
    and agree: "\<forall>j<length rays. (gpuOutputOcclusionBuf env gpuRays rays ! j \<noteq> 0)
                                   = occluded env (rtRayOf env (rays ! j))"
  shows "\<exists>n res tc tg.
           areSingleRaysOccluded env rays 0 results [] = Inr (n, res, tc)
           \<and> computeXPUOcclusionQueriesOnGPU env rays gpuRays results [] = Inr (n, res, tg)
           \<and> filter isAovEvent tc = filter isAovEvent tg
           \<and> filter isReleaseEvent tg
               = filter (\<lambda>e. \<not> isCryptomatteRelease e) (filter isReleaseEvent tc)"
proof -
  let ?ws = "concat (map (cpuRadiance env) rays)"
  let ?tc = "[] @ concat (map (cpuStandardEvents env) rays)"
  let ?hd = "[AddToCounter STATS_OCCLUSION_RAYS (length rays),
              AddToCounter STATS_BUNDLED_OCCLUSION_RAYS (length rays),
              AddToCounter STATS_BUNDLED_GPU_OCCLUSION_RAYS (length rays),
              ThreadsUsingGPUIncr, GpuOccluded gpuRays rays, ThreadsUsingGPUDecr]"
  let ?tg = "[] @ ?hd
               @ concat (map (\<lambda>r. gpuEvents env (occluded env (rtRayOf env r)) r) rays)"
  have std: "\<And>r. r \<in> set rays \<Longrightarrow> mOcclTestType r = STANDARD" using valid by simp
  have cap0: "0 + length rays \<le> length results" using cap by simp
  have cpu: "areSingleRaysOccluded env rays 0 results []
               = Inr (length ?ws, writeSeq results 0 ?ws, ?tc)"
    by (rule areSingleRaysOccluded_ok [OF valid cap0])
  have rad: "concat (map (\<lambda>(occ, r). gpuRadiance env occ r)
                       (map (\<lambda>r. (occluded env (rtRayOf env r), r)) rays)) = ?ws"
    using std by (induction rays) (simp_all add: gpuRadiance_def cpuRadiance_def)
  have evs: "concat (map (\<lambda>(occ, r). gpuEvents env occ r)
                       (map (\<lambda>r. (occluded env (rtRayOf env r), r)) rays))
               = concat (map (\<lambda>r. gpuEvents env (occluded env (rtRayOf env r)) r) rays)"
    by (simp add: comp_def)
  have gpu: "computeXPUOcclusionQueriesOnGPU env rays gpuRays results []
               = Inr (length ?ws, writeSeq results 0 ?ws, ?tg)"
    using computeXPUOcclusionQueriesOnGPU_ok [OF buf cap, of "[]"]
    unfolding gpuAnswers_agree [OF agree] rad evs by simp
  have hdA: "filter isAovEvent ?hd = []" by (simp add: isAovEvent_def)
  have hdR: "filter isReleaseEvent ?hd = []" by (simp add: isReleaseEvent_def)
  have aovC: "filter isAovEvent (concat (map (cpuStandardEvents env) rays))
                = concat (map (\<lambda>r. standardAovEvents env (occluded env (rtRayOf env r)) r) rays)"
    by (induction rays) (simp_all add: filter_aov_cpu)
  have aovG: "filter isAovEvent
                (concat (map (\<lambda>r. gpuEvents env (occluded env (rtRayOf env r)) r) rays))
                = concat (map (\<lambda>r. standardAovEvents env (occluded env (rtRayOf env r)) r) rays)"
    using std by (induction rays) (simp_all add: filter_aov_gpu)
  have relC: "filter (\<lambda>e. \<not> isCryptomatteRelease e)
                (filter isReleaseEvent (concat (map (cpuStandardEvents env) rays)))
                = concat (map (\<lambda>r. freeListEvents env r @ [ReleaseDeepData (mDeepDataHandle r)])
                            rays)"
    by (induction rays) (simp_all add: filter_release_cpu)
  have relG: "filter isReleaseEvent
                (concat (map (\<lambda>r. gpuEvents env (occluded env (rtRayOf env r)) r) rays))
                = concat (map (\<lambda>r. freeListEvents env r @ [ReleaseDeepData (mDeepDataHandle r)])
                            rays)"
    using std by (induction rays) (simp_all add: filter_release_gpu)
  have a: "filter isAovEvent ?tc = filter isAovEvent ?tg"
    unfolding filter_append hdA aovC aovG by simp
  have b: "filter isReleaseEvent ?tg
             = filter (\<lambda>e. \<not> isCryptomatteRelease e) (filter isReleaseEvent ?tc)"
    unfolding filter_append hdR relC relG by simp
  show ?thesis
    using cpu gpu a b by blast
qed

text \<open>
  C3. The batch of the example ray, reported occluded by both accelerators. The two
  resolvers return the same count and make the same AOV call, but the CPU resolver
  releases the ray's cryptomatte handle \<open>7\<close> and the GPU resolver does not.
\<close>

theorem gpu_resolver_skips_cryptomatte_release:
  "map_sum id (\<lambda>(n, res, t). (n, take n res, filter isAovEvent t, filter isReleaseEvent t))
      (areSingleRaysOccluded exEnv [exOcclRay] 0 [exRadiance] [])
     = Inr (0, [], [AccumVisibilityAovsOccluded exOcclRay 1],
            [FreeList 5, ReleaseDeepData 6, ReleaseCryptomatteData 7])
   \<and> map_sum id (\<lambda>(n, res, t). (n, take n res, filter isAovEvent t, filter isReleaseEvent t))
      (computeXPUOcclusionQueriesOnGPU exEnv [exOcclRay] [GPURay 0] [exRadiance] [])
     = Inr (0, [], [AccumVisibilityAovsOccluded exOcclRay 1],
            [FreeList 5, ReleaseDeepData 6])"
  by code_simp

section \<open>Radiance and alpha of a ray that leaves the scene\<close>

text \<open>
  C5, as amended. For every entry of the miss run (with room in the radiances array and
  in the array of ray states to free) the handler stores one radiance, in the slot of the
  entry, and leaves the other slots as they were. For a primary ray (depth \<open>0\<close>) the
  visible light is looked up once and evaluated when one is found, and alpha follows the
  five cases: light found and opaque in alpha: the path pixel weight; light found, not
  opaque, volume traversed: pixel weight times \<open>1 - reduceTransparency(mVolTalpha)\<close>
  (\<open>volumeAlpha\<close>); light found, not opaque, no volume: \<open>0\<close>; no light found, volume
  traversed: \<open>volumeAlpha\<close>; neither: \<open>0\<close>. For a ray of depth other than \<open>0\<close> no light
  is looked up or evaluated (the calls the iteration appends to the trace contain neither
  \<^verbatim>\<open>intersectVisibleLight\<close> nor \<^verbatim>\<open>eval\<close>) and alpha is \<open>0\<close>. The red, green and blue are
  the radiance of the light found (black when none was found or looked up) plus the volume
  radiance. A ray with no light found, no volume hit and black volume radiance yields
  radiance \<open>(0,0,0)\<close> and alpha \<open>0\<close>.
\<close>

theorem miss_alpha_policy_for_primary_rays:
  fixes env pool a i st
  defines "p \<equiv> unat (mRsIdx (a ! i))"
  defines "rs \<equiv> pool (unat (mRsIdx (a ! i)))"
  assumes i: "i < length a"
    and r: "i < length (radiances st)"
    and f: "numRayStatesToFree st < length (rayStatesToFree st)"
  shows "\<exists>st1 evs. miss_body env pool a i st = Inr st1 \<and>
     radiances st1 = (radiances st)[i := radiances st1 ! i] \<and>
     rcA (brRadiance (radiances st1 ! i)) =
       (if getDepth (mRay rs) = 0 then
          (case missLight env rs of
             Some light \<Rightarrow>
               if getIsOpaqueInAlpha light then pathPixelWeight (mPathVertex rs)
               else if mVolHit rs then volumeAlpha env rs
               else 0
           | None \<Rightarrow> if mVolHit rs then volumeAlpha env rs else 0)
        else 0)
     \<and> rgbOf (brRadiance (radiances st1 ! i)) =
         cadd (if getDepth (mRay rs) = 0 then missLightRadiance env rs else sBlack)
           (mVolRad rs)
     \<and> (missLight env rs = None \<and> \<not> mVolHit rs \<and> mVolRad rs = sBlack
        \<longrightarrow> brRadiance (radiances st1 ! i) = RenderColor 0 0 0 0)
     \<and> hTls st1 = hTls st @ evs
     \<and> filter isLightLookup evs =
         (if getDepth (mRay rs) = 0 then
            IntersectVisibleLight p
            # (case missLight env rs of Some light \<Rightarrow> [LightEval light p] | None \<Rightarrow> [])
          else [])"
  using i r f unfolding p_def rs_def
  by (auto simp: miss_body_def loadAt_def storeAt_def Let_def missLight_def
      missLightRadiance_def volumeAlpha_def rgbOf_def cadd_def sBlack_def isLightLookup_def
      split: prod.splits option.splits)

text \<open>
  Three rays of the example scene. A primary ray that finds a light opaque in alpha: alpha
  is the pixel weight \<open>1\<close>. A primary ray that traversed a volume and finds a light that
  is not opaque: alpha is \<open>1 * (1 - 1/2)\<close> and the volume radiance is added to that of the
  light. The same ray at depth \<open>1\<close>: no light is looked up, alpha is \<open>0\<close> and the radiance
  is the volume radiance.
\<close>

theorem miss_alpha_policy_for_primary_rays_witness:
  "(\<exists>st1 evs. miss_body exOpaqueEnv (\<lambda>p. exRayState) [exMissEntry] 0 exHandlerState = Inr st1
      \<and> rcA (brRadiance (radiances st1 ! 0)) = 1
      \<and> rgbOf (brRadiance (radiances st1 ! 0)) = Color 1 1 1
      \<and> hTls st1 = evs
      \<and> filter isLightLookup evs
          = [IntersectVisibleLight 3, LightEval (exLight\<lparr>getIsOpaqueInAlpha := True\<rparr>) 3])
   \<and> (\<exists>st1 evs. miss_body exEnv (\<lambda>p. exVolumeRayState) [exMissEntry] 0 exHandlerState = Inr st1
      \<and> rcA (brRadiance (radiances st1 ! 0)) = 1 / 2
      \<and> rgbOf (brRadiance (radiances st1 ! 0)) = Color 2 1 1
      \<and> hTls st1 = evs
      \<and> filter isLightLookup evs = [IntersectVisibleLight 3, LightEval exLight 3])
   \<and> (\<exists>st1 evs. miss_body exEnv (\<lambda>p. exSecondaryRayState) [exMissEntry] 0 exHandlerState
                    = Inr st1
      \<and> rcA (brRadiance (radiances st1 ! 0)) = 0
      \<and> rgbOf (brRadiance (radiances st1 ! 0)) = Color 1 0 0
      \<and> hTls st1 = evs
      \<and> filter isLightLookup evs = [])"
proof -
  have i: "0 < length [exMissEntry]" by simp
  have r: "0 < length (radiances exHandlerState)" by (simp add: exHandlerState_def)
  have f: "numRayStatesToFree exHandlerState < length (rayStatesToFree exHandlerState)"
    by (simp add: exHandlerState_def)
  have t: "hTls exHandlerState = []" by (simp add: exHandlerState_def)
  have p: "unat (mRsIdx ([exMissEntry] ! 0)) = 3" by (simp add: exMissEntry_def)
  have d0: "getDepth (mRay exRayState) = 0" "getDepth (mRay exVolumeRayState) = 0"
    and d1: "getDepth (mRay exSecondaryRayState) \<noteq> 0"
    by (simp_all add: exRayState_def exVolumeRayState_def exSecondaryRayState_def)
  have la: "missLight exOpaqueEnv exRayState = Some (exLight\<lparr>getIsOpaqueInAlpha := True\<rparr>)"
    and lb: "missLight exEnv exVolumeRayState = Some exLight"
    by (simp_all add: missLight_def exOpaqueEnv_def exEnv_def)
  have oa: "getIsOpaqueInAlpha (exLight\<lparr>getIsOpaqueInAlpha := True\<rparr>)"
    and ob: "\<not> getIsOpaqueInAlpha exLight"
    by (simp_all add: exLight_def)
  have wa: "pathPixelWeight (mPathVertex exRayState) = 1" by (simp add: exRayState_def)
  have vb: "mVolHit exVolumeRayState"
    and ab: "volumeAlpha exEnv exVolumeRayState = 1 / 2"
    by (simp_all add: volumeAlpha_def exEnv_def exVolumeRayState_def exRayState_def)
  have ca: "cadd (missLightRadiance exOpaqueEnv exRayState) (mVolRad exRayState) = Color 1 1 1"
    by (simp add: missLightRadiance_def exOpaqueEnv_def exEnv_def exRayState_def cadd_def
        cmul_def cscaleR_def sWhite_def sBlack_def)
  have cb: "cadd (missLightRadiance exEnv exVolumeRayState) (mVolRad exVolumeRayState)
              = Color 2 1 1"
    by (simp add: missLightRadiance_def exEnv_def exVolumeRayState_def exRayState_def cadd_def
        cmul_def cscaleR_def sWhite_def sBlack_def)
  have cc: "cadd sBlack (mVolRad exSecondaryRayState) = Color 1 0 0"
    by (simp add: exSecondaryRayState_def exVolumeRayState_def cadd_def sBlack_def)
  have a: "\<exists>st1 evs. miss_body exOpaqueEnv (\<lambda>p. exRayState) [exMissEntry] 0 exHandlerState
                        = Inr st1
      \<and> rcA (brRadiance (radiances st1 ! 0)) = 1
      \<and> rgbOf (brRadiance (radiances st1 ! 0)) = Color 1 1 1
      \<and> hTls st1 = evs
      \<and> filter isLightLookup evs
          = [IntersectVisibleLight 3, LightEval (exLight\<lparr>getIsOpaqueInAlpha := True\<rparr>) 3]"
    using miss_alpha_policy_for_primary_rays
            [OF i r f, where env = exOpaqueEnv and pool = "\<lambda>p. exRayState"]
    unfolding t p d0 la by (simp add: oa wa ca) blast
  have b: "\<exists>st1 evs. miss_body exEnv (\<lambda>p. exVolumeRayState) [exMissEntry] 0 exHandlerState
                        = Inr st1
      \<and> rcA (brRadiance (radiances st1 ! 0)) = 1 / 2
      \<and> rgbOf (brRadiance (radiances st1 ! 0)) = Color 2 1 1
      \<and> hTls st1 = evs
      \<and> filter isLightLookup evs = [IntersectVisibleLight 3, LightEval exLight 3]"
    using miss_alpha_policy_for_primary_rays
            [OF i r f, where env = exEnv and pool = "\<lambda>p. exVolumeRayState"]
    unfolding t p d0 lb by (simp add: ob vb ab cb) blast
  have c: "\<exists>st1 evs. miss_body exEnv (\<lambda>p. exSecondaryRayState) [exMissEntry] 0 exHandlerState
                    = Inr st1
      \<and> rcA (brRadiance (radiances st1 ! 0)) = 0
      \<and> rgbOf (brRadiance (radiances st1 ! 0)) = Color 1 0 0
      \<and> hTls st1 = evs
      \<and> filter isLightLookup evs = []"
    using miss_alpha_policy_for_primary_rays
            [OF i r f, where env = exEnv and pool = "\<lambda>p. exSecondaryRayState"]
    unfolding t p by (simp add: d1 cc) blast
  show ?thesis using a b c by blast
qed

text \<open>
  C5 as stated fails for a ray that is not primary: a ray of depth \<open>1\<close> that misses all
  geometry after it traversed a volume (alpha transmittance \<open>0\<close>, pixel weight \<open>1\<close>) is
  emitted with alpha \<open>0\<close>, where the case "no light found but volume traversed" of the
  policy gives \<open>1\<close>.
\<close>

theorem miss_alpha_policy_counterexample:
  "map_sum id (\<lambda>(p, t). (map (\<lambda>b. rcA (brRadiance b)) (emittedRadiances t),
                           mVolHit (p 3), volumeAlpha exVolumeEnv (p 3)))
     (rayBundleHandler exVolumeEnv [3]
        (\<lambda>p. exRayState\<lparr>mRay := (mRay exRayState)\<lparr>getDepth := 1\<rparr>\<rparr>) [])
   = Inr ([0], True, 1)"
  by code_simp

section \<open>Sort keys and the order after sorting\<close>

lemma sorted_map_const: "\<forall>x\<in>set xs. f x = c \<Longrightarrow> sorted (map f xs)"
  by (induction xs) auto

lemma mset_filter_split:
  "mset (filter (\<lambda>e. g e < n) es) + mset (filter (\<lambda>e. g e = n) es)
     = mset (filter (\<lambda>e. g e < Suc n) es)"
  by (induction es) (auto simp: less_Suc_eq)

lemma bucket_mset:
  "mset (concat (map (\<lambda>k. filter (\<lambda>e. unat (mSortKey e) = k) es) [0..<n]))
     = mset (filter (\<lambda>e. unat (mSortKey e) < n) es)"
proof (induction n)
  case 0
  then show ?case by simp
next
  case (Suc n)
  show ?case
    using Suc mset_filter_split [of "\<lambda>e. unat (mSortKey e)" n es] by simp
qed

lemma bucket_set:
  "set (concat (map (\<lambda>k. filter (\<lambda>e. unat (mSortKey e) = k) es) [0..<n]))
     = {e \<in> set es. unat (mSortKey e) < n}"
proof -
  have "set_mset (mset (concat (map (\<lambda>k. filter (\<lambda>e. unat (mSortKey e) = k) es) [0..<n])))
          = set_mset (mset (filter (\<lambda>e. unat (mSortKey e) < n) es))"
    by (simp only: bucket_mset)
  then show ?thesis by simp
qed

lemma bucket_sorted:
  "sorted (map mSortKey (concat (map (\<lambda>k. filter (\<lambda>e. unat (mSortKey e) = k) es) [0..<n])))"
proof (induction n)
  case 0
  then show ?case by simp
next
  case (Suc n)
  let ?B = "concat (map (\<lambda>k. filter (\<lambda>e. unat (mSortKey e) = k) es) [0..<n])"
  let ?F = "filter (\<lambda>e. unat (mSortKey e) = n) es"
  have "\<forall>x\<in>set ?F. mSortKey x = of_nat n" by auto
  then have s2: "sorted (map mSortKey ?F)" by (rule sorted_map_const)
  have le: "\<forall>x\<in>set ?B. \<forall>y\<in>set ?F. mSortKey x \<le> mSortKey y"
    unfolding bucket_set by (auto simp: word_le_nat_alt)
  have "sorted (map mSortKey (?B @ ?F))"
    using Suc s2 le by (simp add: sorted_append)
  then show ?case by simp
qed

lemma bucket_filter_key:
  "filter (\<lambda>x. mSortKey k = mSortKey x)
     (concat (map (\<lambda>j. filter (\<lambda>e. unat (mSortKey e) = j) es) [0..<n]))
   = (if unat (mSortKey k) < n then filter (\<lambda>x. mSortKey k = mSortKey x) es else [])"
proof (induction n)
  case 0
  then show ?case by simp
next
  case (Suc n)
  have a: "unat (mSortKey k) = n \<Longrightarrow>
      filter (\<lambda>x. mSortKey k = mSortKey x \<and> unat (mSortKey x) = n) es
        = filter (\<lambda>x. mSortKey k = mSortKey x) es"
    by (rule filter_cong) auto
  have b: "unat (mSortKey k) \<noteq> n \<Longrightarrow>
      filter (\<lambda>x. mSortKey k = mSortKey x \<and> unat (mSortKey x) = n) es = []"
    by (auto simp: filter_empty_conv)
  have c: "filter (\<lambda>x. unat (mSortKey x) = n \<and> mSortKey k = mSortKey x) es
      = filter (\<lambda>x. mSortKey k = mSortKey x \<and> unat (mSortKey x) = n) es"
    by (rule filter_cong) auto
  show ?case
  proof (cases "unat (mSortKey k) = n")
    case True
    then show ?thesis using Suc a c by simp
  next
    case False
    then show ?thesis using Suc b c by (auto simp: less_Suc_eq)
  qed
qed

lemma bucketSort32_is_sort_key:
  assumes "\<forall>e\<in>set es. mSortKey e \<le> maxKey"
  shows "bucketSort32 (unat maxKey) es = comparisonSort32 es"
proof -
  let ?B = "concat (map (\<lambda>k. filter (\<lambda>e. unat (mSortKey e) = k) es) [0..<Suc (unat maxKey)])"
  have all: "filter (\<lambda>e. unat (mSortKey e) < Suc (unat maxKey)) es = es"
    using assms by (auto simp: word_le_nat_alt less_Suc_eq_le)
  have m: "mset ?B = mset es"
    using bucket_mset [of es "Suc (unat maxKey)"] all by simp
  have f: "\<And>k. k \<in> set ?B \<Longrightarrow>
      filter (\<lambda>x. mSortKey k = mSortKey x) ?B = filter (\<lambda>x. mSortKey k = mSortKey x) es"
  proof -
    fix k assume "k \<in> set ?B"
    then have "unat (mSortKey k) < Suc (unat maxKey)"
      unfolding bucket_set by simp
    then show "filter (\<lambda>x. mSortKey k = mSortKey x) ?B = filter (\<lambda>x. mSortKey k = mSortKey x) es"
      using bucket_filter_key [of k es "Suc (unat maxKey)"] by simp
  qed
  have s: "sorted (map mSortKey ?B)" by (rule bucket_sorted)
  have "sort_key mSortKey es = ?B"
    by (rule properties_for_sort_key [OF m f s])
  then show ?thesis by (simp add: bucketSort32_def comparisonSort32_def)
qed


lemma gather_body_cases:
  assumes "gather_body env pool p st = Inr st1"
  shows "length (sortedEntries st1) = length (sortedEntries st) \<and>
         ((numSortedEntries st1 = numSortedEntries st \<and> sortedEntries st1 = sortedEntries st
           \<and> maxSortKey st1 = maxSortKey st)
          \<or> (\<exists>e. numSortedEntries st < length (sortedEntries st)
                \<and> numSortedEntries st1 = Suc (numSortedEntries st)
                \<and> sortedEntries st1 = (sortedEntries st)[numSortedEntries st := e]
                \<and> maxSortKey st1 = max (maxSortKey st) (mSortKey e)
                \<and> mRsIdx e = of_nat p
                \<and> (if geomID (mRay (pool p)) = - 1 then mSortKey e = 0 \<and> mMaterial e = None
                    else mSortKey e \<noteq> 0 \<and> mMaterial e \<noteq> None)))"
proof (cases "geomID (mRay (pool p)) = - 1")
  case True
  have m: "max (maxSortKey st) 0 = maxSortKey st" by (simp add: max_def)
  show ?thesis
    using assms True m
    by (auto simp: gather_body_def storeAt_def Let_def split: if_splits)
next
  case False
  show ?thesis
    using assms False
    by (auto simp: gather_body_def storeAt_def Let_def
        split: if_splits option.splits sum.splits)
qed

lemma gather_body_inv:
  assumes g: "gathered pool ps st" and p: "p \<in> set ps"
    and b: "gather_body env pool p st = Inr st1"
  shows "gathered pool ps st1"
proof -
  have n: "numSortedEntries st \<le> length (sortedEntries st)"
    and old: "\<And>e. e \<in> set (take (numSortedEntries st) (sortedEntries st)) \<Longrightarrow>
               mSortKey e \<le> maxSortKey st \<and> entryOfRays pool ps e"
    using g by (simp_all add: gathered_def)
  have nz: "w \<noteq> 0 \<Longrightarrow> 1 \<le> w" for w :: "32 word"
    by (simp add: word_le_nat_alt unat_gt_0 Suc_leI)
  from gather_body_cases [OF b]
  have len: "length (sortedEntries st1) = length (sortedEntries st)"
    and cases: "(numSortedEntries st1 = numSortedEntries st \<and> sortedEntries st1 = sortedEntries st
           \<and> maxSortKey st1 = maxSortKey st)
          \<or> (\<exists>e. numSortedEntries st < length (sortedEntries st)
                \<and> numSortedEntries st1 = Suc (numSortedEntries st)
                \<and> sortedEntries st1 = (sortedEntries st)[numSortedEntries st := e]
                \<and> maxSortKey st1 = max (maxSortKey st) (mSortKey e)
                \<and> mRsIdx e = of_nat p
                \<and> (if geomID (mRay (pool p)) = - 1 then mSortKey e = 0 \<and> mMaterial e = None
                    else mSortKey e \<noteq> 0 \<and> mMaterial e \<noteq> None))"
    by simp_all
  from cases show ?thesis
  proof
    assume "numSortedEntries st1 = numSortedEntries st \<and> sortedEntries st1 = sortedEntries st
           \<and> maxSortKey st1 = maxSortKey st"
    then show ?thesis using g by (simp add: gathered_def)
  next
    assume "\<exists>e. numSortedEntries st < length (sortedEntries st)
                \<and> numSortedEntries st1 = Suc (numSortedEntries st)
                \<and> sortedEntries st1 = (sortedEntries st)[numSortedEntries st := e]
                \<and> maxSortKey st1 = max (maxSortKey st) (mSortKey e)
                \<and> mRsIdx e = of_nat p
                \<and> (if geomID (mRay (pool p)) = - 1 then mSortKey e = 0 \<and> mMaterial e = None
                    else mSortKey e \<noteq> 0 \<and> mMaterial e \<noteq> None)"
    then obtain e where lt: "numSortedEntries st < length (sortedEntries st)"
      and n1: "numSortedEntries st1 = Suc (numSortedEntries st)"
      and s1: "sortedEntries st1 = (sortedEntries st)[numSortedEntries st := e]"
      and m1: "maxSortKey st1 = max (maxSortKey st) (mSortKey e)"
      and idx: "mRsIdx e = of_nat p"
      and key: "if geomID (mRay (pool p)) = - 1 then mSortKey e = 0 \<and> mMaterial e = None
                else mSortKey e \<noteq> 0 \<and> mMaterial e \<noteq> None"
      by blast
    have tk: "take (numSortedEntries st1) (sortedEntries st1)
                = take (numSortedEntries st) (sortedEntries st) @ [e]"
      using lt by (simp add: n1 s1 take_Suc_conv_app_nth)
    have enew: "entryOfRays pool ps e"
      unfolding entryOfRays_def
    proof (rule bexI [of _ p])
      show "mRsIdx e = of_nat p \<and>
            (if geomID (mRay (pool p)) = - 1 then mSortKey e = 0 \<and> mMaterial e = None
             else 1 \<le> mSortKey e \<and> mMaterial e \<noteq> None)"
        using idx key nz [of "mSortKey e"] by (simp split: if_splits)
      show "p \<in> set ps" by (rule p)
    qed
    have "\<forall>x\<in>set (take (numSortedEntries st1) (sortedEntries st1)).
            mSortKey x \<le> maxSortKey st1 \<and> entryOfRays pool ps x"
    proof
      fix x assume "x \<in> set (take (numSortedEntries st1) (sortedEntries st1))"
      then have "x \<in> set (take (numSortedEntries st) (sortedEntries st)) \<or> x = e"
        unfolding tk by auto
      then show "mSortKey x \<le> maxSortKey st1 \<and> entryOfRays pool ps x"
      proof
        assume "x \<in> set (take (numSortedEntries st) (sortedEntries st))"
        then have "mSortKey x \<le> maxSortKey st \<and> entryOfRays pool ps x" by (rule old)
        then show ?thesis unfolding m1 by (simp add: le_max_iff_disj)
      next
        assume "x = e"
        then show ?thesis using enew unfolding m1 by simp
      qed
    qed
    then show ?thesis
      using lt n1 len by (simp add: gathered_def)
  qed
qed

lemma gather_loop_inv:
  assumes "gathered pool ps0 st" "set ps \<subseteq> set ps0" "gather_loop env pool ps st = Inr g"
  shows "gathered pool ps0 g"
  using assms
proof (induction ps arbitrary: st)
  case Nil
  then show ?case by simp
next
  case (Cons p ps)
  from Cons.prems(3) obtain st1 where b: "gather_body env pool p st = Inr st1"
    and l: "gather_loop env pool ps st1 = Inr g"
    by (auto split: sum.splits)
  have "p \<in> set ps0" using Cons.prems(2) by simp
  then have "gathered pool ps0 st1"
    using gather_body_inv [OF Cons.prems(1) _ b] by simp
  then show ?case
    using Cons.IH [OF _ _ l] Cons.prems(2) by simp
qed







section \<open>Every ray state leaves the handler once\<close>

text \<open>
  C1. A batch of one ray that hits geometry to which no material is assigned
  (primitive \<open>0\<close> of the example scene). The ray state is put on the list of ray states
  to free and no sort entry is written, so \<^verbatim>\<open>numSortedEntries\<close> is \<open>0\<close>. The handler
  nevertheless reads \<^verbatim>\<open>sortedEntries->mSortKey\<close>, a slot it never wrote. When the arena
  holds \<open>0\<close> there (fresh memory, or the slot a previous batch left behind when its
  smallest key was that of a miss) the miss run is taken to be non-empty: the span loop
  runs past \<^verbatim>\<open>endEntry\<close> and off the array, and the handler does not reach
  \<^verbatim>\<open>freeRayStates\<close>. When the slot holds another key, here \<open>9\<close>, the ray state is freed
  once, as the claim says.
\<close>

theorem null_material_batch_reads_unwritten_sort_entry:
  "traceOf (rayBundleHandler exEnv [3] (\<lambda>p. exHit 0) []) = Inl OutOfBounds
   \<and> traceOf (rayBundleHandler
               (exEnv\<lparr>arenaSortedEntry := (\<lambda>i. \<lparr>mSortKey = 9, mRsIdx = 0, mMaterial = None\<rparr>)\<rparr>)
               [3] (\<lambda>p. exHit 0) [])
       = Inr [AddToCounter STATS_INTERSECTION_RAYS 1,
              AddToCounter STATS_BUNDLED_INTERSECTION_RAYS 1, AccelIntersect 3,
              ComputeRadianceVolume 3, FreeRayStates [3]]"
  by code_simp

section \<open>Handle releases and light path events, for every scene\<close>

text \<open>
  For every batch of valid rays, whatever the scene: the CPU resolvers end each ray with
  the list free (when the handle is not null) and one release of each of the two other
  handles; no call of the presence resolver releases a deep-data handle; no call of the
  GPU resolver releases a cryptomatte handle.
\<close>

lemma cpu_releases_each_handle_once:
  "filter isReleaseEvent (cpuStandardEvents env r)
     = freeListEvents env r @ [ReleaseDeepData (mDeepDataHandle r),
                               ReleaseCryptomatteData (mCryptomatteDataHandle r)]"
  "filter isReleaseEvent (cpuForcedEvents env r)
     = freeListEvents env r @ [ReleaseDeepData (mDeepDataHandle r),
                               ReleaseCryptomatteData (mCryptomatteDataHandle r)]"
  by (simp_all add: cpuStandardEvents_def cpuForcedEvents_def standardAovEvents_def
      forcedAovEvents_def isReleaseEvent_def freeListEvents_def)

lemma presence_never_releases_deep_data:
  assumes "\<forall>r\<in>set entries. isValid env r" "length entries \<le> length results"
  shows "\<exists>n res t. computePresenceShadowsQueriesBundled env entries results [] = Inr (n, res, t)
           \<and> filter isDeepDataRelease t = []"
proof -
  have "filter isDeepDataRelease (concat (map (presenceEvents env) entries)) = []"
    by (induction entries) (simp_all add: presenceEvents_def isDeepDataRelease_def)
  then show ?thesis
    using computePresenceShadowsQueriesBundled_ok [OF assms, of "[]"] by simp
qed

lemma gpu_never_releases_cryptomatte:
  assumes "length rays \<le> length (gpuOutputOcclusionBuf env gpuRays rays)"
    and "length rays \<le> length results"
  shows "\<exists>n res t. computeXPUOcclusionQueriesOnGPU env rays gpuRays results [] = Inr (n, res, t)
           \<and> filter isCryptomatteRelease t = []"
proof -
  have ev: "filter isCryptomatteRelease (gpuEvents env occ r) = []" for occ r
    by (simp add: gpuEvents_def standardAovEvents_def forcedAovEvents_def freeListEvents_def
        isCryptomatteRelease_def)
  have "filter isCryptomatteRelease (concat (map (\<lambda>(occ, r). gpuEvents env occ r) xs)) = []"
    for xs
    by (induction xs) (auto simp: ev)
  then show ?thesis
    using computeXPUOcclusionQueriesOnGPU_ok [OF assms, of "[]"]
    by (simp add: isCryptomatteRelease_def)
qed

text \<open>
  For every entry of the miss run, whatever the scene: when the ray is a primary ray the
  events the iteration adds to the trace contain neither a light event transition nor a
  light AOV accumulation.
\<close>

lemma primary_miss_adds_no_light_path_event:
  assumes "miss_body env pool a i st = Inr st1"
    and "getDepth (mRay (pool (unat (mRsIdx (a ! i))))) = 0"
  shows "\<exists>evs. hTls st1 = hTls st @ evs \<and> filter isLightPathEvent evs = []"
  using assms
  by (auto simp: miss_body_def loadAt_def storeAt_def Let_def isLightPathEvent_def
      split: prod.splits option.splits if_splits sum.splits)

section \<open>Every ray state of a batch is freed or forwarded\<close>

text \<open>
  \<^verbatim>\<open>rayBundleHandler\<close> owns the ray states it is given: each one has to be handed either to
  \<^verbatim>\<open>freeRayStates\<close> or to a shade queue. The lemmas of this section follow the pointers
  through the loops of the handler.
\<close>

declare spanEndFrom.simps [simp del] shade_loop.simps [simp del]

lemma freedOf_append: "freedOf (t @ u) = freedOf t @ freedOf u"
  by (simp add: freedOf_def)

lemma forwardedOf_append: "forwardedOf (t @ u) = forwardedOf t @ forwardedOf u"
  by (simp add: forwardedOf_def)

lemma intersect_loop_trace:
  assumes "intersect_loop env ps (pool, tls) = Inr (pool1, tls1)"
  shows "freedOf tls1 = freedOf tls \<and> forwardedOf tls1 = forwardedOf tls"
  using assms
proof (induction ps arbitrary: pool tls)
  case Nil
  then show ?case by simp
next
  case (Cons p ps)
  from Cons.prems have
    "intersect_loop env ps (pool(p := (pool p)\<lparr>mRay := intersect env (mRay (pool p))\<rparr>),
        tls @ [AccelIntersect p]) = Inr (pool1, tls1)"
    by (simp split: if_splits)
  from Cons.IH [OF this] show ?case
    by (simp add: freedOf_def forwardedOf_def)
qed

lemma volume_loop_trace:
  assumes "volume_loop env ps (pool, tls) = (pool1, tls1)"
  shows "freedOf tls1 = freedOf tls \<and> forwardedOf tls1 = forwardedOf tls"
  using assms
proof (induction ps arbitrary: pool tls)
  case Nil
  then show ?case by simp
next
  case (Cons p ps)
  obtain pool2 tls2 where b: "volume_body env p (pool, tls) = (pool2, tls2)"
    by (cases "volume_body env p (pool, tls)")
  then have "tls2 = tls @ [ComputeRadianceVolume p]"
    by (auto simp: volume_body_def Let_def split: prod.splits)
  then have e: "freedOf tls2 = freedOf tls \<and> forwardedOf tls2 = forwardedOf tls"
    by (simp add: freedOf_def forwardedOf_def)
  from Cons.prems b have "volume_loop env ps (pool2, tls2) = (pool1, tls1)" by simp
  from Cons.IH [OF this] e show ?case by simp
qed

text \<open>What one iteration of the gather loop does to the two arrays and to the trace.\<close>

lemma gather_body_effect:
  assumes "gather_body env pool p st = Inr st1"
  shows "freedOf (hTls st1) = freedOf (hTls st) \<and> forwardedOf (hTls st1) = forwardedOf (hTls st)
       \<and> length (sortedEntries st1) = length (sortedEntries st)
       \<and> length (rayStatesToFree st1) = length (rayStatesToFree st)
       \<and> (if writesSortEntry env (pool p) then
            (\<exists>e. numSortedEntries st < length (sortedEntries st)
               \<and> numSortedEntries st1 = Suc (numSortedEntries st)
               \<and> sortedEntries st1 = (sortedEntries st)[numSortedEntries st := e]
               \<and> mRsIdx e = of_nat p)
            \<and> numRayStatesToFree st1 = numRayStatesToFree st
            \<and> rayStatesToFree st1 = rayStatesToFree st
          else
            numSortedEntries st1 = numSortedEntries st
            \<and> sortedEntries st1 = sortedEntries st
            \<and> numRayStatesToFree st < length (rayStatesToFree st)
            \<and> numRayStatesToFree st1 = Suc (numRayStatesToFree st)
            \<and> rayStatesToFree st1 = (rayStatesToFree st)[numRayStatesToFree st := p])"
proof (cases "geomID (mRay (pool p)) = - 1")
  case True
  show ?thesis
    using assms True
    by (auto simp: gather_body_def storeAt_def Let_def writesSortEntry_def
        freedOf_def forwardedOf_def split: if_splits)
next
  case False
  show ?thesis
    using assms False
    by (auto simp: gather_body_def storeAt_def Let_def writesSortEntry_def
        freedOf_def forwardedOf_def
        split: if_splits option.splits sum.splits)
qed

lemma unat_of_nat_32: "p < 2 ^ 32 \<Longrightarrow> unat (of_nat p :: 32 word) = p"
  by (simp add: unat_of_nat take_bit_nat_eq_self)

lemma gather_loop_accounts:
  assumes "gather_loop env pool ps st = Inr g"
    and "numSortedEntries st \<le> length (sortedEntries st)"
    and "numRayStatesToFree st \<le> length (rayStatesToFree st)"
    and "\<forall>p\<in>set ps. p < 2 ^ 32"
  shows "freedOf (hTls g) = freedOf (hTls st) \<and> forwardedOf (hTls g) = forwardedOf (hTls st)
       \<and> numSortedEntries g \<le> length (sortedEntries g)
       \<and> numRayStatesToFree g \<le> length (rayStatesToFree g)
       \<and> length (sortedEntries g) = length (sortedEntries st)
       \<and> numSortedEntries st \<le> numSortedEntries g
       \<and> ((\<exists>p\<in>set ps. writesSortEntry env (pool p)) \<longrightarrow> 0 < numSortedEntries g)
       \<and> ((\<forall>p\<in>set ps. \<not> writesSortEntry env (pool p)) \<longrightarrow>
             numSortedEntries g = numSortedEntries st \<and> sortedEntries g = sortedEntries st)
       \<and> mset (map (\<lambda>e. unat (mRsIdx e)) (take (numSortedEntries g) (sortedEntries g)))
           + mset (take (numRayStatesToFree g) (rayStatesToFree g))
         = mset (map (\<lambda>e. unat (mRsIdx e)) (take (numSortedEntries st) (sortedEntries st)))
           + mset (take (numRayStatesToFree st) (rayStatesToFree st)) + mset ps"
  using assms
proof (induction ps arbitrary: st)
  case Nil
  then show ?case by simp
next
  case (Cons p ps)
  from Cons.prems(1) obtain st1 where b: "gather_body env pool p st = Inr st1"
    and l: "gather_loop env pool ps st1 = Inr g"
    by (auto split: sum.splits)
  have p32: "unat (of_nat p :: 32 word) = p"
    using Cons.prems(4) by (simp add: unat_of_nat_32)
  note eff = gather_body_effect [OF b]
  have tr: "freedOf (hTls st1) = freedOf (hTls st)" "forwardedOf (hTls st1) = forwardedOf (hTls st)"
    and ls: "length (sortedEntries st1) = length (sortedEntries st)"
    and lf: "length (rayStatesToFree st1) = length (rayStatesToFree st)"
    using eff by simp_all
  have step: "numSortedEntries st1 \<le> length (sortedEntries st1)
       \<and> numRayStatesToFree st1 \<le> length (rayStatesToFree st1)
       \<and> numSortedEntries st \<le> numSortedEntries st1
       \<and> (writesSortEntry env (pool p) \<longrightarrow> 0 < numSortedEntries st1)
       \<and> (\<not> writesSortEntry env (pool p) \<longrightarrow>
             numSortedEntries st1 = numSortedEntries st \<and> sortedEntries st1 = sortedEntries st)
       \<and> mset (map (\<lambda>e. unat (mRsIdx e)) (take (numSortedEntries st1) (sortedEntries st1)))
           + mset (take (numRayStatesToFree st1) (rayStatesToFree st1))
         = mset (map (\<lambda>e. unat (mRsIdx e)) (take (numSortedEntries st) (sortedEntries st)))
           + mset (take (numRayStatesToFree st) (rayStatesToFree st)) + {#p#}"
  proof (cases "writesSortEntry env (pool p)")
    case True
    with eff obtain e where lt: "numSortedEntries st < length (sortedEntries st)"
      and n1: "numSortedEntries st1 = Suc (numSortedEntries st)"
      and s1: "sortedEntries st1 = (sortedEntries st)[numSortedEntries st := e]"
      and idx: "mRsIdx e = of_nat p"
      and f1: "numRayStatesToFree st1 = numRayStatesToFree st"
        "rayStatesToFree st1 = rayStatesToFree st"
      by auto
    have "take (numSortedEntries st1) (sortedEntries st1)
            = take (numSortedEntries st) (sortedEntries st) @ [e]"
      using lt by (simp add: n1 s1 take_Suc_conv_app_nth)
    then show ?thesis
      using True lt n1 f1 idx p32 ls Cons.prems(3) by simp
  next
    case False
    with eff have lt: "numRayStatesToFree st < length (rayStatesToFree st)"
      and n1: "numRayStatesToFree st1 = Suc (numRayStatesToFree st)"
      and f1: "rayStatesToFree st1 = (rayStatesToFree st)[numRayStatesToFree st := p]"
      and s1: "numSortedEntries st1 = numSortedEntries st" "sortedEntries st1 = sortedEntries st"
      by auto
    have "take (numRayStatesToFree st1) (rayStatesToFree st1)
            = take (numRayStatesToFree st) (rayStatesToFree st) @ [p]"
      using lt by (simp add: n1 f1 take_Suc_conv_app_nth)
    then show ?thesis
      using False lt n1 s1 lf Cons.prems(2) by simp
  qed
  have ih: "freedOf (hTls g) = freedOf (hTls st1) \<and> forwardedOf (hTls g) = forwardedOf (hTls st1)
       \<and> numSortedEntries g \<le> length (sortedEntries g)
       \<and> numRayStatesToFree g \<le> length (rayStatesToFree g)
       \<and> length (sortedEntries g) = length (sortedEntries st1)
       \<and> numSortedEntries st1 \<le> numSortedEntries g
       \<and> ((\<exists>p\<in>set ps. writesSortEntry env (pool p)) \<longrightarrow> 0 < numSortedEntries g)
       \<and> ((\<forall>p\<in>set ps. \<not> writesSortEntry env (pool p)) \<longrightarrow>
             numSortedEntries g = numSortedEntries st1 \<and> sortedEntries g = sortedEntries st1)
       \<and> mset (map (\<lambda>e. unat (mRsIdx e)) (take (numSortedEntries g) (sortedEntries g)))
           + mset (take (numRayStatesToFree g) (rayStatesToFree g))
         = mset (map (\<lambda>e. unat (mRsIdx e)) (take (numSortedEntries st1) (sortedEntries st1)))
           + mset (take (numRayStatesToFree st1) (rayStatesToFree st1)) + mset ps"
    using Cons.IH [OF l] step Cons.prems(4) by simp
  show ?case
  proof (intro conjI)
    show "freedOf (hTls g) = freedOf (hTls st)" using ih tr by simp
    show "forwardedOf (hTls g) = forwardedOf (hTls st)" using ih tr by simp
    show "numSortedEntries g \<le> length (sortedEntries g)" using ih by simp
    show "numRayStatesToFree g \<le> length (rayStatesToFree g)" using ih by simp
    show "length (sortedEntries g) = length (sortedEntries st)" using ih ls by simp
    show "numSortedEntries st \<le> numSortedEntries g" using ih step by simp
    show "(\<exists>p\<in>set (p # ps). writesSortEntry env (pool p)) \<longrightarrow> 0 < numSortedEntries g"
      using ih step by auto
    show "(\<forall>p\<in>set (p # ps). \<not> writesSortEntry env (pool p)) \<longrightarrow>
             numSortedEntries g = numSortedEntries st \<and> sortedEntries g = sortedEntries st"
      using ih step by auto
    show "mset (map (\<lambda>e. unat (mRsIdx e)) (take (numSortedEntries g) (sortedEntries g)))
           + mset (take (numRayStatesToFree g) (rayStatesToFree g))
         = mset (map (\<lambda>e. unat (mRsIdx e)) (take (numSortedEntries st) (sortedEntries st)))
           + mset (take (numRayStatesToFree st) (rayStatesToFree st)) + mset (p # ps)"
      using ih step by simp
  qed
qed

lemma spanEndFrom_bounds:
  assumes "spanEndFrom a endEntry key s = Inr j" "s \<le> endEntry"
  shows "s \<le> j \<and> j \<le> endEntry"
  using assms
proof (induction a endEntry key s rule: spanEndFrom.induct)
  case (1 a endEntry key spanEnd)
  show ?case
  proof (cases "spanEnd = endEntry")
    case True
    then show ?thesis
      using "1.prems" spanEndFrom.simps [of a endEntry key endEntry] by simp
  next
    case ne: False
    show ?thesis
    proof (cases "spanEnd < length a \<and> mSortKey (a ! spanEnd) = key")
      case True
      then have "spanEndFrom a endEntry key (spanEnd + 1) = Inr j"
        using "1.prems"(1) ne by (simp add: spanEndFrom.simps [of a endEntry key spanEnd])
      moreover have "spanEnd + 1 \<le> endEntry" using ne "1.prems"(2) by simp
      ultimately have "spanEnd + 1 \<le> j \<and> j \<le> endEntry"
        using "1.IH" ne True by simp
      then show ?thesis by simp
    next
      case False
      then show ?thesis
        using "1.prems" ne
        by (auto simp: spanEndFrom.simps [of a endEntry key spanEnd] split: if_splits)
    qed
  qed
qed

lemma miss_body_effect:
  assumes "miss_body env pool a i st = Inr st1"
  shows "freedOf (hTls st1) = freedOf (hTls st) \<and> forwardedOf (hTls st1) = forwardedOf (hTls st)
       \<and> i < length a
       \<and> numRayStatesToFree st < length (rayStatesToFree st)
       \<and> numRayStatesToFree st1 = Suc (numRayStatesToFree st)
       \<and> rayStatesToFree st1
           = (rayStatesToFree st)[numRayStatesToFree st := unat (mRsIdx (a ! i))]"
  using assms
  by (auto simp: miss_body_def loadAt_def storeAt_def Let_def freedOf_def forwardedOf_def
      split: prod.splits option.splits if_splits sum.splits)

lemma miss_loop_accounts:
  assumes "miss_loop env pool a is st = Inr st1"
    and "numRayStatesToFree st \<le> length (rayStatesToFree st)"
  shows "freedOf (hTls st1) = freedOf (hTls st) \<and> forwardedOf (hTls st1) = forwardedOf (hTls st)
       \<and> (\<forall>i\<in>set is. i < length a)
       \<and> numRayStatesToFree st1 \<le> length (rayStatesToFree st1)
       \<and> take (numRayStatesToFree st1) (rayStatesToFree st1)
           = take (numRayStatesToFree st) (rayStatesToFree st)
             @ map (\<lambda>i. unat (mRsIdx (a ! i))) is"
  using assms
proof (induction "is" arbitrary: st)
  case Nil
  then show ?case by simp
next
  case (Cons i "is")
  from Cons.prems(1) obtain st2 where b: "miss_body env pool a i st = Inr st2"
    and l: "miss_loop env pool a is st2 = Inr st1"
    by (auto split: sum.splits)
  note eff = miss_body_effect [OF b]
  have lt: "numRayStatesToFree st < length (rayStatesToFree st)" using eff by simp
  have tk: "take (numRayStatesToFree st2) (rayStatesToFree st2)
              = take (numRayStatesToFree st) (rayStatesToFree st) @ [unat (mRsIdx (a ! i))]"
    using eff lt by (simp add: take_Suc_conv_app_nth)
  have le2: "numRayStatesToFree st2 \<le> length (rayStatesToFree st2)"
    using eff lt by simp
  from Cons.IH [OF l le2] eff tk show ?case by simp
qed

lemma shadeEntries_indices:
  assumes "shadeEntries pool a is = Inr es"
  shows "map srsRsIdx es = map (\<lambda>i. mRsIdx (a ! i)) is \<and> (\<forall>i\<in>set is. i < length a)"
  using assms
proof (induction "is" arbitrary: es)
  case Nil
  then show ?case by simp
next
  case (Cons i "is")
  from Cons.prems obtain rest where r: "shadeEntries pool a is = Inr rest"
    and i: "i < length a"
    and es: "map srsRsIdx es = mRsIdx (a ! i) # map srsRsIdx rest"
    by (auto simp: loadAt_def Let_def split: sum.splits if_splits)
  from Cons.IH [OF r] i es show ?case by simp
qed

lemma shade_loop_accounts:
  assumes "shade_loop env pool a n cur tls = Inr t" "cur \<le> n" "\<forall>c. \<not> isCanceled env c"
  shows "freedOf t = freedOf tls
       \<and> forwardedOf t = forwardedOf tls @ map (\<lambda>i. mRsIdx (a ! i)) [cur..<n]"
  using assms
proof (induction "n - cur" arbitrary: cur tls rule: less_induct)
  case less
  show ?case
  proof (cases "cur = n")
    case True
    then show ?thesis
      using less.prems(1) shade_loop.simps [of env pool a n n tls] by simp
  next
    case False
    from less.prems(1) False less.prems(3) obtain c j es q where
      ld: "loadAt a cur = Inr c"
      and sp: "spanEndFrom a n (mSortKey c) (cur + 1) = Inr j"
      and se: "shadeEntries pool a [cur..<cur + (j - cur)] = Inr es"
      and rec: "shade_loop env pool a n j (tls @ [ShadeQueueAddEntries q es]) = Inr t"
      by (auto simp: shade_loop.simps [of env pool a n cur tls]
          split: sum.splits if_splits option.splits)
    have b: "cur + 1 \<le> j \<and> j \<le> n"
      using spanEndFrom_bounds [OF sp] False less.prems(2) by simp
    then have idx: "[cur..<cur + (j - cur)] = [cur..<j]" by simp
    have es: "map srsRsIdx es = map (\<lambda>i. mRsIdx (a ! i)) [cur..<j]"
      using shadeEntries_indices [OF se] idx by simp
    have "n - j < n - cur" using b by arith
    from less.hyps [OF this rec] b less.prems(3)
    have ih: "freedOf t = freedOf (tls @ [ShadeQueueAddEntries q es])
       \<and> forwardedOf t = forwardedOf (tls @ [ShadeQueueAddEntries q es])
           @ map (\<lambda>i. mRsIdx (a ! i)) [j..<n]"
      by simp
    have f: "freedOf (tls @ [ShadeQueueAddEntries q es]) = freedOf tls"
      by (simp add: freedOf_def)
    have w: "forwardedOf (tls @ [ShadeQueueAddEntries q es])
               = forwardedOf tls @ map (\<lambda>i. mRsIdx (a ! i)) [cur..<j]"
      using es by (simp add: forwardedOf_def)
    have sp: "[cur..<n] = [cur..<j] @ [j..<n]"
      using upt_add_eq_append [of cur j "n - j"] b by simp
    show ?thesis using ih f w sp by simp
  qed
qed

lemma smartSort32_mset:
  assumes "\<forall>e\<in>set es. mSortKey e \<le> mk"
  shows "mset (smartSort32 c es mk) = mset es"
  using bucketSort32_is_sort_key [OF assms]
  by (simp add: smartSort32_def comparisonSort32_def)

lemma map_nth_upt_take: "n \<le> length xs \<Longrightarrow> map (\<lambda>i. f (xs ! i)) [0..<n] = map f (take n xs)"
  by (simp add: list_eq_iff_nth_eq)

text \<open>
  Let the handler return without cancellation on a batch whose pointers fit the 32-bit
  index of a sort entry, and let the batch hold a ray for which a sort entry is written, or
  let the first slot of the entry array as the arena hands it out carry a key other than
  \<open>0\<close>. Then the pointers passed to \<^verbatim>\<open>freeRayStates\<close> and the indices passed to the shade
  queues are, together, exactly the pointers of the batch, each one once.
\<close>

lemma rayBundleHandler_frees_or_forwards_every_ray:
  assumes run: "rayBundleHandler env rayStates pool0 [] = Inr (pool, t)"
    and nc: "\<forall>c. \<not> isCanceled env c"
    and small: "\<forall>p\<in>set rayStates. p < 2 ^ 32"
    and ok: "(\<exists>p\<in>set rayStates. writesSortEntry env (pool p))
               \<or> mSortKey (arenaSortedEntry env 0) \<noteq> 0"
  shows "mset (freedOf t) + mset (map unat (forwardedOf t)) = mset rayStates"
proof -
  define N where "N = length rayStates"
  define T0 where "T0 = [AddToCounter STATS_INTERSECTION_RAYS N,
                          AddToCounter STATS_BUNDLED_INTERSECTION_RAYS N]"
  have ne: "N \<noteq> 0"
    using run by (auto simp: rayBundleHandler_def Let_def N_def)
  obtain pool1 tls1 where I: "intersect_loop env rayStates (pool0, T0) = Inr (pool1, tls1)"
    using run ne
    by (cases "intersect_loop env rayStates (pool0, T0)")
      (auto simp: rayBundleHandler_def Let_def N_def T0_def)
  obtain poolV tls2 where V: "volume_loop env rayStates (pool1, tls1) = (poolV, tls2)"
    by (cases "volume_loop env rayStates (pool1, tls1)")
  define tls3 where
    "tls3 = (if mRequiresHeatMap env then tls2 @ [HeatMapBundledUpdate rayStates] else tls2)"
  define init where
    "init = \<lparr>sortedEntries = allocArray (arenaSortedEntry env) N,
             numSortedEntries = 0, maxSortKey = 0,
             rayStatesToFree = allocArray (arenaRayStatePtr env) N,
             numRayStatesToFree = 0, radiances = [], hTls = tls3\<rparr>"
  have run1: "(case gather_loop env poolV rayStates init of
                 Inl e \<Rightarrow> Inl e
               | Inr g \<Rightarrow>
                  let n = numSortedEntries g;
                      a = smartSort32 RAY_HANDLER_STD_SORT_CUTOFF (take n (sortedEntries g))
                            (maxSortKey g)
                          @ drop n (sortedEntries g);
                      endEntry = n
                  in
                  (case loadAt a 0 of
                     Inl e \<Rightarrow> Inl e
                   | Inr entry0 \<Rightarrow>
                      let missRun =
                        (if mSortKey entry0 = 0 then
                           (case spanEndFrom a endEntry 0 1 of
                              Inl e \<Rightarrow> Inl e
                            | Inr spanEnd \<Rightarrow>
                                let numMisses = spanEnd in
                                if numMisses \<noteq> 0 then
                                  (case miss_loop env poolV a [0..<numMisses]
                                          (g\<lparr>radiances :=
                                               allocArray (arenaRadiance env) numMisses\<rparr>) of
                                     Inl e \<Rightarrow> Inl e
                                   | Inr m \<Rightarrow>
                                       Inr (numMisses,
                                            m\<lparr>hTls := hTls m @
                                                 [AddRadianceQueueEntries
                                                    (take numMisses (radiances m))]\<rparr>,
                                            isCanceled env AfterMisses))
                                else Inr (numMisses, g, False))
                         else Inr (0, g, False))
                      in
                      (case missRun of
                         Inl e \<Rightarrow> Inl e
                       | Inr (numMisses, m, canceled) \<Rightarrow>
                           if canceled then Inr (poolV, hTls m)
                           else if \<not> numRayStatesToFree m \<le> N then Inl AssertionFailed
                           else
                             (case shade_loop env poolV a endEntry numMisses
                                     (hTls m @ [FreeRayStates
                                        (take (numRayStatesToFree m) (rayStatesToFree m))]) of
                                Inl e \<Rightarrow> Inl e
                              | Inr tls5 \<Rightarrow> Inr (poolV, tls5))))) = Inr (pool, t)"
    using run ne I V nc
    unfolding rayBundleHandler_def Let_def N_def [symmetric] T0_def [symmetric]
    by (simp add: init_def tls3_def)
  then obtain g where G: "gather_loop env poolV rayStates init = Inr g"
    by (cases "gather_loop env poolV rayStates init") auto
  define n where "n = numSortedEntries g"
  define S where "S = smartSort32 RAY_HANDLER_STD_SORT_CUTOFF (take n (sortedEntries g))
                        (maxSortKey g)"
  define a where "a = S @ drop n (sortedEntries g)"
  have run2: "(case loadAt a 0 of
                     Inl e \<Rightarrow> Inl e
                   | Inr entry0 \<Rightarrow>
                      (case (if mSortKey entry0 = 0 then
                           (case spanEndFrom a n 0 1 of
                              Inl e \<Rightarrow> Inl e
                            | Inr spanEnd \<Rightarrow>
                                if spanEnd \<noteq> 0 then
                                  (case miss_loop env poolV a [0..<spanEnd]
                                          (g\<lparr>radiances :=
                                               allocArray (arenaRadiance env) spanEnd\<rparr>) of
                                     Inl e \<Rightarrow> Inl e
                                   | Inr m \<Rightarrow>
                                       Inr (spanEnd,
                                            m\<lparr>hTls := hTls m @
                                                 [AddRadianceQueueEntries
                                                    (take spanEnd (radiances m))]\<rparr>,
                                            isCanceled env AfterMisses))
                                else Inr (spanEnd, g, False))
                         else Inr (0, g, False)) of
                         Inl e \<Rightarrow> Inl e
                       | Inr (numMisses, m, canceled) \<Rightarrow>
                           if canceled then Inr (poolV, hTls m)
                           else if \<not> numRayStatesToFree m \<le> N then Inl AssertionFailed
                           else
                             (case shade_loop env poolV a n numMisses
                                     (hTls m @ [FreeRayStates
                                        (take (numRayStatesToFree m) (rayStatesToFree m))]) of
                                Inl e \<Rightarrow> Inl e
                              | Inr tls5 \<Rightarrow> Inr (poolV, tls5)))) = Inr (pool, t)"
    using run1 G unfolding Let_def a_def S_def n_def by simp
  then obtain entry0 where L0: "loadAt a 0 = Inr entry0"
    by (cases "loadAt a 0") auto
  have e0: "entry0 = a ! 0" using L0 by (auto simp: loadAt_def split: if_splits)
  \<comment> \<open>the gather loop\<close>
  have f0: "freedOf T0 = [] \<and> forwardedOf T0 = []"
    by (simp add: T0_def freedOf_def forwardedOf_def)
  have fh: "freedOf [HeatMapBundledUpdate rayStates] = []
              \<and> forwardedOf [HeatMapBundledUpdate rayStates] = []"
    by (simp add: freedOf_def forwardedOf_def)
  have f3: "freedOf tls3 = [] \<and> forwardedOf tls3 = []"
    using intersect_loop_trace [OF I] volume_loop_trace [OF V] f0 fh
    by (simp add: tls3_def freedOf_append forwardedOf_append)
  have acc: "freedOf (hTls g) = [] \<and> forwardedOf (hTls g) = []
       \<and> n \<le> length (sortedEntries g)
       \<and> numRayStatesToFree g \<le> length (rayStatesToFree g)
       \<and> length (sortedEntries g) = N
       \<and> ((\<exists>p\<in>set rayStates. writesSortEntry env (poolV p)) \<longrightarrow> 0 < n)
       \<and> ((\<forall>p\<in>set rayStates. \<not> writesSortEntry env (poolV p)) \<longrightarrow>
             n = 0 \<and> sortedEntries g = allocArray (arenaSortedEntry env) N)
       \<and> mset (map (\<lambda>e. unat (mRsIdx e)) (take n (sortedEntries g)))
           + mset (take (numRayStatesToFree g) (rayStatesToFree g))
         = mset rayStates"
    using gather_loop_accounts [OF G _ _ small] f3
    by (simp add: init_def n_def allocArray_def)
  have "gathered poolV rayStates init"
    by (simp add: gathered_def init_def)
  then have "gathered poolV rayStates g"
    using gather_loop_inv [OF _ _ G] by simp
  then have keys: "\<forall>e\<in>set (take n (sortedEntries g)). mSortKey e \<le> maxSortKey g"
    by (simp add: gathered_def n_def)
  have mS: "mset S = mset (take n (sortedEntries g))"
    unfolding S_def by (rule smartSort32_mset [OF keys])
  have lS: "length S = n"
    using mset_eq_length [OF mS] acc by simp
  have tk: "take n a = S" by (simp add: a_def lS)
  have la: "n \<le> length a" by (simp add: a_def lS)
  have total: "mset (map (\<lambda>e. unat (mRsIdx e)) (take n a))
           + mset (take (numRayStatesToFree g) (rayStatesToFree g)) = mset rayStates"
  proof -
    have "mset (map (\<lambda>e. unat (mRsIdx e)) S)
            = mset (map (\<lambda>e. unat (mRsIdx e)) (take n (sortedEntries g)))"
      using mS by (metis mset_map)
    then show ?thesis using acc tk by simp
  qed
  \<comment> \<open>the miss run and the shade loop\<close>
  have fin: "\<exists>m\<le>n. freedOf t = take (numRayStatesToFree g) (rayStatesToFree g)
                          @ map (\<lambda>i. unat (mRsIdx (a ! i))) [0..<m]
              \<and> forwardedOf t = map (\<lambda>i. mRsIdx (a ! i)) [m..<n]"
  proof (cases "mSortKey entry0 = 0")
    case False
    from run2 L0 False obtain tls5 where
      sh: "shade_loop env poolV a n 0
             (hTls g @ [FreeRayStates (take (numRayStatesToFree g) (rayStatesToFree g))])
           = Inr tls5" and t5: "t = tls5"
      by (auto split: if_splits sum.splits)
    from shade_loop_accounts [OF sh _ nc] acc t5
    have "freedOf t = take (numRayStatesToFree g) (rayStatesToFree g)
        \<and> forwardedOf t = map (\<lambda>i. mRsIdx (a ! i)) [0..<n]"
      by (simp add: freedOf_append forwardedOf_append freedOf_def forwardedOf_def)
    then show ?thesis by auto
  next
    case True
    have npos: "0 < n"
    proof (rule ccontr)
      assume "\<not> 0 < n"
      then have n0: "n = 0" by simp
      with acc have nw: "\<forall>p\<in>set rayStates. \<not> writesSortEntry env (poolV p)" by auto
      with acc have "sortedEntries g = allocArray (arenaSortedEntry env) N" by simp
      then have "a ! 0 = arenaSortedEntry env 0"
        using ne n0 lS by (simp add: a_def allocArray_def)
      moreover have "poolV = pool"
        using run2 L0 by (auto split: if_splits sum.splits prod.splits)
      ultimately show False using ok nw True e0 by auto
    qed
    from run2 L0 True obtain m where sp: "spanEndFrom a n 0 1 = Inr m"
      by (cases "spanEndFrom a n 0 1") auto
    have mb: "1 \<le> m \<and> m \<le> n"
      using spanEndFrom_bounds [OF sp] npos by simp
    from run2 L0 True sp mb obtain ms where
      ml: "miss_loop env poolV a [0..<m] (g\<lparr>radiances := allocArray (arenaRadiance env) m\<rparr>)
             = Inr ms"
      by (cases "miss_loop env poolV a [0..<m]
                   (g\<lparr>radiances := allocArray (arenaRadiance env) m\<rparr>)") auto
    from run2 L0 True sp mb ml nc obtain tls5 where
      sh: "shade_loop env poolV a n m
             (hTls ms @ [AddRadianceQueueEntries (take m (radiances ms))]
                @ [FreeRayStates (take (numRayStatesToFree ms) (rayStatesToFree ms))])
           = Inr tls5" and t5: "t = tls5"
      by (auto split: if_splits sum.splits)
    have macc: "freedOf (hTls ms) = [] \<and> forwardedOf (hTls ms) = []
         \<and> take (numRayStatesToFree ms) (rayStatesToFree ms)
             = take (numRayStatesToFree g) (rayStatesToFree g)
               @ map (\<lambda>i. unat (mRsIdx (a ! i))) [0..<m]"
      using miss_loop_accounts [OF ml] acc by simp
    from shade_loop_accounts [OF sh _ nc] mb macc t5
    have "freedOf t = take (numRayStatesToFree g) (rayStatesToFree g)
                          @ map (\<lambda>i. unat (mRsIdx (a ! i))) [0..<m]
        \<and> forwardedOf t = map (\<lambda>i. mRsIdx (a ! i)) [m..<n]"
      by (simp add: freedOf_append forwardedOf_append freedOf_def forwardedOf_def)
    then show ?thesis using mb by auto
  qed
  then obtain m where m: "m \<le> n"
    and fr: "freedOf t = take (numRayStatesToFree g) (rayStatesToFree g)
                          @ map (\<lambda>i. unat (mRsIdx (a ! i))) [0..<m]"
    and fw: "forwardedOf t = map (\<lambda>i. mRsIdx (a ! i)) [m..<n]"
    by auto
  have split: "[0..<n] = [0..<m] @ [m..<n]"
    using upt_add_eq_append [of 0 m "n - m"] m by simp
  have "mset (map (\<lambda>i. unat (mRsIdx (a ! i))) [0..<m])
          + mset (map unat (map (\<lambda>i. mRsIdx (a ! i)) [m..<n]))
        = mset (map (\<lambda>i. unat (mRsIdx (a ! i))) [0..<n])"
    unfolding split by (simp add: comp_def)
  also have "\<dots> = mset (map (\<lambda>e. unat (mRsIdx e)) (take n a))"
    using map_nth_upt_take [OF la, of "\<lambda>e. unat (mRsIdx e)"] by simp
  finally have "mset (map (\<lambda>i. unat (mRsIdx (a ! i))) [0..<m])
          + mset (map unat (map (\<lambda>i. mRsIdx (a ! i)) [m..<n]))
        = mset (map (\<lambda>e. unat (mRsIdx e)) (take n a))" .
  then show ?thesis
    using total fr fw by (simp add: ac_simps)
qed

text \<open>
  A batch of three rays, one that misses and two that hit geometry with the materials
  \<open>3\<close> and \<open>5\<close>: the ray that misses is freed and the two others are forwarded, by
  ascending material id.
\<close>

lemma rayBundleHandler_example_run:
  "map_sum id (\<lambda>(pool, t). (freedOf t, forwardedOf t, geomID (mRay (pool 4))))
     (rayBundleHandler exEnv [5, 4, 3] exPool [])
   = Inr ([4], [3, 5], - 1)"
  by code_simp

lemma rayBundleHandler_frees_or_forwards_every_ray_example:
  "\<exists>pool t. rayBundleHandler exEnv [5, 4, 3] exPool [] = Inr (pool, t)
      \<and> mset (freedOf t) + mset (map unat (forwardedOf t)) = mset [5, 4, 3]
      \<and> freedOf t = [4] \<and> forwardedOf t = [3, 5]"
proof -
  obtain pool t where run: "rayBundleHandler exEnv [5, 4, 3] exPool [] = Inr (pool, t)"
    and f: "freedOf t = [4]" "forwardedOf t = [3, 5]" and g: "geomID (mRay (pool 4)) = - 1"
    using rayBundleHandler_example_run
    by (cases "rayBundleHandler exEnv [5, 4, 3] exPool []") auto
  have nc: "\<forall>c. \<not> isCanceled exEnv c" by (simp add: exEnv_def)
  have "mset (freedOf t) + mset (map unat (forwardedOf t)) = mset [5, 4, 3]"
    using rayBundleHandler_frees_or_forwards_every_ray [OF run nc] g
    by (simp add: writesSortEntry_def)
  then show ?thesis using run f by blast
qed

end
